(* ===== verification/CLib.thy ===== *)
theory CLib
  imports Main "HOL-Library.Word"
begin

text \<open>
  The prelude: faults and results, C buffers and strings, the byte images of machine
  integers, and the two interfaces every component uses (byte codecs and transition
  systems).

  A buffer of the program (\<open>char x[n]\<close>, a \<open>malloc\<close>ed block) is a list of \<open>n\<close>
  characters; HOL's \<open>char\<close> is the eight-bit byte of the code, signed or not. The C
  string a buffer holds is the part before its first NUL. Every access the C standard
  leaves undefined (a write or a read past an object, a null or freed pointer, an
  indeterminate value) is an error value of type \<open>fault\<close>, and so are an \<open>assert\<close>
  that fails, a call of \<open>exit\<close> and a C++ exception.
\<close>

section \<open>Faults and results\<close>

named_theorems cbuf "rewriting of buffers and strings"

datatype fault =
    OutOfBounds
  | Uninitialised
  | NullPointer
  | UseAfterFree
  | AssertFailed
  | ProcessExit
  | Exception

type_synonym 'a result = "fault + 'a"

fun rbind :: "'a result \<Rightarrow> ('a \<Rightarrow> 'b result) \<Rightarrow> 'b result" where
  "rbind (Inl e) f = Inl e"
| "rbind (Inr x) f = f x"

lemma rbind_eq_Inr: "rbind m f = Inr y \<longleftrightarrow> (\<exists>x. m = Inr x \<and> f x = Inr y)"
  by (cases m) auto

lemma rbind_eq_Inl: "rbind m f = Inl e \<longleftrightarrow> m = Inl e \<or> (\<exists>x. m = Inr x \<and> f x = Inl e)"
  by (cases m) auto

lemma rbind_assoc: "rbind (rbind m f) g = rbind m (\<lambda>x. rbind (f x) g)"
  by (cases m) simp_all

lemma rbind_cong [fundef_cong]:
  assumes "m = m'" and "\<And>x. m' = Inr x \<Longrightarrow> f x = g x"
  shows "rbind m f = rbind m' g"
  using assms by (cases m') simp_all

fun failed :: "'a result \<Rightarrow> bool" where
  "failed (Inl e) = True"
| "failed (Inr x) = False"

lemma not_failed_iff: "\<not> failed r \<longleftrightarrow> (\<exists>x. r = Inr x)"
  by (cases r) auto

text \<open>A pointer to a block: null, valid, or left behind by \<open>free\<close>.\<close>

datatype 'a pointer = Null | Live 'a | Freed

fun deref :: "'a pointer \<Rightarrow> 'a result" where
  "deref Null = Inl NullPointer"
| "deref (Live x) = Inr x"
| "deref Freed = Inl UseAfterFree"

section \<open>C strings and buffers\<close>

abbreviation NUL :: char where
  "NUL \<equiv> CHR 0x00"

definition cstr :: "char list \<Rightarrow> string" where
  "cstr b = takeWhile (\<lambda>c. c \<noteq> NUL) b"

definition no_nul :: "string \<Rightarrow> bool" where
  "no_nul s \<longleftrightarrow> NUL \<notin> set s"

text \<open>Reading a string runs past the object when the object holds no NUL.\<close>

definition read_str :: "char list \<Rightarrow> string result" where
  "read_str b = (if NUL \<in> set b then Inr (cstr b) else Inl OutOfBounds)"

text \<open>Every write of the C library to a buffer: some bytes at an offset, inside it or not.\<close>

definition put :: "char list \<Rightarrow> nat \<Rightarrow> char list \<Rightarrow> char list result" where
  "put b off xs =
     (if off + length xs \<le> length b
      then Inr (take off b @ xs @ drop (off + length xs) b)
      else Inl OutOfBounds)"

definition strcpy :: "char list \<Rightarrow> nat \<Rightarrow> string \<Rightarrow> char list result" where
  "strcpy b off s = put b off (s @ [NUL])"

definition strncpy :: "char list \<Rightarrow> nat \<Rightarrow> string \<Rightarrow> nat \<Rightarrow> char list result" where
  "strncpy b off s n = put b off (take n s @ replicate (n - length s) NUL)"

text \<open>\<open>snprintf(b, cap, "%s", s)\<close> with \<open>0 < cap\<close>.\<close>

definition snprintf_s :: "char list \<Rightarrow> nat \<Rightarrow> string \<Rightarrow> char list result" where
  "snprintf_s b cap s = put b 0 (take (cap - 1) s @ [NUL])"

definition memset :: "char list \<Rightarrow> char \<Rightarrow> nat \<Rightarrow> char list result" where
  "memset b c n = put b 0 (replicate n c)"

text \<open>\<open>memcpy(dst, src, n)\<close>: it may neither read past \<open>src\<close> nor write past \<open>dst\<close>.\<close>

definition memcpy :: "char list \<Rightarrow> char list \<Rightarrow> nat \<Rightarrow> char list result" where
  "memcpy dst src n =
     (if n \<le> length src then put dst 0 (take n src) else Inl OutOfBounds)"

text \<open>\<open>memcmp(a, b, n) == 0\<close>.\<close>

definition mem_eq :: "char list \<Rightarrow> char list \<Rightarrow> nat \<Rightarrow> bool" where
  "mem_eq a b n \<longleftrightarrow> take n a = take n b"

text \<open>\<open>strrchr\<close>: the index of the last occurrence.\<close>

fun strrchr :: "string \<Rightarrow> char \<Rightarrow> nat option" where
  "strrchr [] c = None"
| "strrchr (x # xs) c =
     (case strrchr xs c of
        Some i \<Rightarrow> Some (Suc i)
      | None \<Rightarrow> if x = c then Some 0 else None)"

lemma no_nul_Nil [simp]: "no_nul []"
  by (simp add: no_nul_def)

lemma no_nul_Cons [simp]: "no_nul (c # s) \<longleftrightarrow> c \<noteq> NUL \<and> no_nul s"
  by (auto simp: no_nul_def)

lemma no_nul_append [simp]: "no_nul (s @ t) \<longleftrightarrow> no_nul s \<and> no_nul t"
  by (auto simp: no_nul_def)

lemma no_nul_cstr [simp]: "no_nul (cstr b)"
  by (auto simp: no_nul_def cstr_def dest: set_takeWhileD)

lemma no_nul_take [simp]: "no_nul s \<Longrightarrow> no_nul (take n s)"
  by (auto simp: no_nul_def dest: in_set_takeD)

lemma no_nul_drop [simp]: "no_nul s \<Longrightarrow> no_nul (drop n s)"
  by (auto simp: no_nul_def dest: in_set_dropD)

lemma cstr_Nil [cbuf]: "cstr [] = []"
  by (simp add: cstr_def)

lemma cstr_append_NUL [cbuf]: "no_nul s \<Longrightarrow> cstr (s @ NUL # r) = s"
  by (induction s) (auto simp: cstr_def)

lemma cstr_no_nul [cbuf]: "no_nul s \<Longrightarrow> cstr s = s"
  by (induction s) (auto simp: cstr_def)

lemma cstr_replicate_NUL [cbuf]: "cstr (replicate n NUL) = []"
  by (cases n) (auto simp: cstr_def)

lemma cstr_append_zeros [cbuf]: "no_nul s \<Longrightarrow> cstr (s @ replicate n NUL) = s"
  by (cases n) (simp_all add: cbuf)

lemma length_cstr_le: "length (cstr b) \<le> length b"
  by (simp add: cstr_def length_takeWhile_le)

lemma length_cstr_less: "NUL \<in> set b \<Longrightarrow> length (cstr b) < length b"
  by (induction b) (auto simp: cstr_def)

lemma read_str_Inr: "read_str b = Inr s \<longleftrightarrow> NUL \<in> set b \<and> s = cstr b"
  by (auto simp: read_str_def)

lemma length_put: "put b off xs = Inr b' \<Longrightarrow> length b' = length b"
  by (auto simp: put_def split: if_splits)

lemma put_eq_Inl: "put b off xs = Inl e \<longleftrightarrow> e = OutOfBounds \<and> length b < off + length xs"
  by (auto simp: put_def)

lemma put_in_range:
  "off + length xs \<le> length b \<Longrightarrow>
     put b off xs = Inr (take off b @ xs @ drop (off + length xs) b)"
  by (simp add: put_def)

lemma strcpy_fits:
  assumes "length s < length b"
  shows "strcpy b 0 s = Inr (s @ NUL # drop (Suc (length s)) b)"
  using assms by (simp add: strcpy_def put_def)

lemma strcpy_overflow: "length b \<le> length s \<Longrightarrow> strcpy b 0 s = Inl OutOfBounds"
  by (simp add: strcpy_def put_def)

lemma snprintf_s_fits:
  assumes "0 < cap" and "cap \<le> length b"
  shows "snprintf_s b cap s = Inr (take (cap - 1) s @ NUL # drop (Suc (min (length s) (cap - 1))) b)"
  using assms by (auto simp: snprintf_s_def put_def min_def)

lemma strrchr_None: "strrchr s c = None \<longleftrightarrow> c \<notin> set s"
  by (induction s) (auto split: option.splits)

lemma strrchr_Some:
  "strrchr s c = Some i \<Longrightarrow>
     i < length s \<and> s ! i = c \<and> c \<notin> set (drop (Suc i) s)"
proof (induction s arbitrary: i)
  case Nil
  then show ?case by simp
next
  case (Cons x s)
  then show ?case
    by (auto split: option.splits if_splits simp: strrchr_None)
qed

section \<open>Byte images of integers\<close>

text \<open>The machine stores integers with the low byte first.\<close>

fun le_bytes :: "nat \<Rightarrow> nat \<Rightarrow> char list" where
  "le_bytes 0 v = []"
| "le_bytes (Suc k) v = char_of (v mod 256) # le_bytes k (v div 256)"

fun le_value :: "char list \<Rightarrow> nat" where
  "le_value [] = 0"
| "le_value (c # cs) = of_char c + 256 * le_value cs"

lemma length_le_bytes [simp]: "length (le_bytes k v) = k"
  by (induction k arbitrary: v) simp_all

lemma le_value_bytes: "le_value (le_bytes k v) = v mod 256 ^ k"
proof (induction k arbitrary: v)
  case 0
  then show ?case by simp
next
  case (Suc k)
  then show ?case by (simp add: mod_mult2_eq)
qed

lemma le_bytes_value: "le_bytes (length cs) (le_value cs) = cs"
proof (induction cs)
  case Nil
  then show ?case by simp
next
  case (Cons c cs)
  have "of_char c < (256::nat)"
    by simp
  then show ?case using Cons by (simp add: mod_add_eq)
qed

lemma le_value_less: "le_value cs < 256 ^ length cs"
proof (induction cs)
  case Nil
  then show ?case by simp
next
  case (Cons c cs)
  have "le_value (c # cs) < 256 * Suc (le_value cs)"
    by simp
  also have "256 * Suc (le_value cs) \<le> 256 * 256 ^ length cs"
    using Cons by (intro mult_le_mono2) simp
  finally show ?case by simp
qed

definition enc64 :: "64 word \<Rightarrow> char list" where
  "enc64 w = le_bytes 8 (unat w)"

definition dec64 :: "char list \<Rightarrow> 64 word" where
  "dec64 bs = word_of_nat (le_value bs)"

definition enc32 :: "32 word \<Rightarrow> char list" where
  "enc32 w = le_bytes 4 (unat w)"

definition dec32 :: "char list \<Rightarrow> 32 word" where
  "dec32 bs = word_of_nat (le_value bs)"

lemma le_value_zeros [simp]: "le_value (replicate n NUL) = 0"
  by (induction n) simp_all

lemma dec64_zeros: "dec64 (replicate n NUL) = 0"
  by (simp add: dec64_def)

lemma length_enc64 [simp]: "length (enc64 w) = 8"
  by (simp add: enc64_def)

lemma length_enc32 [simp]: "length (enc32 w) = 4"
  by (simp add: enc32_def)

lemma dec64_enc64 [simp]: "dec64 (enc64 w) = w"
proof -
  have "unat w < 256 ^ 8"
    using unsigned_less [of w] by simp
  then show ?thesis
    by (simp add: dec64_def enc64_def le_value_bytes)
qed

lemma dec32_enc32 [simp]: "dec32 (enc32 w) = w"
proof -
  have "unat w < 256 ^ 4"
    using unsigned_less [of w] by simp
  then show ?thesis
    by (simp add: dec32_def enc32_def le_value_bytes)
qed

lemma enc64_dec64: "length bs = 8 \<Longrightarrow> enc64 (dec64 bs) = bs"
  using le_value_less [of bs] le_bytes_value [of bs]
  by (simp add: dec64_def enc64_def unat_of_nat)

lemma enc32_dec32: "length bs = 4 \<Longrightarrow> enc32 (dec32 bs) = bs"
  using le_value_less [of bs] le_bytes_value [of bs]
  by (simp add: dec32_def enc32_def unat_of_nat)

section \<open>Interface: objects with a byte image\<close>

text \<open>
  What a component relies on when it copies an object to a byte buffer and back
  (\<open>memcpy\<close> of a struct, a status word on the wire): a fixed width and the two
  round trips. \<open>overlay\<close> is the object after the first bytes of its image have been
  overwritten, which is what a short \<open>memcpy\<close> or a short read leaves.
\<close>

locale byte_codec =
  fixes enc :: "'a \<Rightarrow> char list"
    and dec :: "char list \<Rightarrow> 'a"
    and width :: nat
    and valid :: "'a \<Rightarrow> bool"
  assumes length_enc: "valid x \<Longrightarrow> length (enc x) = width"
    and dec_enc: "valid x \<Longrightarrow> dec (enc x) = x"
    and enc_dec: "length bs = width \<Longrightarrow> enc (dec bs) = bs"
    and valid_dec: "length bs = width \<Longrightarrow> valid (dec bs)"
begin

lemma enc_inject: "valid x \<Longrightarrow> valid y \<Longrightarrow> enc x = enc y \<longleftrightarrow> x = y"
  by (metis dec_enc)

lemma overlay_full: "valid x \<Longrightarrow> length bs = width \<Longrightarrow> dec (bs @ drop (length bs) (enc x)) = dec bs"
  by (simp add: length_enc)

lemma overlay_none: "valid x \<Longrightarrow> dec ([] @ drop (length []) (enc x)) = x"
  by (simp add: dec_enc)

lemma overlay_bytes:
  "valid x \<Longrightarrow> length bs \<le> width \<Longrightarrow>
     enc (dec (bs @ drop (length bs) (enc x))) = bs @ drop (length bs) (enc x)"
  by (rule enc_dec) (simp add: length_enc)

lemma overlay_valid:
  "valid x \<Longrightarrow> length bs \<le> width \<Longrightarrow> valid (dec (bs @ drop (length bs) (enc x)))"
  by (rule valid_dec) (simp add: length_enc)

lemma overlay_enc:
  "valid x \<Longrightarrow> valid y \<Longrightarrow> dec (enc y @ drop (length (enc y)) (enc x)) = y"
  by (simp add: length_enc dec_enc)

end

interpretation w64: byte_codec enc64 dec64 8 "\<lambda>_. True"
  by unfold_locales (simp_all add: enc64_dec64)

interpretation w32: byte_codec enc32 dec32 4 "\<lambda>_. True"
  by unfold_locales (simp_all add: enc32_dec32)

section \<open>Interface: a system of steps with an invariant\<close>

text \<open>
  The contract between a component's operations and its invariant: the initial states
  satisfy it and every step keeps it. What follows holds in every state a sequence of
  steps reaches.
\<close>

locale transition_system =
  fixes init :: "'s \<Rightarrow> bool"
    and step :: "'s \<Rightarrow> 's \<Rightarrow> bool"
    and inv :: "'s \<Rightarrow> bool"
  assumes init_inv: "init s \<Longrightarrow> inv s"
    and step_inv: "inv s \<Longrightarrow> step s t \<Longrightarrow> inv t"
begin

lemma steps_inv: "step\<^sup>*\<^sup>* s t \<Longrightarrow> inv s \<Longrightarrow> inv t"
  by (induction rule: rtranclp_induct) (auto intro: step_inv)

lemma reach_inv: "init s \<Longrightarrow> step\<^sup>*\<^sup>* s t \<Longrightarrow> inv t"
  by (blast intro: steps_inv init_inv)

end

text \<open>
  A system that does, seen through \<open>abs\<close>, what an abstract one allows: each of its steps is
  a step of the abstract system or cannot be seen there.
\<close>

locale simulation = transition_system init step inv
  for init :: "'s \<Rightarrow> bool" and step :: "'s \<Rightarrow> 's \<Rightarrow> bool" and inv :: "'s \<Rightarrow> bool" +
  fixes abs :: "'s \<Rightarrow> 'a"
    and astep :: "'a \<Rightarrow> 'a \<Rightarrow> bool"
  assumes simulates: "inv s \<Longrightarrow> step s t \<Longrightarrow> abs t = abs s \<or> astep (abs s) (abs t)"
begin

lemma run_simulated:
  assumes "init s" and "step\<^sup>*\<^sup>* s t"
  shows "astep\<^sup>*\<^sup>* (abs s) (abs t)"
  using assms(2)
proof (induction rule: rtranclp_induct)
  case base
  show ?case by simp
next
  case (step t u)
  have "inv t"
    using reach_inv [OF assms(1) step.hyps(1)] .
  then show ?case
    using simulates [OF _ step.hyps(2)] step.IH by (auto intro: rtranclp.rtrancl_into_rtrancl)
qed

end

text \<open>
  A system that, besides, decreases a measure with every step and is stuck only where
  it should be: every state leads to a final one, whichever steps are taken.
\<close>

locale terminating_system = transition_system init step inv
  for init :: "'s \<Rightarrow> bool" and step :: "'s \<Rightarrow> 's \<Rightarrow> bool" and inv :: "'s \<Rightarrow> bool" +
  fixes rank :: "'s \<Rightarrow> nat"
    and final :: "'s \<Rightarrow> bool"
  assumes rank_step: "inv s \<Longrightarrow> step s t \<Longrightarrow> rank t < rank s"
    and progress: "inv s \<Longrightarrow> \<not> final s \<Longrightarrow> \<exists>t. step s t"
begin

lemma reaches_final: "inv s \<Longrightarrow> \<exists>t. step\<^sup>*\<^sup>* s t \<and> final t"
proof (induction "rank s" arbitrary: s rule: less_induct)
  case less
  show ?case
  proof (cases "final s")
    case True
    then show ?thesis by blast
  next
    case False
    with less.prems obtain t where t: "step s t"
      using progress by blast
    with less.prems have "rank t < rank s" and "inv t"
      by (auto intro: rank_step step_inv)
    then obtain u where "step\<^sup>*\<^sup>* t u" and "final u"
      using less.hyps by blast
    with t show ?thesis
      by (meson converse_rtranclp_into_rtranclp)
  qed
qed

lemma stuck_final: "inv s \<Longrightarrow> (\<And>t. \<not> step s t) \<Longrightarrow> final s"
  using progress by blast

lemma run_length: "inv s \<Longrightarrow> (step ^^ n) s t \<Longrightarrow> n + rank t \<le> rank s"
proof (induction n arbitrary: t)
  case 0
  then show ?case by simp
next
  case (Suc n)
  then obtain u where u: "(step ^^ n) s u" and ut: "step u t"
    by auto
  from u have "step\<^sup>*\<^sup>* s u"
    by (rule relpowp_imp_rtranclp)
  with Suc.prems(1) have "inv u"
    by (blast intro: steps_inv)
  with ut have "rank t < rank u"
    by (rule rank_step [rotated])
  moreover have "n + rank u \<le> rank s"
    using Suc.IH [OF Suc.prems(1) u] .
  ultimately show ?case by simp
qed

end

end
