(* ===== verification/World.thy ===== *)
theory World
  imports CLib
begin

text \<open>
  The part of the machine the transfer programs act on: the files of the disk, the
  standard I/O streams, the heap blocks in use and the log calls made so far
  (\<open>simplog.writeLog\<close>; what such a call does is the subject of the simplog theories).

  A stream opened for reading is the list of the bytes \<open>fread\<close> has still to deliver.
  A stream opened for writing is named by its path: bytes go to the file as they are
  written, up to the room the disk has, so a full disk is a short \<open>fwrite\<close>.
\<close>

section \<open>Log calls\<close>

text \<open>One constructor for each message the workers and the callbacks log, in the order of the
  sources.\<close>

datatype log_event =
    WriteFileError | ContentIncorrect | DigestByte nat char char
  | BindEvents | RecvSize nat | RecvInfo string "64 word" | RecvFile
  | PrepareWrite | WriteResult int | TransferError | WriteDone
  | SrvConnected nat | SrvConnError | Disconnected nat | ServerExit
  | RequestLine string | SendInfo
  | SentInfo string "64 word" | CheckSize nat | SendFile | FileLength nat
  | CliConnected nat | CliConnError | ConnClosed

section \<open>The world\<close>

record world =
  files :: "string \<Rightarrow> char list option"
  creatable :: "string \<Rightarrow> bool"
  room :: nat
  streams :: nat
  blocks :: nat
  logs :: "log_event list"

definition log :: "log_event \<Rightarrow> world \<Rightarrow> world" where
  "log e w = w\<lparr>logs := logs w @ [e]\<rparr>"

text \<open>\<open>malloc\<close> of one block, which succeeds or not, and \<open>free\<close>.\<close>

definition alloc :: "world \<Rightarrow> world" where
  "alloc w = w\<lparr>blocks := Suc (blocks w)\<rparr>"

definition release :: "world \<Rightarrow> world" where
  "release w = w\<lparr>blocks := blocks w - 1\<rparr>"

text \<open>Whether the system has a thread and a block of memory to give to a handler.\<close>

record resources =
  can_thread :: bool
  can_alloc :: bool

section \<open>Standard I/O\<close>

definition BUFSIZ :: nat where
  "BUFSIZ = 8192"

definition fopen_rb :: "world \<Rightarrow> string \<Rightarrow> (char list \<times> world) option" where
  "fopen_rb w path =
     (case files w path of
        None \<Rightarrow> None
      | Some bs \<Rightarrow> Some (bs, w\<lparr>streams := Suc (streams w)\<rparr>))"

definition fread :: "char list \<Rightarrow> nat \<Rightarrow> char list \<times> char list" where
  "fread st n = (take n st, drop n st)"

definition file_bytes :: "world \<Rightarrow> string \<Rightarrow> char list" where
  "file_bytes w path = (case files w path of None \<Rightarrow> [] | Some bs \<Rightarrow> bs)"

text \<open>Opening for writing truncates the file, which gives its room back.\<close>

definition fopen_wb :: "world \<Rightarrow> string \<Rightarrow> world option" where
  "fopen_wb w path =
     (if creatable w path
      then Some (w\<lparr>files := (files w)(path \<mapsto> []),
                   room := room w + length (file_bytes w path),
                   streams := Suc (streams w)\<rparr>)
      else None)"

definition fwrite :: "world \<Rightarrow> string \<Rightarrow> char list \<Rightarrow> nat \<times> world" where
  "fwrite w path d =
     (let k = min (length d) (room w)
      in (k, w\<lparr>files := (files w)(path \<mapsto> file_bytes w path @ take k d),
               room := room w - k\<rparr>))"

definition fclose :: "world \<Rightarrow> world" where
  "fclose w = w\<lparr>streams := streams w - 1\<rparr>"

lemma log_simps [simp]:
  "files (log e w) = files w" "creatable (log e w) = creatable w" "room (log e w) = room w"
  "streams (log e w) = streams w" "blocks (log e w) = blocks w" "logs (log e w) = logs w @ [e]"
  by (simp_all add: log_def)

lemma alloc_simps [simp]:
  "files (alloc w) = files w" "creatable (alloc w) = creatable w" "room (alloc w) = room w"
  "streams (alloc w) = streams w" "blocks (alloc w) = Suc (blocks w)" "logs (alloc w) = logs w"
  by (simp_all add: alloc_def)

lemma release_simps [simp]:
  "files (release w) = files w" "creatable (release w) = creatable w"
  "room (release w) = room w" "streams (release w) = streams w"
  "blocks (release w) = blocks w - 1" "logs (release w) = logs w"
  by (simp_all add: release_def)

lemma fclose_simps [simp]:
  "files (fclose w) = files w" "creatable (fclose w) = creatable w" "room (fclose w) = room w"
  "streams (fclose w) = streams w - 1" "blocks (fclose w) = blocks w"
  "logs (fclose w) = logs w"
  by (simp_all add: fclose_def)

lemma fwrite_frame [simp]:
  "creatable (snd (fwrite w p d)) = creatable w" "streams (snd (fwrite w p d)) = streams w"
  "blocks (snd (fwrite w p d)) = blocks w" "logs (snd (fwrite w p d)) = logs w"
  by (simp_all add: fwrite_def Let_def)

lemma fwrite_other: "q \<noteq> p \<Longrightarrow> files (snd (fwrite w p d)) q = files w q"
  by (simp add: fwrite_def Let_def)

lemma fwrite_room:
  "length d \<le> room w \<Longrightarrow> fwrite w p d =
     (length d, w\<lparr>files := (files w)(p \<mapsto> file_bytes w p @ d), room := room w - length d\<rparr>)"
  by (simp add: fwrite_def Let_def)

lemma fwrite_count_le: "fst (fwrite w p d) \<le> length d"
  by (simp add: fwrite_def Let_def)

section \<open>The disk\<close>

text \<open>What is left of a world without its log, its streams and its heap; and what it is to
  replace a file as a whole.\<close>

record disk =
  d_files :: "string \<Rightarrow> char list option"
  d_creatable :: "string \<Rightarrow> bool"
  d_room :: nat

definition disk_of :: "world \<Rightarrow> disk" where
  "disk_of w = \<lparr>d_files = files w, d_creatable = creatable w, d_room = room w\<rparr>"

definition d_room_for :: "disk \<Rightarrow> string \<Rightarrow> nat" where
  "d_room_for d path = d_room d + (case d_files d path of None \<Rightarrow> 0 | Some bs \<Rightarrow> length bs)"

definition store_file :: "string \<Rightarrow> char list \<Rightarrow> disk \<Rightarrow> disk" where
  "store_file path bs d = d\<lparr>d_files := (d_files d)(path \<mapsto> bs), d_room := d_room_for d path - length bs\<rparr>"

lemma disk_of_simps [simp]:
  "d_files (disk_of w) = files w" "d_creatable (disk_of w) = creatable w" "d_room (disk_of w) = room w"
  by (simp_all add: disk_of_def)

lemma disk_of_frame [simp]:
  "disk_of (log e w) = disk_of w" "disk_of (alloc w) = disk_of w" "disk_of (release w) = disk_of w"
  "disk_of (fclose w) = disk_of w"
  by (simp_all add: disk_of_def)

lemma disk_of_eqI:
  "files w = files v \<Longrightarrow> creatable w = creatable v \<Longrightarrow> room w = room v \<Longrightarrow> disk_of w = disk_of v"
  by (simp add: disk_of_def)

section \<open>Interface: a source of bytes read a buffer at a time\<close>

text \<open>
  Both copy loops of the code read up to a buffer's worth of bytes at a time until a read
  returns nothing. What they rely on: a read delivers the front of what is left.
\<close>

locale byte_source =
  fixes pull :: "'s \<Rightarrow> char list \<times> 's"
    and left :: "'s \<Rightarrow> char list"
    and cap :: nat
  assumes cap_pos: "0 < cap"
    and pull_front: "fst (pull s) = take cap (left s)"
    and pull_rest: "left (snd (pull s)) = drop cap (left s)"
begin

lemma pull_empty: "fst (pull s) = [] \<longleftrightarrow> left s = []"
  using cap_pos by (simp add: pull_front)

lemma pull_split: "fst (pull s) @ left (snd (pull s)) = left s"
  by (simp add: pull_front pull_rest)

lemma pull_shorter: "left s \<noteq> [] \<Longrightarrow> length (left (snd (pull s))) < length (left s)"
  using cap_pos by (simp add: pull_rest)

lemma pull_cap: "length (fst (pull s)) \<le> cap"
  by (simp add: pull_front)

lemma pull_induct [consumes 0, case_names empty step]:
  assumes "\<And>s. left s = [] \<Longrightarrow> P s"
    and "\<And>s. left s \<noteq> [] \<Longrightarrow> P (snd (pull s)) \<Longrightarrow> P s"
  shows "P s"
proof (induction "length (left s)" arbitrary: s rule: less_induct)
  case less
  show ?case
  proof (cases "left s = []")
    case True
    then show ?thesis by (rule assms(1))
  next
    case False
    then have "P (snd (pull s))"
      by (rule less [OF pull_shorter])
    with False show ?thesis
      by (rule assms(2))
  qed
qed

end

lemma BUFSIZ_pos [simp]: "0 < BUFSIZ"
  by (simp add: BUFSIZ_def)

interpretation stdio: byte_source "\<lambda>st. fread st BUFSIZ" "\<lambda>st. st" BUFSIZ
  by unfold_locales (simp_all add: fread_def)

end
