(* ===== verification/Libevent.thy ===== *)
theory Libevent
  imports CLib
begin

text \<open>
  libevent is not part of this repository, so its calls are parameters: a record of the
  operations the programs use on evbuffers (\<open>'e\<close>) and bufferevents (\<open>'b\<close>), which every
  definition that calls libevent takes as an argument. \<open>libevent_ok\<close> is what its
  documentation promises of them and the programs rely on: an evbuffer is a queue of
  bytes, a bufferevent has an input and an output evbuffer that the event loop fills
  from and empties to the socket. \<open>bev_get_input\<close> returns a pointer into the
  bufferevent, so what is done through it is put back with \<open>bev_put_input\<close>.
  \<open>bev_receive\<close> and \<open>bev_send\<close> are the event loop's own transfers.
\<close>

datatype ev_flag = EV_READ | EV_WRITE | EV_PERSIST

datatype bev_event = BEV_EVENT_EOF | BEV_EVENT_ERROR | BEV_EVENT_CONNECTED
  | BEV_EVENT_TIMEOUT | BEV_EVENT_READING | BEV_EVENT_WRITING

datatype callback = No_cb | Read_cb | Read_buffered_cb | Event_cb

record ('e, 'b) libevent =
  ev_new :: "'e"
  ev_add :: "'e \<Rightarrow> char list \<Rightarrow> 'e"
  ev_remove :: "'e \<Rightarrow> nat \<Rightarrow> char list option \<times> 'e"
  ev_length :: "'e \<Rightarrow> nat"
  bev_socket_new :: "int \<Rightarrow> 'b option"
  bev_setcb :: "'b \<Rightarrow> callback \<Rightarrow> callback \<Rightarrow> callback \<Rightarrow> 'b"
  bev_enable :: "'b \<Rightarrow> ev_flag list \<Rightarrow> 'b"
  bev_disable :: "'b \<Rightarrow> ev_flag list \<Rightarrow> 'b"
  bev_read :: "'b \<Rightarrow> nat \<Rightarrow> char list \<times> 'b"
  bev_write :: "'b \<Rightarrow> char list \<Rightarrow> 'b"
  bev_write_buffer :: "'b \<Rightarrow> 'e \<Rightarrow> 'b \<times> 'e"
  bev_get_input :: "'b \<Rightarrow> 'e"
  bev_put_input :: "'b \<Rightarrow> 'e \<Rightarrow> 'b"
  bev_get_output :: "'b \<Rightarrow> 'e"
  bev_enabled :: "'b \<Rightarrow> ev_flag \<Rightarrow> bool"
  bev_receive :: "'b \<Rightarrow> char list \<Rightarrow> 'b"
  bev_send :: "'b \<Rightarrow> nat \<Rightarrow> char list \<times> 'b"

text \<open>The bytes of an evbuffer are what removing all of it delivers.\<close>

definition ev_bytes :: "('e, 'b) libevent \<Rightarrow> 'e \<Rightarrow> char list" where
  "ev_bytes L e = (case fst (ev_remove L e (ev_length L e)) of None \<Rightarrow> [] | Some bs \<Rightarrow> bs)"

definition in_bytes :: "('e, 'b) libevent \<Rightarrow> 'b \<Rightarrow> char list" where
  "in_bytes L b = ev_bytes L (bev_get_input L b)"

definition out_bytes :: "('e, 'b) libevent \<Rightarrow> 'b \<Rightarrow> char list" where
  "out_bytes L b = ev_bytes L (bev_get_output L b)"

definition evbuffer_ok :: "('e, 'b) libevent \<Rightarrow> bool" where
  "evbuffer_ok L \<longleftrightarrow>
     ev_bytes L (ev_new L) = []
   \<and> (\<forall>e d. ev_bytes L (ev_add L e d) = ev_bytes L e @ d)
   \<and> (\<forall>e. ev_length L e = length (ev_bytes L e))
   \<and> (\<forall>e n. fst (ev_remove L e n) = Some (take n (ev_bytes L e))
            \<and> ev_bytes L (snd (ev_remove L e n)) = drop n (ev_bytes L e))"

definition bufferevent_io_ok :: "('e, 'b) libevent \<Rightarrow> bool" where
  "bufferevent_io_ok L \<longleftrightarrow>
     (\<forall>b n. fst (bev_read L b n) = take n (in_bytes L b)
          \<and> in_bytes L (snd (bev_read L b n)) = drop n (in_bytes L b)
          \<and> out_bytes L (snd (bev_read L b n)) = out_bytes L b)
   \<and> (\<forall>b d. in_bytes L (bev_write L b d) = in_bytes L b
          \<and> out_bytes L (bev_write L b d) = out_bytes L b @ d)
   \<and> (\<forall>b e. in_bytes L (fst (bev_write_buffer L b e)) = in_bytes L b
          \<and> out_bytes L (fst (bev_write_buffer L b e)) = out_bytes L b @ ev_bytes L e
          \<and> ev_bytes L (snd (bev_write_buffer L b e)) = [])
   \<and> (\<forall>b e. in_bytes L (bev_put_input L b e) = ev_bytes L e
          \<and> out_bytes L (bev_put_input L b e) = out_bytes L b)
   \<and> (\<forall>b d. in_bytes L (bev_receive L b d) = in_bytes L b @ d
          \<and> out_bytes L (bev_receive L b d) = out_bytes L b)
   \<and> (\<forall>b n. fst (bev_send L b n) = take n (out_bytes L b)
          \<and> out_bytes L (snd (bev_send L b n)) = drop n (out_bytes L b)
          \<and> in_bytes L (snd (bev_send L b n)) = in_bytes L b)"

definition bufferevent_setup_ok :: "('e, 'b) libevent \<Rightarrow> bool" where
  "bufferevent_setup_ok L \<longleftrightarrow>
     (\<forall>fd b. bev_socket_new L fd = Some b \<longrightarrow> in_bytes L b = [] \<and> out_bytes L b = [])
   \<and> (\<forall>b r w e. in_bytes L (bev_setcb L b r w e) = in_bytes L b
          \<and> out_bytes L (bev_setcb L b r w e) = out_bytes L b)
   \<and> (\<forall>b fs. in_bytes L (bev_enable L b fs) = in_bytes L b
          \<and> out_bytes L (bev_enable L b fs) = out_bytes L b)
   \<and> (\<forall>b fs. in_bytes L (bev_disable L b fs) = in_bytes L b
          \<and> out_bytes L (bev_disable L b fs) = out_bytes L b)"

text \<open>Which events are enabled: set by enable and disable only.\<close>

definition bufferevent_flags_ok :: "('e, 'b) libevent \<Rightarrow> bool" where
  "bufferevent_flags_ok L \<longleftrightarrow>
     (\<forall>b fs f. bev_enabled L (bev_enable L b fs) f \<longleftrightarrow> f \<in> set fs \<or> bev_enabled L b f)
   \<and> (\<forall>b fs f. bev_enabled L (bev_disable L b fs) f \<longleftrightarrow> f \<notin> set fs \<and> bev_enabled L b f)
   \<and> (\<forall>b n. bev_enabled L (snd (bev_read L b n)) = bev_enabled L b)
   \<and> (\<forall>b d. bev_enabled L (bev_write L b d) = bev_enabled L b)
   \<and> (\<forall>b e. bev_enabled L (fst (bev_write_buffer L b e)) = bev_enabled L b)
   \<and> (\<forall>b e. bev_enabled L (bev_put_input L b e) = bev_enabled L b)
   \<and> (\<forall>b d. bev_enabled L (bev_receive L b d) = bev_enabled L b)
   \<and> (\<forall>b n. bev_enabled L (snd (bev_send L b n)) = bev_enabled L b)"

definition libevent_ok :: "('e, 'b) libevent \<Rightarrow> bool" where
  "libevent_ok L \<longleftrightarrow>
     evbuffer_ok L \<and> bufferevent_io_ok L \<and> bufferevent_setup_ok L \<and> bufferevent_flags_ok L"

lemma libevent_evbuffer: "libevent_ok L \<Longrightarrow> evbuffer_ok L"
  by (simp add: libevent_ok_def)

lemma evbuffer_laws:
  assumes "evbuffer_ok L"
  shows "ev_bytes L (ev_new L) = []"
    and "ev_bytes L (ev_add L e d) = ev_bytes L e @ d"
    and "ev_length L e = length (ev_bytes L e)"
    and "fst (ev_remove L e n) = Some (take n (ev_bytes L e))"
    and "ev_bytes L (snd (ev_remove L e n)) = drop n (ev_bytes L e)"
  using assms by (simp_all add: evbuffer_ok_def)

lemma bufferevent_io_laws:
  assumes "libevent_ok L"
  shows "fst (bev_read L b n) = take n (in_bytes L b)"
    and "in_bytes L (snd (bev_read L b n)) = drop n (in_bytes L b)"
    and "out_bytes L (snd (bev_read L b n)) = out_bytes L b"
    and "in_bytes L (bev_write L b d) = in_bytes L b"
    and "out_bytes L (bev_write L b d) = out_bytes L b @ d"
    and "in_bytes L (fst (bev_write_buffer L b e)) = in_bytes L b"
    and "out_bytes L (fst (bev_write_buffer L b e)) = out_bytes L b @ ev_bytes L e"
    and "ev_bytes L (snd (bev_write_buffer L b e)) = []"
    and "in_bytes L (bev_put_input L b e) = ev_bytes L e"
    and "out_bytes L (bev_put_input L b e) = out_bytes L b"
    and "in_bytes L (bev_receive L b d) = in_bytes L b @ d"
    and "out_bytes L (bev_receive L b d) = out_bytes L b"
    and "fst (bev_send L b n) = take n (out_bytes L b)"
    and "out_bytes L (snd (bev_send L b n)) = drop n (out_bytes L b)"
    and "in_bytes L (snd (bev_send L b n)) = in_bytes L b"
  using assms by (simp_all add: libevent_ok_def bufferevent_io_ok_def)

lemma bufferevent_setup_laws:
  assumes "libevent_ok L"
  shows "bev_socket_new L fd = Some b \<Longrightarrow> in_bytes L b = []"
    and "bev_socket_new L fd = Some b \<Longrightarrow> out_bytes L b = []"
    and "in_bytes L (bev_setcb L b r w e) = in_bytes L b"
    and "out_bytes L (bev_setcb L b r w e) = out_bytes L b"
    and "in_bytes L (bev_enable L b fs) = in_bytes L b"
    and "out_bytes L (bev_enable L b fs) = out_bytes L b"
    and "in_bytes L (bev_disable L b fs) = in_bytes L b"
    and "out_bytes L (bev_disable L b fs) = out_bytes L b"
  using assms by (auto simp add: libevent_ok_def bufferevent_setup_ok_def)

lemma bufferevent_flags_laws:
  assumes "libevent_ok L"
  shows "bev_enabled L (bev_enable L b fs) f \<longleftrightarrow> f \<in> set fs \<or> bev_enabled L b f"
    and "bev_enabled L (bev_disable L b fs) f \<longleftrightarrow> f \<notin> set fs \<and> bev_enabled L b f"
    and "bev_enabled L (snd (bev_read L b n)) = bev_enabled L b"
    and "bev_enabled L (bev_write L b d) = bev_enabled L b"
    and "bev_enabled L (fst (bev_write_buffer L b e')) = bev_enabled L b"
    and "bev_enabled L (bev_put_input L b e') = bev_enabled L b"
    and "bev_enabled L (bev_receive L b d) = bev_enabled L b"
    and "bev_enabled L (snd (bev_send L b n)) = bev_enabled L b"
  using assms by (simp_all add: libevent_ok_def bufferevent_flags_ok_def)

section \<open>An instance\<close>

text \<open>
  The hypotheses can hold together: evbuffers as lists, bufferevents as two lists and
  the enabled events. The witnesses of the properties run on it.
\<close>

record list_bev =
  lb_in :: "char list"
  lb_out :: "char list"
  lb_flags :: "ev_flag list"

definition list_libevent :: "(char list, list_bev) libevent" where
  "list_libevent = \<lparr>
     ev_new = [],
     ev_add = (\<lambda>e d. e @ d),
     ev_remove = (\<lambda>e n. (Some (take n e), drop n e)),
     ev_length = length,
     bev_socket_new = (\<lambda>fd. Some \<lparr>lb_in = [], lb_out = [], lb_flags = [EV_WRITE]\<rparr>),
     bev_setcb = (\<lambda>b r w e. b),
     bev_enable = (\<lambda>b fs. b\<lparr>lb_flags := fs @ lb_flags b\<rparr>),
     bev_disable = (\<lambda>b fs. b\<lparr>lb_flags := filter (\<lambda>f. f \<notin> set fs) (lb_flags b)\<rparr>),
     bev_read = (\<lambda>b n. (take n (lb_in b), b\<lparr>lb_in := drop n (lb_in b)\<rparr>)),
     bev_write = (\<lambda>b d. b\<lparr>lb_out := lb_out b @ d\<rparr>),
     bev_write_buffer = (\<lambda>b e. (b\<lparr>lb_out := lb_out b @ e\<rparr>, [])),
     bev_get_input = lb_in,
     bev_put_input = (\<lambda>b e. b\<lparr>lb_in := e\<rparr>),
     bev_get_output = lb_out,
     bev_enabled = (\<lambda>b f. f \<in> set (lb_flags b)),
     bev_receive = (\<lambda>b d. b\<lparr>lb_in := lb_in b @ d\<rparr>),
     bev_send = (\<lambda>b n. (take n (lb_out b), b\<lparr>lb_out := drop n (lb_out b)\<rparr>))\<rparr>"

lemma list_ev_bytes [simp]: "ev_bytes list_libevent e = e"
  by (simp add: ev_bytes_def list_libevent_def)

lemma list_in_bytes [simp]: "in_bytes list_libevent b = lb_in b"
  by (simp add: in_bytes_def) (simp add: list_libevent_def)

lemma list_out_bytes [simp]: "out_bytes list_libevent b = lb_out b"
  by (simp add: out_bytes_def) (simp add: list_libevent_def)

lemma list_libevent_ok: "libevent_ok list_libevent"
  unfolding libevent_ok_def evbuffer_ok_def bufferevent_io_ok_def bufferevent_setup_ok_def
    bufferevent_flags_ok_def list_ev_bytes list_in_bytes list_out_bytes
  by (auto simp: list_libevent_def)

end
