(* ===== verification/FileInfo.thy ===== *)
theory FileInfo
  imports World
begin

text \<open>
  \<^verbatim>\<open>c/fileinfo.h\<close> and \<^verbatim>\<open>c/fileinfo.c\<close>: the file header, its byte image on the wire
  (\<open>encode\<close>, \<open>decode\<close>) and the digest check (\<open>calc_md5\<close>, \<open>is_data_correct\<close>).

  OpenSSL's MD5 is not part of this repository: the three calls the code uses are a
  parameter. \<open>md5_ok\<close> is what their documentation promises: feeding a message in
  pieces gives the digest of the whole, and a digest has \<open>MD5_DIGEST_LENGTH\<close> bytes.
\<close>

section \<open>MD5\<close>

record 'c md5 =
  md5_init :: "'c"
  md5_update :: "'c \<Rightarrow> char list \<Rightarrow> 'c"
  md5_final :: "'c \<Rightarrow> char list"

definition MD5_DIGEST_LENGTH :: nat where
  "MD5_DIGEST_LENGTH = 16"

definition md5_of :: "'c md5 \<Rightarrow> char list \<Rightarrow> char list" where
  "md5_of M bs = md5_final M (md5_update M (md5_init M) bs)"

definition md5_ok :: "'c md5 \<Rightarrow> bool" where
  "md5_ok M \<longleftrightarrow>
     (\<forall>ds. md5_final M (foldl (md5_update M) (md5_init M) ds) = md5_of M (concat ds))
   \<and> (\<forall>c. length (md5_final M c) = MD5_DIGEST_LENGTH)"

lemma md5_pieces:
  "md5_ok M \<Longrightarrow> md5_final M (foldl (md5_update M) (md5_init M) ds) = md5_of M (concat ds)"
  by (simp add: md5_ok_def)

lemma length_md5: "md5_ok M \<Longrightarrow> length (md5_final M c) = MD5_DIGEST_LENGTH"
  by (simp add: md5_ok_def)

lemma length_md5_of: "md5_ok M \<Longrightarrow> length (md5_of M bs) = 16"
  by (simp add: md5_of_def length_md5 MD5_DIGEST_LENGTH_def)

text \<open>An instance for the witnesses: the first 16 bytes of the message, zero padded.\<close>

definition head_md5 :: "char list md5" where
  "head_md5 = \<lparr>md5_init = [], md5_update = (\<lambda>c bs. c @ bs),
     md5_final = (\<lambda>c. take 16 (c @ replicate 16 NUL))\<rparr>"

lemma head_md5_ok: "md5_ok head_md5"
proof -
  have "foldl (@) c ds = c @ concat ds" for c :: "char list" and ds
    by (induction ds arbitrary: c) simp_all
  then show ?thesis
    by (auto simp: md5_ok_def md5_of_def head_md5_def MD5_DIGEST_LENGTH_def min_def)
qed

lemma head_md5_nonzero: "c \<noteq> NUL \<Longrightarrow> replicate 16 NUL \<noteq> md5_of head_md5 (c # bs)"
proof
  assume "c \<noteq> NUL" and "replicate 16 NUL = md5_of head_md5 (c # bs)"
  then have "replicate 16 NUL ! 0 = md5_of head_md5 (c # bs) ! 0"
    by simp
  with \<open>c \<noteq> NUL\<close> show False
    by (simp add: md5_of_def head_md5_def)
qed

section \<open>The file header\<close>

definition MAXLEN :: nat where
  "MAXLEN = 256"

record fileinfo =
  fi_name :: "char list"
  fi_size :: "64 word"
  fi_info :: "char list"

definition wf_fileinfo :: "fileinfo \<Rightarrow> bool" where
  "wf_fileinfo f \<longleftrightarrow> length (fi_name f) = MAXLEN \<and> length (fi_info f) = MD5_DIGEST_LENGTH"

text \<open>
  The object in memory: the name, the size at offset 256 and the digest at offset 264,
  280 bytes with no padding (LP64).
\<close>

definition sizeof_fileinfo :: nat where
  "sizeof_fileinfo = 280"

definition image :: "fileinfo \<Rightarrow> char list" where
  "image f = fi_name f @ enc64 (fi_size f) @ fi_info f"

definition of_image :: "char list \<Rightarrow> fileinfo" where
  "of_image bs = \<lparr>fi_name = take 256 bs, fi_size = dec64 (take 8 (drop 256 bs)),
     fi_info = drop 264 bs\<rparr>"

lemmas fileinfo_sizes = MAXLEN_def MD5_DIGEST_LENGTH_def sizeof_fileinfo_def

lemma length_image: "wf_fileinfo f \<Longrightarrow> length (image f) = sizeof_fileinfo"
  by (simp add: image_def wf_fileinfo_def fileinfo_sizes)

lemma of_image_image: "wf_fileinfo f \<Longrightarrow> of_image (image f) = f"
  by (simp add: image_def of_image_def wf_fileinfo_def fileinfo_sizes)

lemma image_of_image:
  assumes "length bs = sizeof_fileinfo"
  shows "image (of_image bs) = bs"
proof -
  have "enc64 (dec64 (take 8 (drop 256 bs))) = take 8 (drop 256 bs)"
    using assms by (intro enc64_dec64) (simp add: fileinfo_sizes)
  moreover have "take 8 (drop 256 bs) @ drop 264 bs = drop 256 bs"
    using append_take_drop_id [of 8 "drop 256 bs"] by simp
  ultimately show ?thesis
    by (simp add: image_def of_image_def)
qed

lemma wf_of_image: "length bs = sizeof_fileinfo \<Longrightarrow> wf_fileinfo (of_image bs)"
  by (simp add: of_image_def wf_fileinfo_def fileinfo_sizes)

interpretation header: byte_codec image of_image sizeof_fileinfo wf_fileinfo
  by unfold_locales (simp_all add: length_image of_image_image image_of_image wf_of_image)

section \<open>encode and decode\<close>

text \<open>
  Both are a \<open>memcpy\<close>. \<open>decode\<close> writes \<open>n\<close> bytes over the object, whatever \<open>n\<close> is:
  past its 280 bytes it leaves the object.
\<close>

definition decode :: "fileinfo \<Rightarrow> char list \<Rightarrow> nat \<Rightarrow> fileinfo result" where
  "decode finfo buf n = rbind (memcpy (image finfo) buf n) (\<lambda>bs. Inr (of_image bs))"

definition encode :: "char list \<Rightarrow> fileinfo \<Rightarrow> (nat \<times> char list) result" where
  "encode buf finfo =
     (let n = sizeof_fileinfo
      in rbind (memcpy buf (image finfo) n) (\<lambda>buf'. Inr (n, buf')))"

lemma decode_eq:
  assumes "wf_fileinfo finfo"
  shows "decode finfo buf n =
     (if n \<le> length buf \<and> n \<le> sizeof_fileinfo
      then Inr (of_image (take n buf @ drop n (image finfo)))
      else Inl OutOfBounds)"
  using length_image [OF assms] by (simp add: decode_def memcpy_def put_def)

lemma encode_eq:
  assumes "wf_fileinfo finfo"
  shows "encode buf finfo =
     (if sizeof_fileinfo \<le> length buf
      then Inr (sizeof_fileinfo, image finfo @ drop sizeof_fileinfo buf)
      else Inl OutOfBounds)"
  using length_image [OF assms] by (simp add: encode_def memcpy_def put_def)

lemma decode_wf:
  assumes "wf_fileinfo finfo" and "decode finfo buf n = Inr f"
  shows "wf_fileinfo f"
  using assms
  by (auto simp: decode_eq length_image split: if_splits intro!: wf_of_image)

lemma decode_image:
  assumes "wf_fileinfo f" and "wf_fileinfo g"
  shows "decode g (image f @ rest) sizeof_fileinfo = Inr f"
  using assms by (simp add: decode_eq length_image of_image_image)

section \<open>The digest check\<close>

text \<open>\<open>malloc\<close> may fail (\<open>mem\<close>), and then no digest is returned (\<open>NULL\<close>).\<close>

definition calc_md5 :: "'c md5 \<Rightarrow> char list \<Rightarrow> nat \<Rightarrow> bool \<Rightarrow> char list option result" where
  "calc_md5 M data n mem =
     (if length data < n then Inl OutOfBounds
      else let ctx = md5_update M (md5_init M) (take n data)
           in if \<not> mem then Inr None else Inr (Some (md5_final M ctx)))"

text \<open>
  \<open>while(test==NULL) test = calc_md5(data,n);\<close> where \<open>mem k\<close> says whether the \<open>k\<close>-th
  \<open>malloc\<close> succeeds. \<open>None\<close> is a loop that does not end.
\<close>

partial_function (option) digest_loop ::
  "'c md5 \<Rightarrow> char list \<Rightarrow> nat \<Rightarrow> (nat \<Rightarrow> bool) \<Rightarrow> nat \<Rightarrow> char list result option" where
  "digest_loop M data n mem k =
     (case calc_md5 M data n (mem k) of
        Inl e \<Rightarrow> Some (Inl e)
      | Inr test \<Rightarrow>
          (case test of
             None \<Rightarrow> digest_loop M data n mem (Suc k)
           | Some t \<Rightarrow> Some (Inr t)))"

text \<open>
  \<open>sizeof(test)\<close> is the size of the pointer \<open>test\<close>, 8 bytes, and not of the digest.
\<close>

definition sizeof_pointer :: nat where
  "sizeof_pointer = 8"

definition is_data_correct ::
  "'c md5 \<Rightarrow> fileinfo \<Rightarrow> char list \<Rightarrow> 64 word \<Rightarrow> (nat \<Rightarrow> bool) \<Rightarrow> int result option" where
  "is_data_correct M finfo data n mem =
     (if n \<noteq> fi_size finfo then Some (Inr 0)
      else map_option
             (\<lambda>r. rbind r (\<lambda>test.
                if \<not> mem_eq test (fi_info finfo) sizeof_pointer then Inr 0 else Inr 1))
             (digest_loop M data (unat n) mem 0))"

lemma digest_loop_fault:
  "length data < n \<Longrightarrow> digest_loop M data n mem k = Some (Inl OutOfBounds)"
  by (simp add: digest_loop.simps calc_md5_def)

lemma digest_loop_returns:
  assumes "n \<le> length data"
  shows "mem (k + j) \<Longrightarrow> digest_loop M data n mem k = Some (Inr (md5_of M (take n data)))"
proof (induction j arbitrary: k)
  case 0
  with assms show ?case
    by (simp add: digest_loop.simps calc_md5_def md5_of_def)
next
  case (Suc j)
  then have "digest_loop M data n mem (Suc k) = Some (Inr (md5_of M (take n data)))"
    by simp
  with assms show ?case
    by (subst digest_loop.simps) (simp add: calc_md5_def Let_def md5_of_def)
qed

lemma digest_loop_only_if:
  assumes "digest_loop M data n mem k = Some r" and "n \<le> length data"
  shows "\<exists>j. mem j"
proof -
  have "n \<le> length data \<longrightarrow> (\<exists>j. mem j)"
  proof (rule digest_loop.raw_induct
      [where P = "\<lambda>M data n mem k r. n \<le> length data \<longrightarrow> (\<exists>j. mem j)", OF _ assms(1)])
    fix f :: "'c md5 \<Rightarrow> char list \<Rightarrow> nat \<Rightarrow> (nat \<Rightarrow> bool) \<Rightarrow> nat \<Rightarrow> char list result option"
      and M :: "'c md5" and data :: "char list" and n :: nat and mem :: "nat \<Rightarrow> bool"
      and k :: nat and r :: "char list result"
    assume IH: "\<And>M data n mem k r. f M data n mem k = Some r \<Longrightarrow>
        n \<le> length data \<longrightarrow> (\<exists>j. mem j)"
      and eq: "(case calc_md5 M data n (mem k) of
          Inl e \<Rightarrow> Some (Inl e)
        | Inr test \<Rightarrow> (case test of None \<Rightarrow> f M data n mem (Suc k) | Some t \<Rightarrow> Some (Inr t)))
        = Some r"
    show "n \<le> length data \<longrightarrow> (\<exists>j. mem j)"
      using eq IH by (cases "mem k") (auto simp: calc_md5_def)
  qed
  with assms(2) show ?thesis by blast
qed

lemma is_data_correct_cases:
  assumes "unat (fi_size f) \<le> length data" and "mem k"
  shows "is_data_correct M f data n mem =
     Some (Inr (if n = fi_size f
                  \<and> take 8 (md5_of M (take (unat n) data)) = take 8 (fi_info f)
                then 1 else 0))"
proof (cases "n = fi_size f")
  case True
  with assms have "digest_loop M data (unat n) mem 0 = Some (Inr (md5_of M (take (unat n) data)))"
    by (intro digest_loop_returns [where j = k]) simp_all
  with True show ?thesis
    by (simp add: is_data_correct_def mem_eq_def sizeof_pointer_def)
next
  case False
  then show ?thesis
    by (simp add: is_data_correct_def)
qed

section \<open>Properties\<close>

text \<open>C25. Whatever the header holds and whatever the target object held before, decoding
  the 280 bytes \<open>encode\<close> writes gives the header back, and \<open>encode\<close> keeps the
  length of the buffer it writes to.\<close>

theorem encode_decode_roundtrip:
  assumes "wf_fileinfo f" and "wf_fileinfo g" and "sizeof_fileinfo \<le> length buf"
  shows "\<exists>buf'. encode buf f = Inr (sizeof_fileinfo, buf') \<and> length buf' = length buf
           \<and> decode g buf' sizeof_fileinfo = Inr f"
  using assms by (simp add: encode_eq decode_image length_image)

theorem encode_decode_roundtrip_witness:
  "\<exists>buf'. encode (replicate 300 NUL)
       \<lparr>fi_name = replicate 256 CHR ''a'', fi_size = 3, fi_info = replicate 16 CHR ''d''\<rparr>
       = Inr (sizeof_fileinfo, buf') \<and> length buf' = length (replicate 300 NUL)
     \<and> decode \<lparr>fi_name = replicate 256 NUL, fi_size = 0, fi_info = replicate 16 NUL\<rparr>
         buf' sizeof_fileinfo
       = Inr \<lparr>fi_name = replicate 256 CHR ''a'', fi_size = 3, fi_info = replicate 16 CHR ''d''\<rparr>"
  by (rule encode_decode_roundtrip) (simp_all add: wf_fileinfo_def fileinfo_sizes)

text \<open>\<open>decode\<close> trusts the length it is given: it stays inside both objects exactly
  when the length is at most that of the received bytes and at most the 280 bytes of
  the header; one byte more overwrites what lies behind it.\<close>

lemma decode_overflow_iff:
  assumes "wf_fileinfo g"
  shows "decode g buf n = Inl OutOfBounds \<longleftrightarrow> length buf < n \<or> 280 < n"
  using assms by (auto simp: decode_eq sizeof_fileinfo_def)

text \<open>A short header is accepted in silence: the first \<open>n\<close> bytes of the object are the
  received ones and the others are what the object held before.\<close>

lemma decode_short:
  assumes "wf_fileinfo g" and "n \<le> length buf" and "n \<le> sizeof_fileinfo"
  shows "\<exists>f. decode g buf n = Inr f \<and> wf_fileinfo f
           \<and> image f = take n buf @ drop n (image g)"
proof -
  have "length (take n buf @ drop n (image g)) = sizeof_fileinfo"
    using assms by (simp add: length_image)
  then show ?thesis
    using assms by (simp add: decode_eq wf_of_image image_of_image)
qed

text \<open>The answer of the digest check, once some \<open>malloc\<close> succeeds: 1 exactly when
  the length is the announced one and the first eight bytes of the digests agree.\<close>

lemma is_data_correct_iff:
  assumes "unat (fi_size f) \<le> length data" and "mem k"
  shows "is_data_correct M f data n mem = Some (Inr 1) \<longleftrightarrow>
     n = fi_size f \<and> take 8 (md5_of M (take (unat n) data)) = take 8 (fi_info f)"
  using is_data_correct_cases [of f data mem k M n] assms by auto

text \<open>The check compares as many bytes as a pointer has: a header whose digest agrees
  with that of the data in its first half only is accepted.\<close>

lemma is_data_correct_accepts_wrong_digest:
  assumes "md5_ok M" and "length data = unat (fi_size f)" and "mem k"
    and "fi_info f = take 8 (md5_of M data) @ r" and "r \<noteq> drop 8 (md5_of M data)"
  shows "fi_info f \<noteq> md5_of M data
       \<and> is_data_correct M f data (fi_size f) mem = Some (Inr 1)"
proof -
  have "fi_info f \<noteq> md5_of M data"
    using assms(4,5) append_take_drop_id [of 8 "md5_of M data"] by (metis same_append_eq)
  moreover have "is_data_correct M f data (fi_size f) mem = Some (Inr 1)"
  proof -
    have "take 8 (md5_of M data) = take 8 (fi_info f)"
      using length_md5_of [OF assms(1)] by (simp add: assms(4))
    then show ?thesis
      using is_data_correct_cases [of f data mem k M "fi_size f"] assms(2,3) by simp
  qed
  ultimately show ?thesis ..
qed

text \<open>The retry loop around \<open>malloc\<close> ends exactly when some attempt succeeds.\<close>

lemma is_data_correct_terminates_iff:
  assumes "n = fi_size f" and "unat n \<le> length data"
  shows "is_data_correct M f data n mem \<noteq> None \<longleftrightarrow> (\<exists>k. mem k)"
proof
  assume "is_data_correct M f data n mem \<noteq> None"
  with assms(1) obtain r where "digest_loop M data (unat n) mem 0 = Some r"
    by (auto simp: is_data_correct_def)
  then show "\<exists>k. mem k"
    using assms(2) by (rule digest_loop_only_if)
next
  assume "\<exists>k. mem k"
  with assms show "is_data_correct M f data n mem \<noteq> None"
    by (auto simp: is_data_correct_cases)
qed

end
