(* ===== verification/Path.thy ===== *)
theory Path
  imports CLib
begin

text \<open>
  \<open>basename\<close> of \<^verbatim>\<open>libgen.h\<close> (which \<^verbatim>\<open>c/interface.h\<close> and \<^verbatim>\<open>c/config.h\<close> include):
  the last component of a path. It cuts trailing slashes off its argument in place, so
  the buffer version returns the buffer too.
\<close>

definition cut_slashes :: "string \<Rightarrow> string" where
  "cut_slashes s = rev (dropWhile (\<lambda>c. c = CHR ''/'') (rev s))"

definition last_part :: "string \<Rightarrow> string" where
  "last_part s = rev (takeWhile (\<lambda>c. c \<noteq> CHR ''/'') (rev s))"

definition base :: "string \<Rightarrow> string" where
  "base s =
     (if s = [] then ''.''
      else if cut_slashes s = [] then ''/''
      else last_part (cut_slashes s))"

definition basename :: "char list \<Rightarrow> (string \<times> char list) result" where
  "basename b =
     rbind (read_str b) (\<lambda>s.
       let t = cut_slashes s
       in Inr (base s, if t = [] \<or> t = s then b else b[length t := NUL]))"

lemma cut_slashes_id: "s \<noteq> [] \<Longrightarrow> last s \<noteq> CHR ''/'' \<Longrightarrow> cut_slashes s = s"
  by (cases s rule: rev_cases) (simp_all add: cut_slashes_def)

lemma cut_slashes_no_slash: "CHR ''/'' \<notin> set s \<Longrightarrow> cut_slashes s = s"
  by (cases s rule: rev_cases) (auto simp: cut_slashes_def)

lemma cut_slashes_prefix: "\<exists>r. s = cut_slashes s @ r \<and> set r \<subseteq> {CHR ''/''}"
proof -
  let ?P = "\<lambda>c. c = CHR ''/''"
  have "rev s = takeWhile ?P (rev s) @ dropWhile ?P (rev s)"
    by simp
  then have "s = rev (dropWhile ?P (rev s)) @ rev (takeWhile ?P (rev s))"
    by (metis rev_append rev_rev_ident)
  moreover have "set (rev (takeWhile ?P (rev s))) \<subseteq> {CHR ''/''}"
    by (auto dest: set_takeWhileD)
  ultimately show ?thesis
    unfolding cut_slashes_def by blast
qed

lemma length_cut_slashes: "length (cut_slashes s) \<le> length s"
  using cut_slashes_prefix [of s] by (metis le_add1 length_append)

lemma last_cut_slashes: "cut_slashes s \<noteq> [] \<Longrightarrow> last (cut_slashes s) \<noteq> CHR ''/''"
proof -
  assume "cut_slashes s \<noteq> []"
  then have ne: "dropWhile (\<lambda>c. c = CHR ''/'') (rev s) \<noteq> []"
    by (simp add: cut_slashes_def)
  then show ?thesis
    using hd_dropWhile [OF ne] by (simp add: cut_slashes_def last_rev)
qed

lemma last_part_no_slash: "CHR ''/'' \<notin> set (last_part s)"
  by (auto simp: last_part_def dest: set_takeWhileD)

lemma length_last_part: "length (last_part s) \<le> length s"
  using length_takeWhile_le [of "\<lambda>c. c \<noteq> CHR ''/''" "rev s"] by (simp add: last_part_def)

lemma last_part_id: "CHR ''/'' \<notin> set s \<Longrightarrow> last_part s = s"
proof -
  assume "CHR ''/'' \<notin> set s"
  then have "takeWhile (\<lambda>c. c \<noteq> CHR ''/'') (rev s) = rev s"
    by (subst takeWhile_eq_all_conv) auto
  then show ?thesis
    by (simp only: last_part_def rev_rev_ident)
qed

text \<open>The result names a file of the directory it is opened in, or is the root.\<close>

lemma base_no_slash: "base s = ''/'' \<or> CHR ''/'' \<notin> set (base s)"
  by (simp add: base_def last_part_no_slash)

lemma base_nonempty: "base s \<noteq> []"
proof (cases "s = [] \<or> cut_slashes s = []")
  case True
  then show ?thesis by (auto simp: base_def)
next
  case False
  then have "cut_slashes s \<noteq> []" and "last (cut_slashes s) \<noteq> CHR ''/''"
    using last_cut_slashes [of s] by simp_all
  then have "last_part (cut_slashes s) \<noteq> []"
    by (cases "cut_slashes s" rule: rev_cases) (auto simp: last_part_def)
  with False show ?thesis
    by (simp add: base_def)
qed

lemma length_base: "length (base s) \<le> max 1 (length s)"
  using le_trans [OF length_last_part length_cut_slashes, of s] by (auto simp: base_def)

lemma base_id: "s \<noteq> [] \<Longrightarrow> CHR ''/'' \<notin> set s \<Longrightarrow> base s = s"
  by (simp add: base_def cut_slashes_no_slash last_part_id)

lemma base_idem: "base (base s) = base s"
proof (cases "base s = ''/''")
  case True
  then show ?thesis by (simp add: base_def cut_slashes_def)
next
  case False
  then show ?thesis
    using base_no_slash [of s] base_nonempty [of s] by (intro base_id) auto
qed

lemma basename_Inr:
  "NUL \<in> set b \<Longrightarrow> \<exists>b'. basename b = Inr (base (cstr b), b') \<and> length b' = length b"
  by (simp add: basename_def read_str_def Let_def)

lemma basename_name: "basename b = Inr (s, b') \<Longrightarrow> s = base (cstr b) \<and> length b' = length b"
  by (auto simp: basename_def rbind_eq_Inr read_str_Inr Let_def split: if_splits)

lemma no_nul_base: "no_nul s \<Longrightarrow> no_nul (base s)"
  by (auto simp: base_def last_part_def cut_slashes_def no_nul_def
      dest!: set_takeWhileD set_dropWhileD)

end
