(* ===== verification/Interface.thy ===== *)
theory Interface
  imports FileInfo Libevent Path
begin

text \<open>
  \<^verbatim>\<open>c/interface.h\<close> and \<^verbatim>\<open>c/interface.c\<close>: the request types the two programs exchange,
  and the two workers that copy a file to an evbuffer (\<open>readfile\<close>, run by the client)
  and an evbuffer to a file (\<open>writefile\<close>, run by the server), computing the MD5 digest
  on the way. Both run in a thread their caller joins at once, so they are function
  calls here; \<open>evbuffer_lock\<close> is a no-op on buffers without a lock, as these are.
\<close>

section \<open>Request types\<close>

datatype RequestType = INIT | HEAD | DATA | FIN

fun request_value :: "RequestType \<Rightarrow> 32 word" where
  "request_value INIT = 0"
| "request_value HEAD = 1"
| "request_value DATA = 2"
| "request_value FIN = 3"

lemma request_value_inject [simp]: "request_value r = request_value s \<longleftrightarrow> r = s"
  by (cases r; cases s) (simp_all add: request_value.simps)

declare request_value.simps [simp del]

text \<open>The constants of the C enum are ordered by their values.\<close>

instantiation RequestType :: linorder
begin

definition less_eq_RequestType :: "RequestType \<Rightarrow> RequestType \<Rightarrow> bool" where
  "less_eq_RequestType r s \<longleftrightarrow> request_value r \<le> request_value s"

definition less_RequestType :: "RequestType \<Rightarrow> RequestType \<Rightarrow> bool" where
  "less_RequestType r s \<longleftrightarrow> request_value r < request_value s"

instance
  by standard (auto simp: less_eq_RequestType_def less_RequestType_def less_le)

end

text \<open>
  The image of the \<open>Status\<close> variable, four bytes. \<open>str\<close> is the global \<open>__str\<close>, five
  bytes; a value that is none of the constants falls through the switch.
\<close>

definition request_bytes :: "RequestType \<Rightarrow> char list" where
  "request_bytes r = enc32 (request_value r)"

definition RequestInfo :: "32 word \<Rightarrow> char list \<Rightarrow> char list result" where
  "RequestInfo t str =
     (if t = request_value INIT then strcpy str 0 ''INIT''
      else if t = request_value HEAD then strcpy str 0 ''HEAD''
      else if t = request_value DATA then strcpy str 0 ''DATA''
      else if t = request_value FIN then strcpy str 0 ''FIN''
      else Inr str)"

fun request_name :: "RequestType \<Rightarrow> string" where
  "request_name INIT = ''INIT''"
| "request_name HEAD = ''HEAD''"
| "request_name DATA = ''DATA''"
| "request_name FIN = ''FIN''"

lemma length_request_bytes [simp]: "length (request_bytes r) = 4"
  by (simp add: request_bytes_def)

lemma dec32_request_bytes [simp]: "dec32 (request_bytes r) = request_value r"
  by (simp add: request_bytes_def)

section \<open>readfile\<close>

function read_loop ::
  "('e, 'b) libevent \<Rightarrow> 'c md5 \<Rightarrow> char list \<Rightarrow> 'e \<Rightarrow> 'c \<Rightarrow> 64 word \<Rightarrow> 'e \<times> 'c \<times> 64 word" where
  "read_loop L M st buf ctx tot =
     (let (data, st') = fread st BUFSIZ; n = length data
      in if 0 < n
         then read_loop L M st' (ev_add L buf data) (md5_update M ctx data) (tot + of_nat n)
         else (buf, ctx, tot))"
  by pat_completeness auto
termination
  by (relation "measure (\<lambda>(L, M, st, buf, ctx, tot). length st)") (auto simp: fread_def)

declare read_loop.simps [simp del]

text \<open>
  The stream is never closed. \<open>finfo\<close> and \<open>buf\<close> are the two fields of the argument
  struct; the name must be set by the caller.
\<close>

definition readfile ::
  "('e, 'b) libevent \<Rightarrow> 'c md5 \<Rightarrow> world \<Rightarrow> fileinfo \<Rightarrow> 'e \<Rightarrow> (world \<times> fileinfo \<times> 'e) result" where
  "readfile L M w finfo buf =
     rbind (read_str (fi_name finfo)) (\<lambda>path.
       case fopen_rb w path of
         None \<Rightarrow> Inl AssertFailed
       | Some (fp, w1) \<Rightarrow>
           let (buf', ctx, tot) = read_loop L M fp buf (md5_init M) 0
           in Inr (w1, finfo\<lparr>fi_info := md5_final M ctx, fi_size := tot\<rparr>, buf'))"

section \<open>writefile\<close>

text \<open>
  \<open>evbuffer_remove\<close> returns -1 when it fails, which the \<open>size_t n\<close> of the loop turns
  into the largest size: \<open>MD5_Update\<close> then reads past \<open>data\<close>.
\<close>

partial_function (option) write_loop ::
  "('e, 'b) libevent \<Rightarrow> 'c md5 \<Rightarrow> string \<Rightarrow> world \<Rightarrow> 'e \<Rightarrow> 'c \<Rightarrow> 64 word \<Rightarrow>
     (world \<times> 'e \<times> 'c \<times> 64 word) result option" where
  "write_loop L M path w buf ctx tot =
     (let r = ev_remove L buf BUFSIZ
      in case fst r of
           None \<Rightarrow> Some (Inl OutOfBounds)
         | Some data \<Rightarrow>
             (if 0 < length data
              then let kw = fwrite w path data
                   in write_loop L M path (snd kw) (snd r) (md5_update M ctx data)
                        (tot + of_nat (fst kw))
              else Some (Inr (w, snd r, ctx, tot))))"

definition log_digests :: "char list \<Rightarrow> char list \<Rightarrow> world \<Rightarrow> world" where
  "log_digests info md w =
     foldl (\<lambda>w i. log (DigestByte i (info ! i) (md ! i)) w) w [0..<MD5_DIGEST_LENGTH]"

text \<open>
  What is done once the loop has ended: \<open>len\<close> is the length of the buffer before it. The
  result is 0 for success and 1 for a failure; a digest that differs sets \<open>ret\<close> to 1,
  and then 0 is returned all the same.
\<close>

definition finish_write ::
  "'c md5 \<Rightarrow> fileinfo \<Rightarrow> nat \<Rightarrow> world \<times> 'e \<times> 'c \<times> 64 word \<Rightarrow> world \<times> fileinfo \<times> 'e \<times> int" where
  "finish_write M finfo len = (\<lambda>(w, buf, ctx, tot).
     let w = fclose w;
         md = md5_final M ctx
     in if tot \<noteq> of_nat len
        then (log WriteFileError w, finfo, buf, 1)
        else let (w, ret) =
                   (if \<not> mem_eq md (fi_info finfo) MD5_DIGEST_LENGTH
                    then (log_digests (fi_info finfo) md (log ContentIncorrect w), 1 :: int)
                    else (w, 0))
             in (release w, finfo, buf, 0))"

definition writefile ::
  "('e, 'b) libevent \<Rightarrow> 'c md5 \<Rightarrow> world \<Rightarrow> fileinfo \<Rightarrow> 'e \<Rightarrow> bool \<Rightarrow>
     (world \<times> fileinfo \<times> 'e \<times> int) result option" where
  "writefile L M w finfo buf mem =
     (case basename (fi_name finfo) of
        Inl e \<Rightarrow> Some (Inl e)
      | Inr (filename, name') \<Rightarrow>
          (case fopen_wb w filename of
             None \<Rightarrow> Some (Inl AssertFailed)
           | Some w1 \<Rightarrow>
               if \<not> mem then Some (Inl AssertFailed)
               else map_option
                      (\<lambda>r. rbind r (\<lambda>x.
                         Inr (finish_write M (finfo\<lparr>fi_name := name'\<rparr>) (ev_length L buf) x)))
                      (write_loop L M filename (alloc w1) buf (md5_init M) 0)))"

section \<open>What the two loops compute\<close>

lemma read_loop_result:
  assumes "evbuffer_ok L"
  shows "\<exists>ds buf'. read_loop L M st buf ctx tot =
            (buf', foldl (md5_update M) ctx ds, tot + of_nat (length st))
          \<and> concat ds = st \<and> ev_bytes L buf' = ev_bytes L buf @ st"
proof (induction st arbitrary: buf ctx tot rule: stdio.pull_induct)
  case (empty st)
  then show ?case
    by (subst read_loop.simps) (auto simp: fread_def intro: exI [of _ "[]"])
next
  case (step st)
  let ?d = "take BUFSIZ st" and ?st = "drop BUFSIZ st"
  obtain ds buf' where IH: "read_loop L M ?st (ev_add L buf ?d) (md5_update M ctx ?d)
        (tot + of_nat (length ?d)) =
      (buf', foldl (md5_update M) (md5_update M ctx ?d) ds,
        tot + of_nat (length ?d) + of_nat (length ?st))"
    and ds: "concat ds = ?st"
    and buf': "ev_bytes L buf' = ev_bytes L (ev_add L buf ?d) @ ?st"
    using step.IH [of "ev_add L buf ?d" "md5_update M ctx ?d" "tot + of_nat (length ?d)"]
    by (auto simp: fread_def)
  have len: "tot + of_nat (length ?d) + of_nat (length ?st) = tot + of_nat (length st)"
    by (simp only: add.assoc of_nat_add [symmetric] length_append [symmetric]
        append_take_drop_id)
  have "read_loop L M st buf ctx tot =
      (buf', foldl (md5_update M) ctx (?d # ds), tot + of_nat (length st))"
    using step.hyps IH len by (subst read_loop.simps) (simp add: fread_def Let_def)
  moreover have "concat (?d # ds) = st"
    using ds by simp
  moreover have "ev_bytes L buf' = ev_bytes L buf @ st"
    using buf' by (simp add: evbuffer_laws [OF assms])
  ultimately show ?case by blast
qed

text \<open>An evbuffer read \<open>BUFSIZ\<close> bytes at a time is a byte source too.\<close>

definition ev_pull :: "('e, 'b) libevent \<Rightarrow> 'e \<Rightarrow> char list \<times> 'e" where
  "ev_pull L e =
     (case ev_remove L e BUFSIZ of (None, e') \<Rightarrow> ([], e') | (Some d, e') \<Rightarrow> (d, e'))"

lemma ev_pull_eq:
  "evbuffer_ok L \<Longrightarrow> ev_pull L e = (take BUFSIZ (ev_bytes L e), snd (ev_remove L e BUFSIZ))"
  using evbuffer_laws(4) [of L e BUFSIZ]
  by (cases "ev_remove L e BUFSIZ") (auto simp: ev_pull_def)

lemma evbuffer_source: "evbuffer_ok L \<Longrightarrow> byte_source (ev_pull L) (ev_bytes L) BUFSIZ"
  by unfold_locales (simp_all add: ev_pull_eq evbuffer_laws)

lemma file_bytes_fwrite: "file_bytes (snd (fwrite w p d)) p = file_bytes w p @ take (room w) d"
  by (simp add: fwrite_def file_bytes_def Let_def min_def)

lemma fwrite_files: "files (snd (fwrite w p d)) = (files w)(p \<mapsto> file_bytes w p @ take (room w) d)"
  by (simp add: fwrite_def Let_def min_def)

lemma room_fwrite: "room (snd (fwrite w p d)) = room w - length d"
  by (simp add: fwrite_def Let_def min_def)

lemma files_same: "files w p \<noteq> None \<Longrightarrow> (files w)(p \<mapsto> file_bytes w p) = files w"
  by (auto simp: file_bytes_def)

text \<open>The world after all of a buffer has been written to an open file.\<close>

definition stored :: "string \<Rightarrow> char list \<Rightarrow> world \<Rightarrow> world" where
  "stored p bs w = w\<lparr>files := (files w)(p \<mapsto> file_bytes w p @ take (room w) bs),
     room := room w - length bs\<rparr>"

lemma stored_simps [simp]:
  "files (stored p bs w) = (files w)(p \<mapsto> file_bytes w p @ take (room w) bs)"
  "room (stored p bs w) = room w - length bs"
  "creatable (stored p bs w) = creatable w" "streams (stored p bs w) = streams w"
  "blocks (stored p bs w) = blocks w" "logs (stored p bs w) = logs w"
  by (simp_all add: stored_def)

lemma stored_Nil: "files w p \<noteq> None \<Longrightarrow> stored p [] w = w"
  by (simp add: stored_def files_same)

lemma fwrite_stored: "snd (fwrite w p d) = stored p d w"
  by (simp add: fwrite_def stored_def Let_def min_def)

lemma stored_stored: "stored p bs (stored p as w) = stored p (as @ bs) w"
  by (simp add: stored_def file_bytes_def)

lemma write_loop_result:
  assumes "evbuffer_ok L"
  shows "files w path \<noteq> None \<Longrightarrow>
    \<exists>ds buf'. write_loop L M path w buf ctx tot =
        Some (Inr (stored path (ev_bytes L buf) w, buf', foldl (md5_update M) ctx ds,
          tot + of_nat (min (length (ev_bytes L buf)) (room w))))
      \<and> concat ds = ev_bytes L buf \<and> ev_bytes L buf' = []"
proof (induction buf arbitrary: w ctx tot
    rule: byte_source.pull_induct [OF evbuffer_source [OF assms]])
  case (1 buf)
  then show ?case
    by (subst write_loop.simps)
      (auto simp: stored_Nil evbuffer_laws [OF assms] intro: exI [of _ "[]"])
next
  case (2 buf)
  let ?bs = "ev_bytes L buf"
  let ?d = "take BUFSIZ ?bs" and ?buf = "snd (ev_remove L buf BUFSIZ)"
  let ?w = "snd (fwrite w path ?d)" and ?k = "min (length ?d) (room w)"
  have rest: "ev_bytes L ?buf = drop BUFSIZ ?bs"
    by (simp add: evbuffer_laws [OF assms])
  have "files ?w path \<noteq> None"
    by (simp add: fwrite_stored)
  then obtain ds buf' where IH: "write_loop L M path ?w ?buf (md5_update M ctx ?d) (tot + of_nat ?k) =
        Some (Inr (stored path (drop BUFSIZ ?bs) ?w, buf',
          foldl (md5_update M) (md5_update M ctx ?d) ds,
          tot + of_nat ?k + of_nat (min (length (drop BUFSIZ ?bs)) (room ?w))))"
      and ds: "concat ds = drop BUFSIZ ?bs" and buf': "ev_bytes L buf' = []"
    using "2.IH" [of ?w "md5_update M ctx ?d" "tot + of_nat ?k"]
    by (auto simp: ev_pull_eq [OF assms] rest)
  have "?k + min (length (drop BUFSIZ ?bs)) (room ?w) = min (length ?bs) (room w)"
    unfolding room_fwrite length_take length_drop by arith
  then have len: "tot + of_nat ?k + of_nat (min (length (drop BUFSIZ ?bs)) (room ?w))
      = tot + of_nat (min (length ?bs) (room w))"
    by (simp only: add.assoc of_nat_add [symmetric])
  have "fst (fwrite w path ?d) = ?k"
    by (simp add: fwrite_def Let_def)
  then have "write_loop L M path w buf ctx tot =
      Some (Inr (stored path ?bs w, buf', foldl (md5_update M) ctx (?d # ds),
        tot + of_nat (min (length ?bs) (room w))))"
    using "2.hyps" IH len
    by (subst write_loop.simps)
      (simp add: evbuffer_laws [OF assms] Let_def fwrite_stored stored_stored)
  moreover have "concat (?d # ds) = ?bs"
    using ds by simp
  ultimately show ?case
    using buf' by blast
qed

section \<open>What the two workers do\<close>

lemma log_digests_frame [simp]:
  "files (log_digests i m w) = files w" "creatable (log_digests i m w) = creatable w"
  "room (log_digests i m w) = room w" "streams (log_digests i m w) = streams w"
  "blocks (log_digests i m w) = blocks w"
proof -
  have "files (foldl (\<lambda>w j. log (DigestByte j (i ! j) (m ! j)) w) w js) = files w
      \<and> creatable (foldl (\<lambda>w j. log (DigestByte j (i ! j) (m ! j)) w) w js) = creatable w
      \<and> room (foldl (\<lambda>w j. log (DigestByte j (i ! j) (m ! j)) w) w js) = room w
      \<and> streams (foldl (\<lambda>w j. log (DigestByte j (i ! j) (m ! j)) w) w js) = streams w
      \<and> blocks (foldl (\<lambda>w j. log (DigestByte j (i ! j) (m ! j)) w) w js) = blocks w" for js
    by (induction js arbitrary: w) simp_all
  then show "files (log_digests i m w) = files w" "creatable (log_digests i m w) = creatable w"
    "room (log_digests i m w) = room w" "streams (log_digests i m w) = streams w"
    "blocks (log_digests i m w) = blocks w"
    by (simp_all add: log_digests_def)
qed

lemma logs_log_digests:
  "logs (log_digests i m w) = logs w @ map (\<lambda>j. DigestByte j (i ! j) (m ! j)) [0..<MD5_DIGEST_LENGTH]"
proof -
  have "logs (foldl (\<lambda>w j. log (DigestByte j (i ! j) (m ! j)) w) w js) =
      logs w @ map (\<lambda>j. DigestByte j (i ! j) (m ! j)) js" for js
    by (induction js arbitrary: w) simp_all
  then show ?thesis
    by (simp add: log_digests_def)
qed

lemma fopen_wb_simps:
  "creatable w p \<Longrightarrow> fopen_wb w p = Some (w\<lparr>files := (files w)(p \<mapsto> []),
     room := room w + length (file_bytes w p), streams := Suc (streams w)\<rparr>)"
  by (simp add: fopen_wb_def)

text \<open>The room a write of \<open>p\<close> finds: opening the file gives the room of its old content back.\<close>

definition room_for :: "world \<Rightarrow> string \<Rightarrow> nat" where
  "room_for w p = room w + length (file_bytes w p)"

lemma d_room_for_disk [simp]: "d_room_for (disk_of w) p = room_for w p"
  by (simp add: d_room_for_def room_for_def file_bytes_def split: option.split)

lemma writefile_result:
  assumes L: "libevent_ok L" and M: "md5_ok M"
    and name: "NUL \<in> set (fi_name f)" and p: "p = base (cstr (fi_name f))"
    and "creatable w p" and "mem"
  shows "\<exists>name' buf' ctx w3.
      writefile L M w f buf mem =
        Some (Inr (finish_write M (f\<lparr>fi_name := name'\<rparr>) (length (ev_bytes L buf))
          (w3, buf', ctx, of_nat (min (length (ev_bytes L buf)) (room_for w p)))))
    \<and> md5_final M ctx = md5_of M (ev_bytes L buf) \<and> ev_bytes L buf' = []
    \<and> files w3 = (files w)(p \<mapsto> take (room_for w p) (ev_bytes L buf))
    \<and> room w3 = room_for w p - length (ev_bytes L buf)
    \<and> creatable w3 = creatable w \<and> streams w3 = Suc (streams w)
    \<and> blocks w3 = Suc (blocks w) \<and> logs w3 = logs w"
proof -
  obtain name' where bn: "basename (fi_name f) = Inr (p, name')"
    using basename_Inr [OF name] p by auto
  define w1 where "w1 = w\<lparr>files := (files w)(p \<mapsto> []),
     room := room w + length (file_bytes w p), streams := Suc (streams w)\<rparr>"
  have "files (alloc w1) p \<noteq> None"
    by (simp add: w1_def)
  then obtain ds buf' where loop: "write_loop L M p (alloc w1) buf (md5_init M) 0 =
        Some (Inr (stored p (ev_bytes L buf) (alloc w1), buf', foldl (md5_update M) (md5_init M) ds,
          0 + of_nat (min (length (ev_bytes L buf)) (room (alloc w1)))))"
      and ds: "concat ds = ev_bytes L buf" and buf': "ev_bytes L buf' = []"
    using write_loop_result [OF libevent_evbuffer [OF L], of "alloc w1" p M buf "md5_init M" 0]
    by blast
  have "room (alloc w1) = room_for w p" and "file_bytes (alloc w1) p = []"
    by (simp_all add: w1_def room_for_def file_bytes_def)
  moreover have "ev_length L buf = length (ev_bytes L buf)"
    using evbuffer_laws [OF libevent_evbuffer [OF L]] by simp
  ultimately have "writefile L M w f buf mem =
      Some (Inr (finish_write M (f\<lparr>fi_name := name'\<rparr>) (length (ev_bytes L buf))
        (stored p (ev_bytes L buf) (alloc w1), buf', foldl (md5_update M) (md5_init M) ds,
          of_nat (min (length (ev_bytes L buf)) (room_for w p)))))"
    using assms(5,6) loop by (simp add: writefile_def bn fopen_wb_simps w1_def [symmetric])
  moreover have "md5_final M (foldl (md5_update M) (md5_init M) ds) = md5_of M (ev_bytes L buf)"
    using md5_pieces [OF M, of ds] ds by simp
  moreover have "files (stored p (ev_bytes L buf) (alloc w1)) =
      (files w)(p \<mapsto> take (room_for w p) (ev_bytes L buf))"
    by (simp add: w1_def room_for_def file_bytes_def)
  moreover have "room (stored p (ev_bytes L buf) (alloc w1)) = room_for w p - length (ev_bytes L buf)"
    by (simp add: w1_def room_for_def)
  moreover have "creatable (stored p (ev_bytes L buf) (alloc w1)) = creatable w"
    "streams (stored p (ev_bytes L buf) (alloc w1)) = Suc (streams w)"
    "blocks (stored p (ev_bytes L buf) (alloc w1)) = Suc (blocks w)"
    "logs (stored p (ev_bytes L buf) (alloc w1)) = logs w"
    by (simp_all add: w1_def)
  ultimately show ?thesis
    using buf' by blast
qed

lemma writefile_assert:
  assumes "NUL \<in> set (fi_name f)" and "\<not> creatable w (base (cstr (fi_name f))) \<or> \<not> mem"
  shows "writefile L M w f buf mem = Some (Inl AssertFailed)"
  using basename_Inr [OF assms(1)] assms(2) by (auto simp: writefile_def fopen_wb_def)

lemma writefile_unterminated:
  "NUL \<notin> set (fi_name f) \<Longrightarrow> writefile L M w f buf mem = Some (Inl OutOfBounds)"
  by (simp add: writefile_def basename_def read_str_def)

text \<open>
  Whatever name the header carries, \<open>writefile\<close> returns, and touches no file but the one
  its last component names, which lies in the current directory or is the root itself.
\<close>

lemma writefile_confined:
  assumes "libevent_ok L" and "md5_ok M"
  shows "\<exists>r. writefile L M w f buf mem = Some r
    \<and> (\<forall>w' f' buf' ret q. r = Inr (w', f', buf', ret) \<longrightarrow> q \<noteq> base (cstr (fi_name f)) \<longrightarrow>
         files w' q = files w q)
    \<and> (base (cstr (fi_name f)) = ''/'' \<or> CHR ''/'' \<notin> set (base (cstr (fi_name f))))"
proof (cases "NUL \<in> set (fi_name f) \<and> creatable w (base (cstr (fi_name f))) \<and> mem")
  case True
  then show ?thesis
    using writefile_result [OF assms, of f _ w mem buf] base_no_slash
    by (fastforce simp: finish_write_def Let_def split: if_splits)
next
  case False
  then show ?thesis
    using writefile_assert [of f w mem L M buf] writefile_unterminated [of f L M w buf mem]
      base_no_slash [of "cstr (fi_name f)"] by auto
qed

section \<open>Properties\<close>

text \<open>A world with one file and room on the disk, and a header naming it, for the witnesses.\<close>

definition sample_world :: world where
  "sample_world = \<lparr>files = [''in'' \<mapsto> ''hello''], creatable = (\<lambda>p. p \<noteq> ''.''), room = 100,
     streams = 0, blocks = 0, logs = []\<rparr>"

definition sample_header :: "string \<Rightarrow> fileinfo" where
  "sample_header name = \<lparr>fi_name = name @ replicate (256 - length name) NUL, fi_size = 0,
     fi_info = replicate 16 NUL\<rparr>"

definition sample_bev :: "char list \<Rightarrow> list_bev" where
  "sample_bev d = \<lparr>lb_in = d, lb_out = [], lb_flags = [EV_READ, EV_WRITE]\<rparr>"

definition sample_res :: resources where
  "sample_res = \<lparr>can_thread = True, can_alloc = True\<rparr>"

lemma sample_bev_simps [simp]:
  "lb_in (sample_bev d) = d" "lb_out (sample_bev d) = []"
  by (simp_all add: sample_bev_def)

lemma sample_header_name [simp]:
  "no_nul name \<Longrightarrow> cstr (fi_name (sample_header name)) = name"
  "length name < 256 \<Longrightarrow> NUL \<in> set (fi_name (sample_header name))"
  "length name < 256 \<Longrightarrow> wf_fileinfo (sample_header name)"
  by (simp_all add: sample_header_def cbuf wf_fileinfo_def fileinfo_sizes)

lemmas sample_simps = list_libevent_ok head_md5_ok sample_world_def base_def cut_slashes_def
  last_part_def room_for_def file_bytes_def

text \<open>For each request type \<open>RequestInfo\<close> stays inside the five bytes of \<open>__str\<close>
  and leaves the name of the type there; the name stands for the type alone.\<close>

lemma RequestInfo_names:
  assumes "length str = 5"
  shows "\<exists>s. RequestInfo (request_value r) str = Inr s \<and> length s = 5
           \<and> NUL \<in> set s \<and> cstr s = request_name r"
  using assms
  by (cases r) (simp_all add: RequestInfo_def strcpy_fits cstr_def)

text \<open>C24. \<open>readfile\<close> appends the whole file to the buffer, whatever its length, and fills in
  the digest of its content and its size (modulo \<open>2 ^ 64\<close>); the name is kept. The only
  other effect is a stream that stays open.\<close>

theorem readfile_copies:
  assumes "libevent_ok L" and "md5_ok M"
    and "NUL \<in> set (fi_name f)" and "files w (cstr (fi_name f)) = Some bs"
  shows "\<exists>buf'. readfile L M w f buf =
      Inr (w\<lparr>streams := Suc (streams w)\<rparr>,
           f\<lparr>fi_info := md5_of M bs, fi_size := of_nat (length bs)\<rparr>, buf')
    \<and> ev_bytes L buf' = ev_bytes L buf @ bs"
proof -
  obtain ds buf' where "read_loop L M bs buf (md5_init M) 0 =
        (buf', foldl (md5_update M) (md5_init M) ds, of_nat (length bs))"
      and "concat ds = bs" and "ev_bytes L buf' = ev_bytes L buf @ bs"
    using read_loop_result [OF libevent_evbuffer [OF assms(1)], of M bs buf "md5_init M" 0]
    by auto
  then show ?thesis
    using assms(3,4) md5_pieces [OF assms(2), of ds]
    by (simp add: readfile_def read_str_def fopen_rb_def)
qed

theorem readfile_copies_witness:
  "\<exists>buf'. readfile list_libevent head_md5 sample_world (sample_header ''in'') [] =
      Inr (sample_world\<lparr>streams := Suc (streams sample_world)\<rparr>,
           (sample_header ''in'')\<lparr>fi_info := md5_of head_md5 ''hello'',
             fi_size := of_nat (length ''hello'')\<rparr>, buf')
    \<and> ev_bytes list_libevent buf' = ev_bytes list_libevent [] @ ''hello''"
  by (rule readfile_copies) (simp_all add: sample_simps)

text \<open>C6. With room on the disk and the announced digest, \<open>writefile\<close> returns 0, the file
  named by the last component of the name holds exactly the buffered bytes, the buffer is
  empty, and neither a stream nor a block nor a log call is left behind.\<close>

theorem writefile_stores:
  assumes "libevent_ok L" and "md5_ok M" and "NUL \<in> set (fi_name f)"
    and "creatable w (base (cstr (fi_name f)))" and "mem"
    and "length (ev_bytes L buf) \<le> room_for w (base (cstr (fi_name f)))"
    and "fi_info f = md5_of M (ev_bytes L buf)"
  shows "\<exists>w' f' buf'. writefile L M w f buf mem = Some (Inr (w', f', buf', 0))
    \<and> files w' = (files w)(base (cstr (fi_name f)) \<mapsto> ev_bytes L buf)
    \<and> ev_bytes L buf' = [] \<and> streams w' = streams w \<and> blocks w' = blocks w
    \<and> logs w' = logs w"
  using writefile_result [OF assms(1-3) refl assms(4,5), of buf] assms(6,7)
  by (auto simp: finish_write_def Let_def mem_eq_def)

theorem writefile_stores_witness:
  "\<exists>w' f' buf'. writefile list_libevent head_md5 sample_world
        ((sample_header ''a/out'')\<lparr>fi_info := md5_of head_md5 ''data''\<rparr>) ''data'' True
      = Some (Inr (w', f', buf', 0))
    \<and> files w' = (files sample_world)(base (cstr (fi_name ((sample_header ''a/out'')
        \<lparr>fi_info := md5_of head_md5 ''data''\<rparr>))) \<mapsto> ev_bytes list_libevent ''data'')
    \<and> ev_bytes list_libevent buf' = [] \<and> streams w' = streams sample_world
    \<and> blocks w' = blocks sample_world \<and> logs w' = logs sample_world"
  by (rule writefile_stores)
    (simp_all add: sample_simps wf_fileinfo_def)

text \<open>A digest that does not match the received bytes is logged and then forgotten:
  \<open>writefile\<close> stores the bytes and returns 0, its success value, all the same.\<close>

lemma writefile_ignores_digest:
  assumes "libevent_ok L" and "md5_ok M" and "wf_fileinfo f" and "NUL \<in> set (fi_name f)"
    and "creatable w (base (cstr (fi_name f)))" and "mem"
    and "length (ev_bytes L buf) \<le> room_for w (base (cstr (fi_name f)))"
    and "fi_info f \<noteq> md5_of M (ev_bytes L buf)"
  shows "\<exists>w' f' buf'. writefile L M w f buf mem = Some (Inr (w', f', buf', 0))
    \<and> files w' = (files w)(base (cstr (fi_name f)) \<mapsto> ev_bytes L buf)
    \<and> logs w' \<noteq> logs w"
proof -
  have "\<not> mem_eq (md5_of M (ev_bytes L buf)) (fi_info f) MD5_DIGEST_LENGTH"
    using assms(3,8) length_md5_of [OF assms(2), of "ev_bytes L buf"]
    by (auto simp: mem_eq_def wf_fileinfo_def MD5_DIGEST_LENGTH_def)
  then show ?thesis
    using writefile_result [OF assms(1,2,4) refl assms(5,6), of buf] assms(7)
    by (auto simp: finish_write_def Let_def logs_log_digests MD5_DIGEST_LENGTH_def)
qed

text \<open>A disk too small for the buffered bytes is noticed: \<open>writefile\<close> returns 1. By
  then the buffer has been emptied, the file holds what the disk had room for, and the
  block allocated for the digest is never freed.\<close>

lemma writefile_disk_full:
  assumes "libevent_ok L" and "md5_ok M" and "NUL \<in> set (fi_name f)"
    and "creatable w (base (cstr (fi_name f)))" and "mem"
    and "room_for w (base (cstr (fi_name f))) < length (ev_bytes L buf)"
    and "length (ev_bytes L buf) < 2 ^ 64"
  shows "\<exists>w' f' buf'. writefile L M w f buf mem = Some (Inr (w', f', buf', 1))
    \<and> files w' = (files w)(base (cstr (fi_name f))
        \<mapsto> take (room_for w (base (cstr (fi_name f)))) (ev_bytes L buf))
    \<and> ev_bytes L buf' = [] \<and> streams w' = streams w \<and> blocks w' = Suc (blocks w)
    \<and> logs w' = logs w @ [WriteFileError]"
proof -
  let ?r = "room_for w (base (cstr (fi_name f)))" and ?n = "length (ev_bytes L buf)"
  have "unat (of_nat ?r :: 64 word) = ?r" and "unat (of_nat ?n :: 64 word) = ?n"
    using assms(6,7) by (simp_all add: unat_of_nat)
  then have "(of_nat ?r :: 64 word) \<noteq> of_nat ?n"
    using assms(6) by (metis less_irrefl)
  then show ?thesis
    using writefile_result [OF assms(1-3) refl assms(4,5), of buf] assms(6)
    by (auto simp: finish_write_def Let_def min_def)
qed

end
