(* ===== verification/Decimal.thy ===== *)
theory Decimal
  imports CLib
begin

text \<open>
  The conversions between numbers and decimal strings the programs use: \<open>atoi\<close> with its
  cut to 32 bits, and \<open>%d\<close>, \<open>%lu\<close>.
\<close>

section \<open>Decimal numbers\<close>

definition is_space :: "char \<Rightarrow> bool" where
  "is_space c \<longleftrightarrow> of_char c \<in> {9, 10, 11, 12, 13, 32 :: nat}"

definition is_digit :: "char \<Rightarrow> bool" where
  "is_digit c \<longleftrightarrow> 48 \<le> (of_char c :: nat) \<and> (of_char c :: nat) \<le> 57"

definition digit_value :: "char \<Rightarrow> nat" where
  "digit_value c = of_char c - 48"

fun digits_value :: "nat \<Rightarrow> string \<Rightarrow> nat" where
  "digits_value v [] = v"
| "digits_value v (c # cs) = (if is_digit c then digits_value (10 * v + digit_value c) cs else v)"

text \<open>The number at the front of a string: blanks, a sign, digits, as \<open>strtol\<close> reads it.\<close>

definition signed_value :: "string \<Rightarrow> int" where
  "signed_value s =
     (case s of
        [] \<Rightarrow> 0
      | c # cs \<Rightarrow>
          if c = CHR ''-'' then - int (digits_value 0 cs)
          else if c = CHR ''+'' then int (digits_value 0 cs)
          else int (digits_value 0 s))"

text \<open>
  \<open>atoi\<close> is \<open>strtol\<close>, which stops at the bounds of the 64-bit \<open>long\<close>, cut to the
  32-bit \<open>int\<close>.
\<close>

definition atoi :: "string \<Rightarrow> 32 word" where
  "atoi s =
     (let v = signed_value (dropWhile is_space s)
      in word_of_int (max (- (2 ^ 63)) (min (2 ^ 63 - 1) v)))"

fun show_digits :: "nat \<Rightarrow> string \<Rightarrow> string" where
  "show_digits n acc =
     (let acc = char_of (48 + n mod 10) # acc
      in if n < 10 then acc else show_digits (n div 10) acc)"

declare show_digits.simps [simp del]

text \<open>The conversions \<open>%lu\<close> and \<open>%d\<close>.\<close>

definition show_nat :: "nat \<Rightarrow> string" where
  "show_nat n = show_digits n []"

definition show_int :: "int \<Rightarrow> string" where
  "show_int i = (if i < 0 then CHR ''-'' # show_nat (nat (- i)) else show_nat (nat i))"

lemma digit_char:
  assumes "d < 10"
  shows "is_digit (char_of (48 + d :: nat))" and "digit_value (char_of (48 + d :: nat)) = d"
  using assms by (simp_all add: is_digit_def digit_value_def)

lemma show_digits_append: "show_digits n acc = show_nat n @ acc"
proof -
  have "show_digits n (as @ bs) = show_digits n as @ bs" for as bs
  proof (induction n as rule: show_digits.induct)
    case (1 n as)
    then show ?case
      by (cases "n < 10") (simp_all add: show_digits.simps [of n] Let_def)
  qed
  from this [of "[]" acc] show ?thesis
    by (simp add: show_nat_def)
qed

lemma show_nat_rec:
  "show_nat n = (if n < 10 then [] else show_nat (n div 10)) @ [char_of (48 + n mod 10)]"
  using show_digits_append [of "n div 10" "[char_of (48 + n mod 10)]"]
  by (simp add: show_nat_def show_digits.simps [of n] Let_def)

lemma show_nat_digits: "list_all is_digit (show_nat n)"
proof (induction n rule: less_induct)
  case (less n)
  then show ?case
    by (subst show_nat_rec) (auto simp: digit_char)
qed

lemma show_nat_nonempty [simp]: "show_nat n \<noteq> []"
  by (subst show_nat_rec) simp

lemma digits_value_append:
  "list_all is_digit s \<Longrightarrow> digits_value v (s @ t) = digits_value (digits_value v s) t"
  by (induction s arbitrary: v) simp_all

lemma digits_value_show_nat: "digits_value 0 (show_nat n) = n"
proof (induction n rule: less_induct)
  case (less n)
  show ?case
  proof (cases "n < 10")
    case True
    then show ?thesis
      by (subst show_nat_rec) (simp add: digit_char)
  next
    case False
    then have "digits_value 0 (show_nat (n div 10)) = n div 10"
      by (intro less) simp
    with False show ?thesis
      by (subst show_nat_rec) (simp add: digits_value_append show_nat_digits digit_char)
  qed
qed

lemma digit_not_special: "is_digit c \<Longrightarrow> \<not> is_space c \<and> c \<noteq> CHR ''-'' \<and> c \<noteq> CHR ''+'' \<and> c \<noteq> NUL"
  by (auto simp: is_digit_def is_space_def)

lemma no_nul_show_nat [simp]: "no_nul (show_nat n)"
  using show_nat_digits [of n] by (auto simp: no_nul_def list_all_iff dest: digit_not_special)

lemma no_nul_show_int [simp]: "no_nul (show_int i)"
  by (simp add: show_int_def)

lemma signed_value_show_nat: "signed_value (show_nat n) = int n"
proof -
  obtain c cs where "show_nat n = c # cs"
    by (cases "show_nat n") simp_all
  moreover from this have "is_digit c"
    using show_nat_digits [of n] by simp
  ultimately show ?thesis
    using digits_value_show_nat [of n] digit_not_special [of c] by (simp add: signed_value_def)
qed

lemma no_space_show_int: "dropWhile is_space (show_int i) = show_int i"
proof -
  have "dropWhile is_space (show_nat n) = show_nat n" for n
    using show_nat_digits [of n] digit_not_special by (cases "show_nat n") auto
  then show ?thesis
    by (simp add: show_int_def is_space_def)
qed

lemma signed_value_show_int: "signed_value (show_int i) = i"
  by (auto simp: show_int_def signed_value_show_nat)
    (simp add: signed_value_def digits_value_show_nat)

lemma atoi_show_int:
  assumes "- (2 ^ 31) \<le> i" and "i < 2 ^ 31"
  shows "sint (atoi (show_int i)) = i"
proof -
  have "atoi (show_int i) = word_of_int i"
    using assms by (simp add: atoi_def no_space_show_int signed_value_show_int max_def min_def)
  then show ?thesis
    using assms by (simp add: signed_of_int signed_take_bit_int_eq_self)
qed

lemma atoi_show_nat: "n < 2 ^ 63 \<Longrightarrow> atoi (show_nat n) = word_of_nat n"
  using no_space_show_int [of "int n"] signed_value_show_nat [of n]
  by (simp add: atoi_def show_int_def Let_def)

lemma length_show_nat_le: "0 < k \<Longrightarrow> n < 10 ^ k \<Longrightarrow> length (show_nat n) \<le> k"
proof (induction k arbitrary: n)
  case 0
  then show ?case by simp
next
  case (Suc k)
  show ?case
  proof (cases "n < 10")
    case True
    then show ?thesis
      by (subst show_nat_rec) simp
  next
    case False
    then have "0 < k" "n div 10 < 10 ^ k"
      using Suc.prems by (auto intro: gr0I)
    then show ?thesis
      using Suc.IH [of "n div 10"] False by (subst show_nat_rec) simp
  qed
qed

section \<open>Hexadecimal numbers\<close>

text \<open>\<open>%X\<close> and \<open>%x\<close>, with the code of the letter ten.\<close>

definition hex_digit :: "nat \<Rightarrow> nat \<Rightarrow> char" where
  "hex_digit l d = char_of (if d < 10 then 48 + d else l + (d - 10))"

fun show_hex :: "nat \<Rightarrow> nat \<Rightarrow> string \<Rightarrow> string" where
  "show_hex l n acc =
     (let acc = hex_digit l (n mod 16) # acc
      in if n < 16 then acc else show_hex l (n div 16) acc)"

declare show_hex.simps [simp del]

lemma length_show_hex: "n < 2 ^ 32 \<Longrightarrow> length (show_hex l n []) \<le> 8"
proof -
  have "n < 16 ^ k \<Longrightarrow> 0 < k \<Longrightarrow> length (show_hex l n acc) \<le> length acc + k" for k and acc :: string
  proof (induction l n acc arbitrary: k rule: show_hex.induct)
    case (1 l n acc)
    show ?case
    proof (cases "n < 16")
      case True
      then show ?thesis
        using 1(3) by (simp add: show_hex.simps [of l n])
    next
      case False
      then have "k \<noteq> 1"
        using 1(2) by auto
      then obtain j where k: "k = Suc j" "0 < j"
        using 1(3) by (cases k) auto
      then have "n div 16 < 16 ^ j"
        using 1(2) by (simp add: less_mult_imp_div_less mult.commute)
      then show ?thesis
        using 1(1) [OF refl False _ k(2)] False k by (simp add: show_hex.simps [of l n])
    qed
  qed
  from this [of 8 "[]"] show "n < 2 ^ 32 \<Longrightarrow> length (show_hex l n []) \<le> 8"
    by simp
qed

end
