(* ===== verification/Config.thy ===== *)
theory Config
  imports Decimal Path
begin

text \<open>
  \<^verbatim>\<open>c/config.h\<close> and \<^verbatim>\<open>c/config.c\<close>: the command line of both programs.

  \<open>getopt_results\<close> is what successive calls of the C library's \<open>getopt\<close> return for the
  option string \<open>"h::p::f:o::"\<close> of the source: an argument of \<open>h\<close>, \<open>p\<close> and \<open>o\<close> is
  optional and must be attached (\<open>optarg\<close> is null without one), that of \<open>f\<close> is
  attached or the next word. \<open>Bad\<close> is the result \<open>'?'\<close>. Other words are skipped.
\<close>

section \<open>getopt\<close>

datatype opt = Opt char "string option" | Bad

definition optional_arg :: "char \<Rightarrow> bool" where
  "optional_arg c \<longleftrightarrow> c = CHR ''h'' \<or> c = CHR ''p'' \<or> c = CHR ''o''"

fun scan_word :: "string \<Rightarrow> string list \<Rightarrow> opt list \<times> string list" where
  "scan_word [] args = ([], args)"
| "scan_word (c # cs) args =
     (if optional_arg c then ([Opt c (if cs = [] then None else Some cs)], args)
      else if c = CHR ''f'' then
        (if cs \<noteq> [] then ([Opt c (Some cs)], args)
         else case args of
                [] \<Rightarrow> ([Bad], [])
              | a # args' \<Rightarrow> ([Opt c (Some a)], args'))
      else case scan_word cs args of (os, rest) \<Rightarrow> (Bad # os, rest))"

lemma scan_word_shorter: "length (snd (scan_word s args)) \<le> length args"
  by (induction s args rule: scan_word.induct) (auto split: list.splits prod.splits)

function getopt_results :: "string list \<Rightarrow> opt list" where
  "getopt_results [] = []"
| "getopt_results (a # args) =
     (if a = ''--'' then []
      else if length a \<ge> 2 \<and> hd a = CHR ''-''
      then let r = scan_word (tl a) args in fst r @ getopt_results (snd r)
      else getopt_results args)"
  by pat_completeness auto
termination
  by (relation "measure length") (auto simp: le_imp_less_Suc scan_word_shorter)

section \<open>The parameters\<close>

definition CFG_MAXLEN :: nat where
  "CFG_MAXLEN = 256"

definition HOST :: string where
  "HOST = ''127.0.0.1''"

definition PORT :: "16 word" where
  "PORT = 9000"

record parameter =
  port :: "16 word"
  host :: "char list"
  infile :: "char list"
  outfile :: "char list"

definition wf_parameter :: "parameter \<Rightarrow> bool" where
  "wf_parameter p \<longleftrightarrow>
     length (host p) = 50 \<and> length (infile p) = CFG_MAXLEN \<and> length (outfile p) = CFG_MAXLEN"

text \<open>Objects with static storage start out as zeros.\<close>

definition zero_parameter :: parameter where
  "zero_parameter = \<lparr>port = 0, host = replicate 50 NUL, infile = replicate CFG_MAXLEN NUL,
     outfile = replicate CFG_MAXLEN NUL\<rparr>"

text \<open>
  One pass of the loop's switch, on the parameters and \<open>opterr\<close>. A null \<open>optarg\<close> is
  read through by \<open>snprintf("%s")\<close> and by \<open>atoi\<close>.
\<close>

fun parse_opt :: "opt \<Rightarrow> parameter \<times> int \<Rightarrow> (parameter \<times> int) result" where
  "parse_opt (Opt c optarg) (p, opterr) =
     (if c = CHR ''h'' then
        (case optarg of
           None \<Rightarrow> Inl NullPointer
         | Some a \<Rightarrow> rbind (snprintf_s (host p) 50 a) (\<lambda>b. Inr (p\<lparr>host := b\<rparr>, opterr)))
      else if c = CHR ''p'' then
        (case optarg of
           None \<Rightarrow> Inl NullPointer
         | Some a \<Rightarrow> Inr (p\<lparr>port := ucast (atoi a)\<rparr>, opterr))
      else if c = CHR ''f'' then
        (case optarg of
           None \<Rightarrow> Inl NullPointer
         | Some a \<Rightarrow>
             rbind (snprintf_s (infile p) CFG_MAXLEN a) (\<lambda>b.
             rbind (basename b) (\<lambda>(s, b').
             rbind (strcpy (outfile p) 0 s) (\<lambda>out.
               Inr (p\<lparr>infile := b', outfile := out\<rparr>, opterr)))))
      else if c = CHR ''o'' then
        (case optarg of
           None \<Rightarrow> Inl NullPointer
         | Some a \<Rightarrow> rbind (snprintf_s (outfile p) CFG_MAXLEN a) (\<lambda>b. Inr (p\<lparr>outfile := b\<rparr>, opterr)))
      else Inr (p, 1))"
| "parse_opt Bad (p, opterr) = Inr (p, 1)"

fun parse_loop :: "opt list \<Rightarrow> parameter \<times> int \<Rightarrow> (parameter \<times> int) result" where
  "parse_loop [] s = Inr s"
| "parse_loop (x # xs) s = rbind (parse_opt x s) (parse_loop xs)"

text \<open>The result is the value of \<open>opterr\<close> at the end: 0, or 1 after a bad option.\<close>

definition parse_commandline :: "parameter \<Rightarrow> string list \<Rightarrow> (parameter \<times> int) result" where
  "parse_commandline p argv =
     rbind (strcpy (host p) 0 HOST) (\<lambda>b.
       parse_loop (getopt_results (tl argv)) (p\<lparr>host := b, port := PORT\<rparr>, 0))"

section \<open>What the options set\<close>

text \<open>
  The contract, on strings: each option sets its value, the later one wins, and \<open>f\<close> sets
  the output name as well.
\<close>

record settings =
  s_port :: nat
  s_host :: string
  s_in :: string
  s_out :: string
  s_bad :: bool

definition abs_parameter :: "parameter \<times> int \<Rightarrow> settings" where
  "abs_parameter = (\<lambda>(p, opterr). \<lparr>s_port = unat (port p), s_host = cstr (host p),
     s_in = cstr (infile p), s_out = cstr (outfile p), s_bad = (opterr \<noteq> 0)\<rparr>)"

fun spec_opt :: "opt \<Rightarrow> settings \<Rightarrow> settings" where
  "spec_opt (Opt c (Some a)) s =
     (if c = CHR ''h'' then s\<lparr>s_host := take 49 a\<rparr>
      else if c = CHR ''p'' then s\<lparr>s_port := unat (ucast (atoi a) :: 16 word)\<rparr>
      else if c = CHR ''f'' then
        s\<lparr>s_in := (let t = take 255 a in if cut_slashes t = [] then t else cut_slashes t),
          s_out := base (take 255 a)\<rparr>
      else if c = CHR ''o'' then s\<lparr>s_out := take 255 a\<rparr>
      else s\<lparr>s_bad := True\<rparr>)"
| "spec_opt x s = s\<lparr>s_bad := True\<rparr>"

definition default_settings :: settings where
  "default_settings =
     \<lparr>s_port = 9000, s_host = ''127.0.0.1'', s_in = '''', s_out = '''', s_bad = False\<rparr>"

fun usable :: "opt \<Rightarrow> bool" where
  "usable (Opt c None) = False"
| "usable (Opt c (Some a)) = (c \<in> {CHR ''h'', CHR ''p'', CHR ''f'', CHR ''o''} \<and> no_nul a)"
| "usable Bad = True"

text \<open>Every buffer of the parameters holds a string.\<close>

definition ok_state :: "parameter \<times> int \<Rightarrow> bool" where
  "ok_state s \<longleftrightarrow> wf_parameter (fst s) \<and> NUL \<in> set (host (fst s))
     \<and> NUL \<in> set (infile (fst s)) \<and> NUL \<in> set (outfile (fst s))"

lemma snprintf_string:
  assumes "length b = cap" and "0 < cap" and "no_nul a"
  shows "\<exists>b'. snprintf_s b cap a = Inr b' \<and> length b' = cap \<and> NUL \<in> set b'
            \<and> cstr b' = take (cap - 1) a"
  using assms by (simp add: snprintf_s_fits cbuf)

lemma basename_string:
  assumes "NUL \<in> set b"
  shows "\<exists>b'. basename b = Inr (base (cstr b), b') \<and> length b' = length b \<and> NUL \<in> set b'
           \<and> cstr b' = (if cut_slashes (cstr b) = [] then cstr b else cut_slashes (cstr b))"
proof (cases "cut_slashes (cstr b) = [] \<or> cut_slashes (cstr b) = cstr b")
  case True
  with assms show ?thesis
    by (auto simp: basename_def read_str_def Let_def)
next
  case False
  let ?t = "cut_slashes (cstr b)"
  obtain r where r: "cstr b = ?t @ r"
    using cut_slashes_prefix by blast
  have lt: "length ?t < length b"
    using length_cut_slashes [of "cstr b"] length_cstr_less [OF assms] by simp
  have "take (length ?t) b = ?t"
  proof -
    have "take (length (cstr b)) b = cstr b"
      by (simp add: cstr_def takeWhile_eq_take [symmetric])
    then have "take (length ?t) (take (length (cstr b)) b) = take (length ?t) (?t @ r)"
      using r by simp
    then show ?thesis
      using length_cut_slashes [of "cstr b"] by (simp add: min_def split: if_splits)
  qed
  then have "b[length ?t := NUL] = ?t @ NUL # drop (Suc (length ?t)) b"
    using lt by (simp add: upd_conv_take_nth_drop)
  moreover have "no_nul ?t"
    using r no_nul_cstr [of b] by (metis no_nul_append)
  ultimately have "cstr (b[length ?t := NUL]) = ?t" and "NUL \<in> set (b[length ?t := NUL])"
    by (simp_all add: cbuf)
  with False assms show ?thesis
    by (simp add: basename_def read_str_def Let_def)
qed

lemma length_base_255: "length (base (take 255 a)) < CFG_MAXLEN"
  using length_base [of "take 255 a"] by (simp add: CFG_MAXLEN_def min_def split: if_splits)

lemma parse_file_option:
  assumes "ok_state (p, e)" and "no_nul a"
  shows "\<exists>b' out. parse_opt (Opt CHR ''f'' (Some a)) (p, e)
            = Inr (p\<lparr>infile := b', outfile := out\<rparr>, e)
      \<and> length b' = CFG_MAXLEN \<and> NUL \<in> set b' \<and> length out = CFG_MAXLEN \<and> NUL \<in> set out
      \<and> cstr out = base (take 255 a)
      \<and> cstr b' = (let t = take 255 a in if cut_slashes t = [] then t else cut_slashes t)"
proof -
  obtain b where b: "snprintf_s (infile p) CFG_MAXLEN a = Inr b" "length b = CFG_MAXLEN"
      "NUL \<in> set b" "cstr b = take 255 a"
    using snprintf_string [of "infile p" CFG_MAXLEN a] assms
    by (auto simp: ok_state_def wf_parameter_def CFG_MAXLEN_def)
  obtain b' where b': "basename b = Inr (base (take 255 a), b')" "length b' = CFG_MAXLEN"
      "NUL \<in> set b'"
      "cstr b' = (if cut_slashes (take 255 a) = [] then take 255 a else cut_slashes (take 255 a))"
    using basename_string [OF b(3)] b(2,4) by auto
  define out where
    "out = base (take 255 a) @ NUL # drop (Suc (length (base (take 255 a)))) (outfile p)"
  have len: "length (outfile p) = CFG_MAXLEN"
    using assms(1) by (simp add: ok_state_def wf_parameter_def)
  then have "strcpy (outfile p) 0 (base (take 255 a)) = Inr out"
    using length_base_255 [of a] by (simp add: strcpy_fits out_def)
  then have "parse_opt (Opt CHR ''f'' (Some a)) (p, e) = Inr (p\<lparr>infile := b', outfile := out\<rparr>, e)"
    using b(1) b'(1) by simp
  moreover have "length out = CFG_MAXLEN" and "NUL \<in> set out" and "cstr out = base (take 255 a)"
    using len length_base_255 [of a] assms(2) by (simp_all add: out_def cbuf no_nul_base)
  ultimately show ?thesis
    using b'(2-4) unfolding Let_def by blast
qed

lemma parse_opt_sim:
  assumes "ok_state s" and "usable x"
  shows "\<exists>s'. parse_opt x s = Inr s' \<and> ok_state s' \<and> abs_parameter s' = spec_opt x (abs_parameter s)"
proof (cases s)
  case (Pair p e)
  show ?thesis
  proof (cases x)
    case Bad
    with assms Pair show ?thesis
      by (simp add: ok_state_def abs_parameter_def)
  next
    case (Opt c optarg)
    then obtain a where a: "optarg = Some a" "no_nul a"
        and c: "c \<in> {CHR ''h'', CHR ''p'', CHR ''f'', CHR ''o''}"
      using assms(2) by (cases optarg) auto
    show ?thesis
    proof (cases "c = CHR ''f''")
      case True
      then show ?thesis
        using parse_file_option [of p e a] assms(1) a Opt Pair
        by (auto simp: ok_state_def wf_parameter_def abs_parameter_def simp del: parse_opt.simps)
    next
      case False
      with c a Opt Pair assms(1) show ?thesis
        using snprintf_string [of "host p" 50 a] snprintf_string [of "outfile p" CFG_MAXLEN a]
        by (auto simp: ok_state_def wf_parameter_def abs_parameter_def CFG_MAXLEN_def)
    qed
  qed
qed

lemma parse_loop_sim:
  "ok_state s \<Longrightarrow> list_all usable xs \<Longrightarrow>
     \<exists>s'. parse_loop xs s = Inr s' \<and> ok_state s' \<and> abs_parameter s' = fold spec_opt xs (abs_parameter s)"
proof (induction xs arbitrary: s)
  case Nil
  then show ?case by simp
next
  case (Cons x xs)
  then obtain t where t: "parse_opt x s = Inr t" "ok_state t"
      "abs_parameter t = spec_opt x (abs_parameter s)"
    using parse_opt_sim [of s x] by auto
  then show ?case
    using Cons.IH [of t] Cons.prems by simp
qed

lemma parse_loop_null:
  "ok_state s \<Longrightarrow> list_all usable xs \<Longrightarrow> optional_arg c \<Longrightarrow>
     parse_loop (xs @ Opt c None # ys) s = Inl NullPointer"
proof (induction xs arbitrary: s)
  case Nil
  then show ?case
    by (cases s) (auto simp: optional_arg_def)
next
  case (Cons x xs)
  then obtain t where "parse_opt x s = Inr t" "ok_state t"
    using parse_opt_sim [of s x] by auto
  with Cons show ?case by simp
qed

text \<open>What \<open>getopt\<close> returns: a bad option, a usable one, or one without its argument.\<close>

definition opt_shape :: "opt \<Rightarrow> bool" where
  "opt_shape x \<longleftrightarrow> usable x \<or> (\<exists>c. x = Opt c None \<and> optional_arg c)"

lemma scan_word_shape:
  "no_nul s \<Longrightarrow> list_all no_nul args \<Longrightarrow>
     list_all opt_shape (fst (scan_word s args)) \<and> list_all no_nul (snd (scan_word s args))"
  by (induction s args rule: scan_word.induct)
    (auto simp: opt_shape_def optional_arg_def split: list.splits prod.splits)

lemma getopt_results_shape: "list_all no_nul args \<Longrightarrow> list_all opt_shape (getopt_results args)"
proof (induction args rule: getopt_results.induct)
  case 1
  then show ?case by simp
next
  case (2 a args)
  have "no_nul (tl a)"
    using "2.prems" by (cases a) simp_all
  then show ?case
    using 2 scan_word_shape [of "tl a" args] by (simp add: Let_def)
qed

lemma ok_start:
  assumes "wf_parameter p" and "NUL \<in> set (infile p)" and "NUL \<in> set (outfile p)"
  shows "\<exists>b. strcpy (host p) 0 HOST = Inr b \<and> cstr b = HOST
           \<and> ok_state (p\<lparr>host := b, port := PORT\<rparr>, 0)"
  using assms
  by (simp add: wf_parameter_def strcpy_fits HOST_def ok_state_def)
    (simp add: cstr_def)

lemma zero_parameter_ok:
  "wf_parameter zero_parameter" "NUL \<in> set (infile zero_parameter)"
  "NUL \<in> set (outfile zero_parameter)"
  by (simp_all add: wf_parameter_def zero_parameter_def CFG_MAXLEN_def)

lemma parse_sim_default:
  assumes "list_all no_nul argv" and "list_all usable (getopt_results (tl argv))"
  shows "\<exists>r. parse_commandline zero_parameter argv = Inr r \<and> ok_state r
           \<and> abs_parameter r = fold spec_opt (getopt_results (tl argv)) default_settings"
proof -
  obtain b where b: "strcpy (host zero_parameter) 0 HOST = Inr b" "cstr b = HOST"
      "ok_state (zero_parameter\<lparr>host := b, port := PORT\<rparr>, 0)"
    using ok_start [OF zero_parameter_ok] by blast
  have "abs_parameter (zero_parameter\<lparr>host := b, port := PORT\<rparr>, 0) = default_settings"
    using b(2) by (simp add: abs_parameter_def default_settings_def zero_parameter_def PORT_def
        HOST_def cbuf)
  then show ?thesis
    using parse_loop_sim [OF b(3) assms(2)] b(1) by (simp add: parse_commandline_def)
qed

section \<open>Properties\<close>

text \<open>C23. Whatever words the command line has, as long as every \<open>h\<close>, \<open>p\<close> and \<open>o\<close> has
  its argument attached, parsing stays inside the four buffers, leaves a string in each,
  and computes what the options say: the defaults, overridden in the order given.\<close>

theorem parse_commandline_refines:
  assumes "list_all no_nul argv" and "list_all usable (getopt_results (tl argv))"
  shows "\<exists>r. parse_commandline zero_parameter argv = Inr r \<and> ok_state r
           \<and> abs_parameter r = fold spec_opt (getopt_results (tl argv)) default_settings"
  using assms by (rule parse_sim_default)

theorem parse_commandline_refines_witness:
  "\<exists>r. parse_commandline zero_parameter [''filecli'', ''-p8080'', ''-f'', ''dir/a.txt''] = Inr r
     \<and> ok_state r
     \<and> abs_parameter r = fold spec_opt
         (getopt_results (tl [''filecli'', ''-p8080'', ''-f'', ''dir/a.txt''])) default_settings"
  by (rule parse_commandline_refines) (simp_all add: optional_arg_def)

text \<open>The converse: an \<open>h\<close>, \<open>p\<close> or \<open>o\<close> without an attached argument, such as
  \<open>-p 9000\<close> in two words, makes the program read through a null pointer, and nothing else
  on the command line does.\<close>

lemma parse_commandline_null_iff:
  assumes "list_all no_nul argv"
  shows "parse_commandline zero_parameter argv = Inl NullPointer
           \<longleftrightarrow> (\<exists>c. Opt c None \<in> set (getopt_results (tl argv)))"
proof
  assume null: "parse_commandline zero_parameter argv = Inl NullPointer"
  have "list_all no_nul (tl argv)"
    using assms by (cases argv) simp_all
  then have shape: "list_all opt_shape (getopt_results (tl argv))"
    by (rule getopt_results_shape)
  have "\<not> list_all usable (getopt_results (tl argv))"
  proof
    assume us: "list_all usable (getopt_results (tl argv))"
    obtain b where b: "strcpy (host zero_parameter) 0 HOST = Inr b"
        "ok_state (zero_parameter\<lparr>host := b, port := PORT\<rparr>, 0)"
      using ok_start [OF zero_parameter_ok] by blast
    with parse_loop_sim [OF b(2) us] null show False
      by (auto simp: parse_commandline_def)
  qed
  with shape show "\<exists>c. Opt c None \<in> set (getopt_results (tl argv))"
    by (auto simp: list_all_iff opt_shape_def)
next
  assume "\<exists>c. Opt c None \<in> set (getopt_results (tl argv))"
  then have "\<exists>x\<in>set (getopt_results (tl argv)). \<not> usable x"
    by (auto intro!: bexI)
  then obtain xs x ys where split: "getopt_results (tl argv) = xs @ x # ys" "\<not> usable x"
      "\<forall>y\<in>set xs. usable y"
    using split_list_first_prop [of "getopt_results (tl argv)" "\<lambda>x. \<not> usable x"] by blast
  have "list_all no_nul (tl argv)"
    using assms by (cases argv) simp_all
  then have "list_all opt_shape (getopt_results (tl argv))"
    by (rule getopt_results_shape)
  with split obtain c where "x = Opt c None" "optional_arg c"
    by (auto simp: opt_shape_def)
  moreover obtain b where b: "strcpy (host zero_parameter) 0 HOST = Inr b"
      "ok_state (zero_parameter\<lparr>host := b, port := PORT\<rparr>, 0)"
    using ok_start [OF zero_parameter_ok] by blast
  ultimately show "parse_commandline zero_parameter argv = Inl NullPointer"
    using parse_loop_null [OF b(2), of xs c ys] split
    by (simp add: parse_commandline_def list_all_iff)
qed

text \<open>A port given in decimal is the port the program uses, for all of the 16-bit range,
  although the field is a signed \<open>short\<close>.\<close>

lemma parse_port_roundtrip:
  assumes "n < 65536"
  shows "\<exists>p. parse_commandline zero_parameter [prog, ''-p'' @ show_nat n] = Inr (p, 0)
           \<and> unat (port p) = n"
proof -
  have res: "getopt_results (tl [prog, ''-p'' @ show_nat n]) = [Opt CHR ''p'' (Some (show_nat n))]"
    by (cases "show_nat n") (simp_all add: optional_arg_def)
  have "unat (ucast (atoi (show_nat n)) :: 16 word) = n"
    using assms by (simp add: atoi_show_nat unsigned_ucast_eq unsigned_of_nat take_bit_eq_mod)
  moreover obtain b where "strcpy (host zero_parameter) 0 HOST = Inr b"
    using ok_start [OF zero_parameter_ok] by blast
  ultimately show ?thesis
    using res by (simp add: parse_commandline_def)
qed

text \<open>\<open>-o\<close> sets the output name only after \<open>-f\<close>: given before it, it is overridden by
  the name of the input file.\<close>

lemma parse_output_order:
  assumes "no_nul i" and "no_nul out" and "i \<noteq> []" and "out \<noteq> []" and "no_nul prog"
  shows "(\<exists>p. parse_commandline zero_parameter [prog, ''-f'' @ i, ''-o'' @ out] = Inr (p, 0)
              \<and> cstr (outfile p) = take 255 out)
       \<and> (\<exists>p. parse_commandline zero_parameter [prog, ''-o'' @ out, ''-f'' @ i] = Inr (p, 0)
              \<and> cstr (outfile p) = base (take 255 i))"
proof -
  let ?f = "Opt CHR ''f'' (Some i)" and ?o = "Opt CHR ''o'' (Some out)"
  have r1: "getopt_results (tl [prog, ''-f'' @ i, ''-o'' @ out]) = [?f, ?o]"
    and r2: "getopt_results (tl [prog, ''-o'' @ out, ''-f'' @ i]) = [?o, ?f]"
    using assms by (auto simp add: optional_arg_def neq_Nil_conv)
  obtain s where s: "parse_commandline zero_parameter [prog, ''-f'' @ i, ''-o'' @ out] = Inr s"
      and "abs_parameter s = fold spec_opt [?f, ?o] default_settings"
    using parse_sim_default [of "[prog, ''-f'' @ i, ''-o'' @ out]"] assms r1 by auto
  then have "\<exists>p. s = (p, 0) \<and> cstr (outfile p) = take 255 out"
    by (cases s) (simp add: abs_parameter_def default_settings_def)
  moreover obtain t where t: "parse_commandline zero_parameter [prog, ''-o'' @ out, ''-f'' @ i] = Inr t"
      and "abs_parameter t = fold spec_opt [?o, ?f] default_settings"
    using parse_sim_default [of "[prog, ''-o'' @ out, ''-f'' @ i]"] assms r2 by auto
  then have "\<exists>p. t = (p, 0) \<and> cstr (outfile p) = base (take 255 i)"
    by (cases t) (simp add: abs_parameter_def default_settings_def)
  ultimately show ?thesis
    using s t by auto
qed

end
