(* ===== verification/Server.thy ===== *)
theory Server
  imports Interface Config
begin

text \<open>
  \<^verbatim>\<open>c/file_serv.c\<close>, the receiver of a file: it asks each connection for the header,
  then for the data, writes the file and says it is done. Its one request status is a
  global of the process; a connection is a bufferevent, which a handler is given and
  gives back.

  \<open>finfo\<close> is a local of \<open>read_cb\<close>. The branch that receives the data reads it without
  setting it, so its initial value, whatever an earlier call left on the stack, is an
  argument of the model (\<open>frame\<close>), and its final value is part of the result.
\<close>

section \<open>State\<close>

record server =
  Status :: RequestType
  sv_world :: world
  sv_exit :: bool

definition server_start :: "world \<Rightarrow> server" where
  "server_start w = \<lparr>Status = INIT, sv_world = w, sv_exit = False\<rparr>"

section \<open>listen\_cb\<close>

definition srv_listen_cb :: "('e, 'b) libevent \<Rightarrow> server \<Rightarrow> int \<Rightarrow> (server \<times> 'b) result" where
  "srv_listen_cb L s listenfd =
     (case bev_socket_new L listenfd of
        None \<Rightarrow> Inl AssertFailed
      | Some bev \<Rightarrow>
          let w = log BindEvents (sv_world s);
              bev = bev_setcb L bev Read_cb No_cb Event_cb;
              bev = bev_enable L bev [EV_READ, EV_WRITE, EV_PERSIST];
              s = s\<lparr>Status := HEAD, sv_world := w\<rparr>;
              bev = bev_write L bev (request_bytes (Status s))
          in Inr (s, bev))"

section \<open>read\_cb\<close>

text \<open>The status is \<open>HEAD\<close>: what has arrived is taken for the header.\<close>

definition read_head :: "('e, 'b) libevent \<Rightarrow> server \<Rightarrow> 'b \<Rightarrow> (server \<times> 'b \<times> fileinfo) result" where
  "read_head L s bev =
     (let finfo = of_image (replicate sizeof_fileinfo NUL);
          data = replicate BUFSIZ NUL;
          (d, bev) = bev_read L bev BUFSIZ;
          n = length d;
          w = log (RecvSize n) (sv_world s)
      in rbind (put data 0 d) (\<lambda>data.
         rbind (decode finfo data n) (\<lambda>finfo.
         rbind (read_str (fi_name finfo)) (\<lambda>name.
           let w = log (RecvInfo name (fi_size finfo)) w;
               s = s\<lparr>Status := DATA, sv_world := w\<rparr>;
               bev = bev_write L bev (request_bytes (Status s))
           in Inr (s, bev, finfo)))))"

text \<open>The status is \<open>DATA\<close>: nothing is done until as many bytes have arrived as announced.\<close>

definition read_data ::
  "('e, 'b) libevent \<Rightarrow> 'c md5 \<Rightarrow> resources \<Rightarrow> server \<Rightarrow> 'b \<Rightarrow> fileinfo \<Rightarrow>
     (server \<times> 'b \<times> fileinfo) result option" where
  "read_data L M res s bev finfo =
     (let w = log RecvFile (sv_world s);
          buf = bev_get_input L bev
      in if of_nat (ev_length L buf) = fi_size finfo
         then
           (let w = log PrepareWrite w
            in if \<not> can_thread res then Some (Inl AssertFailed)
               else map_option (\<lambda>r. rbind r (\<lambda>(w, finfo, buf, ret).
                      let bev = bev_put_input L bev buf;
                          w = log (WriteResult ret) w;
                          (w, status) =
                            (if ret \<noteq> 0 then (log TransferError w, DATA)
                             else (log WriteDone w, FIN));
                          bev = bev_write L bev (request_bytes status)
                      in Inr (s\<lparr>Status := status, sv_world := w\<rparr>, bev, finfo)))
                    (writefile L M w finfo buf (can_alloc res)))
         else Some (Inr (s\<lparr>sv_world := w\<rparr>, bev, finfo)))"

definition srv_read_cb ::
  "('e, 'b) libevent \<Rightarrow> 'c md5 \<Rightarrow> resources \<Rightarrow> server \<Rightarrow> 'b \<Rightarrow> fileinfo \<Rightarrow>
     (server \<times> 'b \<times> fileinfo) result option" where
  "srv_read_cb L M res s bev frame =
     (if Status s = HEAD then Some (read_head L s bev)
      else if Status s = DATA then read_data L M res s bev frame
      else Some (Inr (s, bev, frame)))"

text \<open>The write callback is empty, and not registered.\<close>

definition srv_write_cb :: "server \<Rightarrow> 'b \<Rightarrow> server \<times> 'b" where
  "srv_write_cb s bev = (s, bev)"

section \<open>event\_cb and signal\_cb\<close>

definition srv_event_cb :: "server \<Rightarrow> nat \<Rightarrow> bev_event set \<Rightarrow> server" where
  "srv_event_cb s fd events =
     (if BEV_EVENT_CONNECTED \<in> events then s\<lparr>sv_world := log (SrvConnected fd) (sv_world s)\<rparr>
      else if BEV_EVENT_EOF \<in> events \<or> BEV_EVENT_ERROR \<in> events then
        (let w = (if BEV_EVENT_ERROR \<in> events then log SrvConnError (sv_world s) else sv_world s)
         in s\<lparr>sv_world := log (Disconnected fd) w\<rparr>)
      else s)"

definition srv_signal_cb :: "server \<Rightarrow> server" where
  "srv_signal_cb s = s\<lparr>sv_world := log ServerExit (sv_world s), sv_exit := True\<rparr>"

section \<open>What a call does\<close>

lemma srv_listen_result:
  assumes "srv_listen_cb L s fd = Inr (t, b)" and "libevent_ok L"
  shows "Status t = HEAD" and "sv_world t = log BindEvents (sv_world s)"
    and "in_bytes L b = []" and "out_bytes L b = request_bytes HEAD" and "bev_enabled L b EV_READ"
  using assms(1)
  by (auto simp: srv_listen_cb_def Let_def bufferevent_io_laws [OF assms(2)]
      bufferevent_setup_laws [OF assms(2)] bufferevent_flags_laws [OF assms(2)]
      split: option.splits)

lemma put_front: "length d \<le> n \<Longrightarrow> put (replicate n NUL) 0 d = Inr (d @ replicate (n - length d) NUL)"
  by (simp add: put_def)

lemma read_head_eq:
  assumes "libevent_ok L" and "length (in_bytes L bev) \<le> BUFSIZ"
  shows "read_head L s bev =
    (if sizeof_fileinfo < length (in_bytes L bev) then Inl OutOfBounds
     else
       (let f = of_image (in_bytes L bev @ replicate (sizeof_fileinfo - length (in_bytes L bev)) NUL)
        in if NUL \<notin> set (fi_name f) then Inl OutOfBounds
           else Inr (s\<lparr>Status := DATA, sv_world := log (RecvInfo (cstr (fi_name f)) (fi_size f))
                        (log (RecvSize (length (in_bytes L bev))) (sv_world s))\<rparr>,
                     bev_write L (snd (bev_read L bev BUFSIZ)) (request_bytes DATA), f)))"
proof -
  let ?d = "in_bytes L bev"
  have rd: "bev_read L bev BUFSIZ = (?d, snd (bev_read L bev BUFSIZ))"
    using assms bufferevent_io_laws(1) [OF assms(1), of bev BUFSIZ] by (simp add: prod_eq_iff)
  have "wf_fileinfo (of_image (replicate sizeof_fileinfo NUL))"
    by (rule wf_of_image) simp
  moreover have "image (of_image (replicate sizeof_fileinfo NUL)) = replicate sizeof_fileinfo NUL"
    by (rule image_of_image) simp
  moreover have "drop (length ?d) (replicate sizeof_fileinfo NUL) =
      replicate (sizeof_fileinfo - length ?d) NUL"
    by simp
  ultimately have "decode (of_image (replicate sizeof_fileinfo NUL))
        (?d @ replicate (BUFSIZ - length ?d) NUL) (length ?d) =
      (if length ?d \<le> sizeof_fileinfo
       then Inr (of_image (?d @ replicate (sizeof_fileinfo - length ?d) NUL))
       else Inl OutOfBounds)"
    by (simp add: decode_eq)
  then show ?thesis
    using assms(2) by (subst read_head_def, subst rd)
      (simp add: put_front read_str_def Let_def)
qed

lemma read_head_image:
  assumes "libevent_ok L" and "in_bytes L bev = image f" and "wf_fileinfo f"
    and "NUL \<in> set (fi_name f)"
  shows "read_head L s bev =
     Inr (s\<lparr>Status := DATA, sv_world := log (RecvInfo (cstr (fi_name f)) (fi_size f))
            (log (RecvSize sizeof_fileinfo) (sv_world s))\<rparr>,
          bev_write L (snd (bev_read L bev BUFSIZ)) (request_bytes DATA), f)"
proof -
  have "length (in_bytes L bev) = sizeof_fileinfo"
    using assms by (simp add: length_image)
  moreover have "sizeof_fileinfo \<le> BUFSIZ"
    by (simp add: sizeof_fileinfo_def BUFSIZ_def)
  ultimately show ?thesis
    using assms read_head_eq [OF assms(1), of bev s] by (simp add: of_image_image)
qed

lemma read_data_wait:
  assumes "libevent_ok L" and "of_nat (length (in_bytes L bev)) \<noteq> fi_size f"
  shows "read_data L M res s bev f = Some (Inr (s\<lparr>sv_world := log RecvFile (sv_world s)\<rparr>, bev, f))"
  using assms evbuffer_laws(3) [OF libevent_evbuffer [OF assms(1)]]
  by (simp add: read_data_def in_bytes_def Let_def)

lemma read_data_store:
  assumes L: "libevent_ok L" and M: "md5_ok M"
    and "length (in_bytes L bev) < 2 ^ 64" and "fi_size f = of_nat (length (in_bytes L bev))"
    and "NUL \<in> set (fi_name f)" and "creatable (sv_world s) (base (cstr (fi_name f)))"
    and "length (in_bytes L bev) \<le> room_for (sv_world s) (base (cstr (fi_name f)))"
    and "can_thread res" and "can_alloc res"
  shows "\<exists>s' bev' f'. read_data L M res s bev f = Some (Inr (s', bev', f'))
    \<and> Status s' = FIN \<and> sv_exit s' = sv_exit s
    \<and> files (sv_world s') = (files (sv_world s))(base (cstr (fi_name f)) \<mapsto> in_bytes L bev)
    \<and> in_bytes L bev' = [] \<and> out_bytes L bev' = out_bytes L bev @ request_bytes FIN
    \<and> disk_of (sv_world s') =
        store_file (base (cstr (fi_name f))) (in_bytes L bev) (disk_of (sv_world s))
    \<and> (fi_info f = md5_of M (in_bytes L bev) \<longrightarrow>
        logs (sv_world s') = logs (sv_world s) @ [RecvFile, PrepareWrite, WriteResult 0, WriteDone])"
proof -
  let ?w = "log PrepareWrite (log RecvFile (sv_world s))"
  have len: "ev_length L (bev_get_input L bev) = length (in_bytes L bev)"
    using evbuffer_laws(3) [OF libevent_evbuffer [OF L]] by (simp add: in_bytes_def)
  have "room_for ?w p = room_for (sv_world s) p" for p
    by (simp add: room_for_def file_bytes_def)
  then obtain name' buf' ctx w3 where wf: "writefile L M ?w f (bev_get_input L bev) (can_alloc res)
      = Some (Inr (finish_write M (f\<lparr>fi_name := name'\<rparr>) (length (in_bytes L bev))
          (w3, buf', ctx, of_nat (length (in_bytes L bev)))))"
    and buf': "ev_bytes L buf' = []"
    and w3: "files w3 = (files (sv_world s))(base (cstr (fi_name f)) \<mapsto> in_bytes L bev)"
      "creatable w3 = creatable (sv_world s)"
      "room w3 = room_for (sv_world s) (base (cstr (fi_name f))) - length (in_bytes L bev)"
      "logs w3 = logs (sv_world s) @ [RecvFile, PrepareWrite]"
    and md: "md5_final M ctx = md5_of M (in_bytes L bev)"
    using writefile_result [OF L M assms(5) refl, of ?w "can_alloc res" "bev_get_input L bev"]
      assms(6,7,9)
    by (auto simp: in_bytes_def)
  have same: "mem_eq (md5_final M ctx) (fi_info f) MD5_DIGEST_LENGTH" if "fi_info f = md5_of M (in_bytes L bev)"
    using that md by (simp add: mem_eq_def)
  obtain w4 where fin: "finish_write M (f\<lparr>fi_name := name'\<rparr>) (length (in_bytes L bev))
        (w3, buf', ctx, of_nat (length (in_bytes L bev))) = (w4, f\<lparr>fi_name := name'\<rparr>, buf', 0)"
    and w4: "disk_of w4 = disk_of w3" "fi_info f = md5_of M (in_bytes L bev) \<longrightarrow> logs w4 = logs w3"
    using same
    by (cases "fi_info f = md5_of M (in_bytes L bev)"; cases "mem_eq (md5_final M ctx) (fi_info f) MD5_DIGEST_LENGTH")
      (auto simp: finish_write_def Let_def)
  have "read_data L M res s bev f = Some (Inr
      (s\<lparr>Status := FIN, sv_world := log WriteDone (log (WriteResult 0) w4)\<rparr>,
       bev_write L (bev_put_input L bev buf') (request_bytes FIN), f\<lparr>fi_name := name'\<rparr>))"
    using assms(4,8) by (simp add: read_data_def len wf fin Let_def)
  moreover have "files w4 = files w3" and "disk_of w4 =
      store_file (base (cstr (fi_name f))) (in_bytes L bev) (disk_of (sv_world s))"
    using w3 w4(1) by (simp_all add: disk_of_def store_file_def d_room_for_def room_for_def file_bytes_def split: option.splits)
  ultimately show ?thesis
    using w3(1,4) w4(2) buf' by (simp add: bufferevent_io_laws [OF L])
qed

lemma read_head_overflow:
  assumes "libevent_ok L" and "sizeof_fileinfo < length (in_bytes L bev)"
  shows "read_head L s bev = Inl OutOfBounds"
proof -
  let ?d = "take BUFSIZ (in_bytes L bev)"
  have rd: "bev_read L bev BUFSIZ = (?d, snd (bev_read L bev BUFSIZ))"
    using bufferevent_io_laws(1) [OF assms(1), of bev BUFSIZ] by (simp add: prod_eq_iff)
  have "length ?d \<le> BUFSIZ" "sizeof_fileinfo < length ?d"
    using assms(2) by (simp_all add: sizeof_fileinfo_def BUFSIZ_def)
  moreover have "wf_fileinfo (of_image (replicate sizeof_fileinfo NUL))"
    by (rule wf_of_image) simp
  ultimately show ?thesis
    by (subst read_head_def, subst rd) (auto simp: put_front decode_eq Let_def)
qed

lemma read_head_short:
  assumes "libevent_ok L" and "length (in_bytes L bev) \<le> sizeof_fileinfo"
    and "f = of_image (in_bytes L bev @ replicate (sizeof_fileinfo - length (in_bytes L bev)) NUL)"
  shows "read_head L s bev =
    (if NUL \<notin> set (fi_name f) then Inl OutOfBounds
     else Inr (s\<lparr>Status := DATA, sv_world := log (RecvInfo (cstr (fi_name f)) (fi_size f))
                  (log (RecvSize (length (in_bytes L bev))) (sv_world s))\<rparr>,
               bev_write L (snd (bev_read L bev BUFSIZ)) (request_bytes DATA), f))"
proof -
  have "length (in_bytes L bev) \<le> BUFSIZ"
    using assms(2) by (simp add: sizeof_fileinfo_def BUFSIZ_def)
  then show ?thesis
    using read_head_eq [OF assms(1), of bev s] assms(2,3) by (simp add: Let_def)
qed

text \<open>The bytes of the name after a short header: those received, and zeros.\<close>

lemma short_name:
  "fi_name (of_image (d @ replicate (sizeof_fileinfo - length d) NUL)) =
     take MAXLEN d @ replicate (MAXLEN - length d) NUL" if "length d \<le> sizeof_fileinfo"
  using that by (simp add: of_image_def MAXLEN_def sizeof_fileinfo_def min_def)

lemma short_size:
  assumes "length d \<le> MAXLEN"
  shows "fi_size (of_image (d @ replicate (sizeof_fileinfo - length d) NUL)) = 0"
proof -
  have "take 8 (drop 256 (d @ replicate (sizeof_fileinfo - length d) NUL)) = replicate 8 NUL"
    using assms by (simp add: MAXLEN_def sizeof_fileinfo_def)
  then show ?thesis
    by (simp only: of_image_def fileinfo.select_convs dec64_zeros)
qed

lemma read_head_frame:
  assumes "libevent_ok L" and "read_head L s bev = Inr (t, bev', f)"
  shows "files (sv_world t) = files (sv_world s)" and "Status t = DATA"
    and "out_bytes L bev' = out_bytes L bev @ request_bytes DATA"
proof -
  have le: "length (in_bytes L bev) \<le> sizeof_fileinfo"
    using assms read_head_overflow [OF assms(1), of bev s] by (cases "sizeof_fileinfo < length (in_bytes L bev)") auto
  show "files (sv_world t) = files (sv_world s)" and "Status t = DATA"
    and "out_bytes L bev' = out_bytes L bev @ request_bytes DATA"
    using assms(2) read_head_short [OF assms(1) le refl, of s]
    by (auto simp: bufferevent_io_laws [OF assms(1)] split: if_splits)
qed

lemma srv_read_cases:
  obtains "Status s = HEAD" "srv_read_cb L M res s bev frame = Some (read_head L s bev)"
  | "Status s = DATA" "srv_read_cb L M res s bev frame = read_data L M res s bev frame"
  | "Status s \<notin> {HEAD, DATA}" "srv_read_cb L M res s bev frame = Some (Inr (s, bev, frame))"
  by (cases "Status s") (auto simp: srv_read_cb_def)

lemma read_data_confined:
  assumes "libevent_ok L" and "md5_ok M"
  shows "\<exists>r. read_data L M res s bev f = Some r
    \<and> (\<forall>t bev' f' q. r = Inr (t, bev', f') \<longrightarrow> q \<noteq> base (cstr (fi_name f)) \<longrightarrow>
         files (sv_world t) q = files (sv_world s) q)"
proof -
  let ?w = "log PrepareWrite (log RecvFile (sv_world s))"
  obtain r where r: "writefile L M ?w f (bev_get_input L bev) (can_alloc res) = Some r"
    and frame: "\<forall>w' f' buf' ret q. r = Inr (w', f', buf', ret) \<longrightarrow> q \<noteq> base (cstr (fi_name f)) \<longrightarrow>
        files w' q = files (sv_world s) q"
    using writefile_confined [OF assms, of ?w f "bev_get_input L bev" "can_alloc res"] by auto
  show ?thesis
  proof (cases r)
    case (Inl e)
    then show ?thesis
      using r by (simp add: read_data_def Let_def)
  next
    case (Inr x)
    then obtain w' f' buf' ret where x: "r = Inr (w', f', buf', ret)"
      by (cases x) auto
    then show ?thesis
      using r frame by (simp add: read_data_def Let_def)
  qed
qed

lemma of_nat_64_eq:
  "m < 2 ^ 64 \<Longrightarrow> n < 2 ^ 64 \<Longrightarrow> (of_nat m :: 64 word) = of_nat n \<longleftrightarrow> m = n"
proof -
  assume "m < 2 ^ 64" and "n < 2 ^ 64"
  then have "unat (of_nat m :: 64 word) = m" and "unat (of_nat n :: 64 word) = n"
    by (simp_all add: unat_of_nat)
  then show ?thesis by metis
qed

text \<open>The disk is too small: the data is asked for again, with nothing of it left.\<close>

lemma read_data_disk_full:
  assumes L: "libevent_ok L" and M: "md5_ok M"
    and len: "length (in_bytes L bev) < 2 ^ 64" and "fi_size f = of_nat (length (in_bytes L bev))"
    and "NUL \<in> set (fi_name f)" and "creatable (sv_world s) (base (cstr (fi_name f)))"
    and room: "room_for (sv_world s) (base (cstr (fi_name f))) < length (in_bytes L bev)"
    and "can_thread res" and "can_alloc res"
  shows "\<exists>s' bev' f'. read_data L M res s bev f = Some (Inr (s', bev', f'))
    \<and> Status s' = DATA
    \<and> files (sv_world s') = (files (sv_world s))(base (cstr (fi_name f)) \<mapsto>
        take (room_for (sv_world s) (base (cstr (fi_name f)))) (in_bytes L bev))
    \<and> in_bytes L bev' = [] \<and> out_bytes L bev' = out_bytes L bev @ request_bytes DATA"
proof -
  let ?w = "log PrepareWrite (log RecvFile (sv_world s))"
  let ?r = "room_for (sv_world s) (base (cstr (fi_name f)))"
  have evlen: "ev_length L (bev_get_input L bev) = length (in_bytes L bev)"
    using evbuffer_laws(3) [OF libevent_evbuffer [OF L]] by (simp add: in_bytes_def)
  have "room_for ?w p = room_for (sv_world s) p" for p
    by (simp add: room_for_def file_bytes_def)
  then obtain name' buf' ctx w3 where wf: "writefile L M ?w f (bev_get_input L bev) (can_alloc res)
      = Some (Inr (finish_write M (f\<lparr>fi_name := name'\<rparr>) (length (in_bytes L bev))
          (w3, buf', ctx, of_nat ?r)))"
    and buf': "ev_bytes L buf' = []"
    and w3: "files w3 = (files (sv_world s))(base (cstr (fi_name f)) \<mapsto> take ?r (in_bytes L bev))"
    using writefile_result [OF L M assms(5) refl, of ?w "can_alloc res" "bev_get_input L bev"]
      assms(6,7,9)
    by (auto simp: in_bytes_def min_def)
  have "(of_nat ?r :: 64 word) \<noteq> of_nat (length (in_bytes L bev))"
    using len room by (simp add: of_nat_64_eq)
  then obtain w4 where fin: "finish_write M (f\<lparr>fi_name := name'\<rparr>) (length (in_bytes L bev))
        (w3, buf', ctx, of_nat ?r) = (w4, f\<lparr>fi_name := name'\<rparr>, buf', 1)"
    and w4: "files w4 = files w3"
    by (auto simp: finish_write_def Let_def)
  have "read_data L M res s bev f = Some (Inr
      (s\<lparr>Status := DATA, sv_world := log TransferError (log (WriteResult 1) w4)\<rparr>,
       bev_write L (bev_put_input L bev buf') (request_bytes DATA), f\<lparr>fi_name := name'\<rparr>))"
    using assms(4,8) by (simp add: read_data_def evlen wf fin Let_def)
  then show ?thesis
    using w3 w4 buf' by (simp add: bufferevent_io_laws [OF L])
qed

section \<open>Properties\<close>

text \<open>C15. While the server waits for a header, what has arrived makes \<open>read_cb\<close> leave its
  objects in two cases and no other: more than the 280 bytes of a header, which \<open>decode\<close>
  copies past the end of \<open>finfo\<close>, or 256 first bytes without a NUL, a name that is then
  read as a string. Neither is checked for.\<close>

theorem srv_head_fault_iff:
  assumes "libevent_ok L" and "Status s = HEAD"
  shows "srv_read_cb L M res s bev frame = Some (Inl OutOfBounds) \<longleftrightarrow>
    sizeof_fileinfo < length (in_bytes L bev)
    \<or> (MAXLEN \<le> length (in_bytes L bev) \<and> no_nul (take MAXLEN (in_bytes L bev)))"
proof (cases "sizeof_fileinfo < length (in_bytes L bev)")
  case True
  then show ?thesis
    using assms read_head_overflow [OF assms(1)] by (simp add: srv_read_cb_def)
next
  case False
  let ?d = "in_bytes L bev"
  have le: "length ?d \<le> sizeof_fileinfo"
    using False by simp
  have "NUL \<in> set (take MAXLEN ?d @ replicate (MAXLEN - length ?d) NUL) \<longleftrightarrow>
      \<not> (MAXLEN \<le> length ?d \<and> no_nul (take MAXLEN ?d))"
    by (auto simp: no_nul_def)
  then show ?thesis
    using assms(2) False read_head_short [OF assms(1) le refl, of s] short_name [OF le]
    by (auto simp: srv_read_cb_def)
qed

theorem srv_head_fault_iff_witness:
  "srv_read_cb list_libevent head_md5 sample_res ((server_start sample_world)\<lparr>Status := HEAD\<rparr>)
      (sample_bev (replicate 300 CHR ''x'')) (sample_header []) = Some (Inl OutOfBounds) \<longleftrightarrow>
    sizeof_fileinfo < length (in_bytes list_libevent (sample_bev (replicate 300 CHR ''x'')))
    \<or> (MAXLEN \<le> length (in_bytes list_libevent (sample_bev (replicate 300 CHR ''x'')))
       \<and> no_nul (take MAXLEN (in_bytes list_libevent (sample_bev (replicate 300 CHR ''x'')))))"
  by (rule srv_head_fault_iff [OF list_libevent_ok]) simp

text \<open>At most one file differs, and its path is the root or has no slash.\<close>

fun one_file_changed :: "server \<Rightarrow> (server \<times> 'b \<times> fileinfo) result \<Rightarrow> bool" where
  "one_file_changed s (Inl e) = True"
| "one_file_changed s (Inr (t, bev, f)) = (\<exists>p. (p = ''/'' \<or> CHR ''/'' \<notin> set p)
     \<and> (\<forall>q. q \<noteq> p \<longrightarrow> files (sv_world t) q = files (sv_world s) q))"

text \<open>Whatever bytes have arrived and whatever \<open>finfo\<close> holds, \<open>read_cb\<close> returns or
  faults, and when it returns it has changed at most one file, whose path is the root or
  has no slash: a peer cannot name a file outside the server's directory.\<close>

lemma srv_read_cb_confined:
  assumes "libevent_ok L" and "md5_ok M"
  shows "\<exists>r. srv_read_cb L M res s bev frame = Some r \<and> one_file_changed s r"
proof (rule srv_read_cases [of s L M res bev frame])
  assume "srv_read_cb L M res s bev frame = Some (read_head L s bev)"
  moreover have "one_file_changed s (read_head L s bev)"
    using read_head_frame(1) [OF assms(1), of s bev]
    by (cases "read_head L s bev") (auto intro: exI [of _ "''/''"])
  ultimately show ?thesis by blast
next
  assume eq: "srv_read_cb L M res s bev frame = read_data L M res s bev frame"
  let ?p = "base (cstr (fi_name frame))"
  have p: "?p = ''/'' \<or> CHR ''/'' \<notin> set ?p"
    by (rule base_no_slash)
  obtain r where r: "read_data L M res s bev frame = Some r"
    and keep: "\<forall>t bev' f' q. r = Inr (t, bev', f') \<longrightarrow> q \<noteq> ?p \<longrightarrow>
         files (sv_world t) q = files (sv_world s) q"
    using read_data_confined [OF assms, of res s bev frame] by blast
  have "one_file_changed s r"
    using p keep by (cases r) (auto intro: exI [of _ ?p])
  with eq r show ?thesis by simp
next
  assume "srv_read_cb L M res s bev frame = Some (Inr (s, bev, frame))"
  then show ?thesis by auto
qed

text \<open>The branch that receives the data uses \<open>finfo\<close>, a local it has not set. What the
  header said has no part in it: on the same bytes, the server stores them under the name
  that happens to be there when the size that happens to be there is their number, and
  otherwise waits on.\<close>

lemma srv_data_trusts_frame:
  assumes "libevent_ok L" and "md5_ok M" and "Status s = DATA"
    and "length (in_bytes L bev) < 2 ^ 64" and "can_thread res" and "can_alloc res"
    and "fi_size f = of_nat (length (in_bytes L bev))" and "NUL \<in> set (fi_name f)"
    and "creatable (sv_world s) (base (cstr (fi_name f)))"
    and "length (in_bytes L bev) \<le> room_for (sv_world s) (base (cstr (fi_name f)))"
    and "fi_size g \<noteq> of_nat (length (in_bytes L bev))"
  shows "(\<exists>t bev' f'. srv_read_cb L M res s bev f = Some (Inr (t, bev', f')) \<and> Status t = FIN
           \<and> files (sv_world t) = (files (sv_world s))(base (cstr (fi_name f)) \<mapsto> in_bytes L bev))
       \<and> srv_read_cb L M res s bev g =
           Some (Inr (s\<lparr>sv_world := log RecvFile (sv_world s)\<rparr>, bev, g))"
proof -
  have eq: "srv_read_cb L M res s bev x = read_data L M res s bev x" for x
    using assms(3) by (simp add: srv_read_cb_def)
  show ?thesis
    unfolding eq using read_data_store [OF assms(1,2,4,7,8,9,10,5,6)]
      read_data_wait [OF assms(1) not_sym [OF assms(11)], of M res s] by blast
qed

text \<open>C39. The request status belongs to the process and not to a connection: accepting
  another client turns it back to \<open>HEAD\<close>, and the data of the first, if there are more
  than 280 bytes of it, are then copied over a header.\<close>

theorem srv_status_shared:
  assumes "libevent_ok L" and "srv_listen_cb L s fd = Inr (t, second)"
    and "sizeof_fileinfo < length (in_bytes L first)"
  shows "srv_read_cb L M res t first frame = Some (Inl OutOfBounds)"
  using srv_listen_result(1) [OF assms(2,1)] read_head_overflow [OF assms(1,3)]
  by (simp add: srv_read_cb_def)

theorem srv_status_shared_witness:
  "srv_read_cb list_libevent head_md5 sample_res
     (fst (projr (srv_listen_cb list_libevent ((server_start sample_world)\<lparr>Status := DATA\<rparr>) 8)))
     (sample_bev (replicate 1000 CHR ''x'')) (sample_header []) = Some (Inl OutOfBounds)"
  by (rule srv_status_shared [OF list_libevent_ok, of "(server_start sample_world)\<lparr>Status := DATA\<rparr>" 8
        _ "snd (projr (srv_listen_cb list_libevent ((server_start sample_world)\<lparr>Status := DATA\<rparr>) 8))"])
    (simp_all add: srv_listen_cb_def list_libevent_def Let_def in_bytes_def ev_bytes_def
      sizeof_fileinfo_def)

text \<open>A connection as long as no other is accepted: bytes arrive and \<open>read_cb\<close> is called.\<close>

inductive srv_step ::
  "('e, 'b) libevent \<Rightarrow> 'c md5 \<Rightarrow> resources \<Rightarrow> server \<times> 'b \<Rightarrow> server \<times> 'b \<Rightarrow> bool"
  for L M res where
  arrival: "srv_read_cb L M res s (bev_receive L bev d) frame = Some (Inr (t, bev', f)) \<Longrightarrow>
     srv_step L M res (s, bev) (t, bev')"

inductive_cases srv_stepE: "srv_step L M res (s, bev) x"

lemma status_order [simp]: "INIT \<le> r" "r \<le> FIN" "HEAD \<le> DATA" "DATA \<le> FIN"
  by (cases r; simp add: less_eq_RequestType_def request_value.simps)+

lemma srv_read_cb_status:
  assumes "srv_read_cb L M res s bev frame = Some (Inr (t, bev', f))"
  shows "Status s \<le> Status t \<and> (Status s = FIN \<longrightarrow> t = s)"
  using assms
  by (auto simp: srv_read_cb_def read_head_def read_data_def rbind_eq_Inr Let_def split: if_splits prod.splits)

text \<open>C14. Without another connection the server only moves forward, from HEAD over DATA to FIN,
  whatever arrives and in whatever pieces, and writes nothing more once it is done.\<close>

theorem srv_status_forward:
  assumes "(srv_step L M res)\<^sup>*\<^sup>* (s, bev) (t, bev')"
  shows "Status s \<le> Status t \<and> (Status s < FIN \<or> files (sv_world t) = files (sv_world s))"
proof -
  have "Status s \<le> Status (fst x) \<and> (Status s = FIN \<longrightarrow> fst x = s)" if "(srv_step L M res)\<^sup>*\<^sup>* (s, bev) x" for x
    using that
  proof (induction rule: rtranclp_induct)
    case base
    then show ?case by simp
  next
    case (step y z)
    then show ?case
      by (cases y; auto elim!: srv_stepE dest!: srv_read_cb_status intro: order_trans)
  qed
  from this [OF assms] show ?thesis
    by (auto simp: less_le)
qed

theorem srv_status_forward_witness:
  "\<exists>t bev'. (srv_step list_libevent head_md5 sample_res)\<^sup>*\<^sup>*
       ((server_start sample_world)\<lparr>Status := HEAD\<rparr>, sample_bev []) (t, bev') \<and> Status t = DATA
     \<and> HEAD \<le> Status t
     \<and> (HEAD < FIN \<or> files (sv_world t) = files (sv_world ((server_start sample_world)\<lparr>Status := HEAD\<rparr>)))"
proof -
  let ?s = "(server_start sample_world)\<lparr>Status := HEAD\<rparr>" and ?h = "sample_header ''a.txt''"
  let ?b = "bev_receive list_libevent (sample_bev []) (image ?h)"
  have "in_bytes list_libevent ?b = image ?h"
    using bufferevent_io_laws(11) [OF list_libevent_ok, of "sample_bev []"] by simp
  then have "\<exists>t bev'. Status t = DATA
      \<and> srv_read_cb list_libevent head_md5 sample_res ?s ?b ?h = Some (Inr (t, bev', ?h))"
    using read_head_image [OF list_libevent_ok, of ?b ?h ?s] by (simp add: srv_read_cb_def)
  then obtain t bev' where t: "Status t = DATA"
      "srv_read_cb list_libevent head_md5 sample_res ?s ?b ?h = Some (Inr (t, bev', ?h))"
    by blast
  then have run: "(srv_step list_libevent head_md5 sample_res)\<^sup>*\<^sup>* (?s, sample_bev []) (t, bev')"
    by (intro r_into_rtranclp arrival)
  show ?thesis
    using srv_status_forward [OF run] run t(1) by auto
qed

end
