(* ===== verification/Delivery.thy ===== *)
theory Delivery
  imports Server
begin

text \<open>
  How the server takes the data: what one call of \<open>read_cb\<close> makes of the bytes that have
  arrived, on every branch, and that it does not matter in which pieces they arrive. An
  outcome is what can be seen of a call: the fault, or the status, the disk and the bytes
  in the two buffers of the connection (the log, which has a line for each piece, is not).
\<close>

definition outcome ::
  "('e, 'b) libevent \<Rightarrow> (server \<times> 'b \<times> fileinfo) result
     \<Rightarrow> fault + RequestType \<times> (string \<Rightarrow> char list option) \<times> char list \<times> char list" where
  "outcome L r =
     (case r of
        Inl e \<Rightarrow> Inl e
      | Inr (s, bev, f) \<Rightarrow> Inr (Status s, files (sv_world s), in_bytes L bev, out_bytes L bev))"

text \<open>What the data branch is meant to do with the bytes \<open>bs\<close> under the header \<open>f\<close>.\<close>

definition data_outcome ::
  "resources \<Rightarrow> world \<Rightarrow> fileinfo \<Rightarrow> char list \<Rightarrow> char list
     \<Rightarrow> fault + RequestType \<times> (string \<Rightarrow> char list option) \<times> char list \<times> char list" where
  "data_outcome res w f bs sent_before =
     (let p = base (cstr (fi_name f));
          fits = (of_nat (min (length bs) (room_for w p)) :: 64 word) = of_nat (length bs);
          status = (if fits then FIN else DATA)
      in if of_nat (length bs) \<noteq> fi_size f then Inr (DATA, files w, bs, sent_before)
         else if \<not> can_thread res then Inl AssertFailed
         else if NUL \<notin> set (fi_name f) then Inl OutOfBounds
         else if \<not> (creatable w p \<and> can_alloc res) then Inl AssertFailed
         else Inr (status, (files w)(p \<mapsto> take (room_for w p) bs), [], sent_before @ request_bytes status))"

lemma data_outcome_cong:
  "files w' = files w \<Longrightarrow> creatable w' = creatable w \<Longrightarrow> room w' = room w
     \<Longrightarrow> data_outcome res w' f bs o' = data_outcome res w f bs o'"
  by (simp add: data_outcome_def room_for_def file_bytes_def Let_def)

lemma finish_write_outcome:
  "\<exists>w' f'. finish_write M f len (w, buf, ctx, tot) = (w', f', buf, if tot = of_nat len then 0 else 1)
     \<and> files w' = files w"
  by (auto simp: finish_write_def Let_def)

lemma read_data_stored_outcome:
  assumes L: "libevent_ok L" and M: "md5_ok M"
    and stored: "of_nat (length (in_bytes L bev)) = fi_size f" "can_thread res" "NUL \<in> set (fi_name f)"
      "creatable (sv_world s) (base (cstr (fi_name f)))" "can_alloc res"
  shows "map_option (outcome L) (read_data L M res s bev f)
    = Some (data_outcome res (sv_world s) f (in_bytes L bev) (out_bytes L bev))"
proof -
  let ?w = "log PrepareWrite (log RecvFile (sv_world s))" and ?p = "base (cstr (fi_name f))"
  let ?buf = "bev_get_input L bev" and ?bs = "in_bytes L bev"
  let ?tot = "of_nat (min (length ?bs) (room_for (sv_world s) ?p)) :: 64 word"
  have evlen: "ev_length L ?buf = length ?bs"
    using evbuffer_laws(3) [OF libevent_evbuffer [OF L]] by (simp add: in_bytes_def)
  have room: "room_for ?w p = room_for (sv_world s) p" for p
    by (simp add: room_for_def file_bytes_def)
  obtain name' buf' ctx w3 where wf: "writefile L M ?w f ?buf (can_alloc res) =
        Some (Inr (finish_write M (f\<lparr>fi_name := name'\<rparr>) (length ?bs) (w3, buf', ctx, ?tot)))"
    and buf': "ev_bytes L buf' = []"
    and w3: "files w3 = (files (sv_world s))(?p \<mapsto> take (room_for (sv_world s) ?p) ?bs)"
    using writefile_result [OF L M stored(3) refl, of ?w "can_alloc res" ?buf] stored(4,5)
    by (auto simp: in_bytes_def room)
  obtain w4 f4 where "finish_write M (f\<lparr>fi_name := name'\<rparr>) (length ?bs) (w3, buf', ctx, ?tot) =
        (w4, f4, buf', if ?tot = of_nat (length ?bs) then 0 else 1)" "files w4 = files w3"
    using finish_write_outcome [of M "f\<lparr>fi_name := name'\<rparr>" "length ?bs" w3 buf' ctx ?tot] by blast
  then show ?thesis
    using stored wf w3 buf'
    by (simp add: read_data_def evlen data_outcome_def outcome_def Let_def bufferevent_io_laws [OF L])
qed

lemma read_data_outcome:
  assumes L: "libevent_ok L" and M: "md5_ok M" and s: "Status s = DATA"
  shows "map_option (outcome L) (read_data L M res s bev f)
    = Some (data_outcome res (sv_world s) f (in_bytes L bev) (out_bytes L bev))"
proof -
  let ?w = "log PrepareWrite (log RecvFile (sv_world s))" and ?p = "base (cstr (fi_name f))"
  let ?buf = "bev_get_input L bev" and ?bs = "in_bytes L bev"
  have evlen: "ev_length L ?buf = length ?bs"
    using evbuffer_laws(3) [OF libevent_evbuffer [OF L]] by (simp add: in_bytes_def)
  consider (wait) "of_nat (length ?bs) \<noteq> fi_size f"
    | (thread) "of_nat (length ?bs) = fi_size f" "\<not> can_thread res"
    | (name) "of_nat (length ?bs) = fi_size f" "can_thread res" "NUL \<notin> set (fi_name f)"
    | (failing) "of_nat (length ?bs) = fi_size f" "can_thread res" "NUL \<in> set (fi_name f)"
        "\<not> (creatable (sv_world s) ?p \<and> can_alloc res)"
    | (stored) "of_nat (length ?bs) = fi_size f" "can_thread res" "NUL \<in> set (fi_name f)"
        "creatable (sv_world s) ?p" "can_alloc res"
    by blast
  then show ?thesis
  proof cases
    case wait
    then show ?thesis
      using read_data_wait [OF L wait, of M res s] s by (simp add: data_outcome_def outcome_def)
  next
    case thread
    then show ?thesis
      by (simp add: read_data_def evlen data_outcome_def outcome_def Let_def)
  next
    case name
    then show ?thesis
      using writefile_unterminated [OF name(3), of L M ?w ?buf "can_alloc res"]
      by (simp add: read_data_def evlen data_outcome_def outcome_def Let_def)
  next
    case failing
    then show ?thesis
      using writefile_assert [OF failing(3), of ?w "can_alloc res" L M ?buf]
      by (simp add: read_data_def evlen data_outcome_def outcome_def Let_def)
  next
    case stored
    then show ?thesis
      by (rule read_data_stored_outcome [OF L M])
  qed
qed

section \<open>Data in pieces\<close>

text \<open>The pieces arrive one after the other, and \<open>read_cb\<close> is called for each. What a call finds
  in its uninitialised \<open>finfo\<close> is given with its piece; \<open>left\<close> is what the last call left there.\<close>

fun srv_feed ::
  "('e, 'b) libevent \<Rightarrow> 'c md5 \<Rightarrow> resources \<Rightarrow> server \<Rightarrow> 'b \<Rightarrow> fileinfo \<Rightarrow> (fileinfo \<times> char list) list \<Rightarrow>
     (server \<times> 'b \<times> fileinfo) result option" where
  "srv_feed L M res s bev left [] = Some (Inr (s, bev, left))"
| "srv_feed L M res s bev left ((slot, d) # cs) =
     (case srv_read_cb L M res s (bev_receive L bev d) slot of
        Some (Inr (s', bev', left')) \<Rightarrow> srv_feed L M res s' bev' left' cs
      | r \<Rightarrow> r)"

lemma srv_feed_one: "srv_feed L M res s bev left [(f, d)] = srv_read_cb L M res s (bev_receive L bev d) f"
  by (auto split: option.split sum.split)

lemma srv_feed_outcome:
  assumes L: "libevent_ok L" and M: "md5_ok M"
  shows "Status s = DATA \<Longrightarrow> ds \<noteq> [] \<Longrightarrow> [] \<notin> set ds
     \<Longrightarrow> fi_size f = of_nat (length (in_bytes L bev @ concat ds))
     \<Longrightarrow> length (in_bytes L bev @ concat ds) < 2 ^ 64
     \<Longrightarrow> map_option (outcome L) (srv_feed L M res s bev left (map (Pair f) ds))
       = Some (data_outcome res (sv_world s) f (in_bytes L bev @ concat ds) (out_bytes L bev))"
proof (induction ds arbitrary: s bev left)
  case Nil
  then show ?case by simp
next
  case (Cons d ds)
  let ?bev = "bev_receive L bev d"
  have b: "in_bytes L ?bev = in_bytes L bev @ d" "out_bytes L ?bev = out_bytes L bev"
    by (simp_all add: bufferevent_io_laws [OF L])
  have cb: "srv_read_cb L M res s ?bev f = read_data L M res s ?bev f"
    using Cons.prems(1) by (simp add: srv_read_cb_def)
  show ?case
  proof (cases "ds = []")
    case True
    then show ?thesis
      unfolding True list.map srv_feed_one cb using read_data_outcome [OF L M Cons.prems(1), of res ?bev f] b by simp
  next
    case False
    then have "0 < length (concat ds)"
      using Cons.prems(3) by (cases ds) auto
    then have "of_nat (length (in_bytes L ?bev)) \<noteq> fi_size f"
      using Cons.prems(4,5) b by (simp add: of_nat_64_eq del: of_nat_add)
    then have "srv_read_cb L M res s ?bev f =
        Some (Inr (s\<lparr>sv_world := log RecvFile (sv_world s)\<rparr>, ?bev, f))"
      unfolding cb by (rule read_data_wait [OF L])
    then show ?thesis
      using Cons.IH [of "s\<lparr>sv_world := log RecvFile (sv_world s)\<rparr>" ?bev] Cons.prems False b
      by (simp add: data_outcome_cong [of "log RecvFile (sv_world s)" "sv_world s"])
  qed
qed

section \<open>Properties\<close>



text \<open>C8. The data may arrive in any pieces: the outcome of the calls for all of them, a fault
  included, is that of one call for the whole, if each of the calls finds the header \<open>f\<close> in its
  \<open>finfo\<close>, which it does not set.\<close>

theorem srv_pieces_equivalent:
  assumes "libevent_ok L" and "md5_ok M" and "Status s = DATA" and "in_bytes L bev = []"
    and "fst ` set cs = {f}" and "concat (map snd cs) = bs" and "[] \<notin> snd ` set cs"
    and "fi_size f = of_nat (length bs)" and "length bs < 2 ^ 64"
  shows "map_option (outcome L) (srv_feed L M res s bev left cs)
       = map_option (outcome L) (srv_read_cb L M res s (bev_receive L bev bs) f)"
proof -
  have "cs = map (Pair f) (map snd cs)"
    using assms(5) by (simp add: list_eq_iff_nth_eq) (metis imageI nth_mem prod.collapse singletonD)
  moreover have "map snd cs \<noteq> []"
    using assms(5) by auto
  ultimately have "map_option (outcome L) (srv_feed L M res s bev left cs)
      = Some (data_outcome res (sv_world s) f bs (out_bytes L bev))"
    using srv_feed_outcome [OF assms(1,2,3), of "map snd cs" f bev res left] assms(4,6-9) by simp
  moreover have "map_option (outcome L) (read_data L M res s (bev_receive L bev bs) f)
      = Some (data_outcome res (sv_world s) f bs (out_bytes L bev))"
    using read_data_outcome [OF assms(1-3), of res "bev_receive L bev bs" f] assms(4)
    by (simp add: bufferevent_io_laws [OF assms(1)])
  moreover have "srv_read_cb L M res s (bev_receive L bev bs) f = read_data L M res s (bev_receive L bev bs) f"
    using assms(3) by (simp add: srv_read_cb_def)
  ultimately show ?thesis by metis
qed

theorem srv_pieces_equivalent_witness:
  "map_option (outcome list_libevent) (srv_feed list_libevent head_md5 sample_res
       ((server_start sample_world)\<lparr>Status := DATA\<rparr>) (sample_bev []) (sample_header [])
       (map (Pair ((sample_header ''out'')\<lparr>fi_size := 4\<rparr>)) [''da'', ''t'', ''a'']))
   = map_option (outcome list_libevent) (srv_read_cb list_libevent head_md5 sample_res
       ((server_start sample_world)\<lparr>Status := DATA\<rparr>) (bev_receive list_libevent (sample_bev []) ''data'')
       ((sample_header ''out'')\<lparr>fi_size := 4\<rparr>))"
  by (rule srv_pieces_equivalent [OF list_libevent_ok head_md5_ok]) simp_all

text \<open>C13. The digest of the header is the same whether it is computed a block at a time, as
  \<open>readfile\<close> does, or in one go, as \<open>calc_md5\<close> does: the check that \<open>is_data_correct\<close> makes
  of the bytes against the header \<open>readfile\<close> has filled in succeeds for every file.\<close>

theorem readfile_digest_equivalent:
  assumes "libevent_ok L" and "md5_ok M" and "NUL \<in> set (fi_name f)"
    and "files w (cstr (fi_name f)) = Some bs" and "length bs < 2 ^ 64" and "mem k"
  shows "\<exists>w' f' buf'. readfile L M w f buf = Inr (w', f', buf')
    \<and> calc_md5 M bs (length bs) True = Inr (Some (fi_info f'))
    \<and> is_data_correct M f' bs (of_nat (length bs)) mem = Some (Inr 1)"
proof -
  obtain ds buf' where loop: "read_loop L M bs buf (md5_init M) 0 =
        (buf', foldl (md5_update M) (md5_init M) ds, of_nat (length bs))" and ds: "concat ds = bs"
    using read_loop_result [OF libevent_evbuffer [OF assms(1)], of M bs buf "md5_init M" 0] by auto
  let ?f = "f\<lparr>fi_info := md5_of M bs, fi_size := of_nat (length bs)\<rparr>"
  have "readfile L M w f buf = Inr (w\<lparr>streams := Suc (streams w)\<rparr>, ?f, buf')"
    using assms(3,4) loop ds md5_pieces [OF assms(2), of ds]
    by (simp add: readfile_def read_str_def fopen_rb_def)
  moreover have "calc_md5 M bs (length bs) True = Inr (Some (fi_info ?f))"
    by (simp add: calc_md5_def md5_of_def)
  moreover have "is_data_correct M ?f bs (of_nat (length bs)) mem = Some (Inr 1)"
    using is_data_correct_cases [of ?f bs mem k M "of_nat (length bs)"] assms(5,6)
    by (simp add: unat_of_nat)
  ultimately show ?thesis by blast
qed

theorem readfile_digest_equivalent_witness:
  "\<exists>w' f' buf'. readfile list_libevent head_md5 sample_world (sample_header ''in'') [] = Inr (w', f', buf')
    \<and> calc_md5 head_md5 ''hello'' (length ''hello'') True = Inr (Some (fi_info f'))
    \<and> is_data_correct head_md5 f' ''hello'' (of_nat (length ''hello'')) (\<lambda>k. k = 2) = Some (Inr 1)"
  by (rule readfile_digest_equivalent [where k = 2]) (simp_all add: sample_simps)

end
