(* ===== verification/Serving.thy ===== *)
theory Serving
  imports Server
begin

text \<open>
  The server over its whole life: \<^verbatim>\<open>c/file_serv.c\<close> run by the event loop on any number of
  connections. A step is one thing the loop does: it accepts a connection, gives bytes
  that have arrived to \<open>read_cb\<close>, sends bytes a bufferevent holds, reports an event or
  the signal. What arrives, on which connection and in what order is up to the peers, and
  so is what \<open>finfo\<close> finds on the stack and which resources the system has.

  \<open>conns\<close> are the bufferevents in use, by descriptor, and \<open>sent\<close> the bytes that have left
  for each. No bufferevent is ever freed, so a descriptor is never used again. The loop
  may still run callbacks after the signal: its exit is asked for, not immediate.
\<close>

section \<open>The loop\<close>

record 'b serving =
  sv :: server
  conns :: "nat \<Rightarrow> 'b option"
  sent :: "nat \<Rightarrow> char list"

definition serving_start :: "world \<Rightarrow> 'b serving" where
  "serving_start w = \<lparr>sv = server_start w, conns = (\<lambda>fd. None), sent = (\<lambda>fd. [])\<rparr>"

inductive serving_step ::
  "('e, 'b) libevent \<Rightarrow> 'c md5 \<Rightarrow> 'b serving \<Rightarrow> 'b serving \<Rightarrow> bool"
  for L :: "('e, 'b) libevent" and M :: "'c md5" where
  accept: "conns s fd = None \<Longrightarrow> srv_listen_cb L (sv s) (int fd) = Inr (v, b) \<Longrightarrow>
     serving_step L M s (s\<lparr>sv := v, conns := (conns s)(fd \<mapsto> b)\<rparr>)"
| receive: "conns s fd = Some b \<Longrightarrow>
     srv_read_cb L M res (sv s) (bev_receive L b d) junk = Some (Inr (v, b', f)) \<Longrightarrow>
     serving_step L M s (s\<lparr>sv := v, conns := (conns s)(fd \<mapsto> b')\<rparr>)"
| flush: "conns s fd = Some b \<Longrightarrow> bev_send L b n = (d, b') \<Longrightarrow>
     serving_step L M s (s\<lparr>conns := (conns s)(fd \<mapsto> b'), sent := (sent s)(fd := sent s fd @ d)\<rparr>)"
| event: "conns s fd = Some b \<Longrightarrow> serving_step L M s (s\<lparr>sv := srv_event_cb (sv s) fd events\<rparr>)"
| signal: "serving_step L M s (s\<lparr>sv := srv_signal_cb (sv s)\<rparr>)"

section \<open>What a callback does to the machine\<close>

text \<open>Paths outside the working directory keep their content.\<close>

definition confined :: "world \<Rightarrow> world \<Rightarrow> bool" where
  "confined w w' \<longleftrightarrow> (\<forall>q. q \<noteq> ''/'' \<and> CHR ''/'' \<in> set q \<longrightarrow> files w' q = files w q)"

text \<open>Streams are closed, and a block is kept for each write that failed.\<close>

definition failures :: "world \<Rightarrow> nat" where
  "failures w = count_list (logs w) WriteFileError"

definition accepted :: "world \<Rightarrow> nat" where
  "accepted w = count_list (logs w) BindEvents"

definition balanced :: "world \<Rightarrow> world \<Rightarrow> bool" where
  "balanced w w' \<longleftrightarrow> streams w' = streams w \<and> blocks w' + failures w = blocks w + failures w'"

definition handled :: "world \<Rightarrow> world \<Rightarrow> bool" where
  "handled w w' \<longleftrightarrow> confined w w' \<and> balanced w w' \<and> accepted w' = accepted w"

lemma failures_simps [simp]:
  "failures (log e w) = (if e = WriteFileError then Suc (failures w) else failures w)"
  "failures (fclose w) = failures w" "failures (release w) = failures w"
  by (simp_all add: failures_def)

lemma accepted_simps [simp]:
  "accepted (log e w) = (if e = BindEvents then Suc (accepted w) else accepted w)"
  "accepted (fclose w) = accepted w" "accepted (release w) = accepted w"
  by (simp_all add: accepted_def)

lemma confined_refl [simp]: "confined w w"
  by (simp add: confined_def)

lemma confined_trans: "confined u v \<Longrightarrow> confined v w \<Longrightarrow> confined u w"
  by (simp add: confined_def)

lemma balanced_refl [simp]: "balanced w w"
  by (simp add: balanced_def)

lemma balanced_trans: "balanced u v \<Longrightarrow> balanced v w \<Longrightarrow> balanced u w"
  by (auto simp: balanced_def)

lemma handled_refl [simp]: "handled w w"
  by (simp add: handled_def)

lemma handled_trans: "handled u v \<Longrightarrow> handled v w \<Longrightarrow> handled u w"
  by (auto simp: handled_def intro: confined_trans balanced_trans)

lemma handled_log: "e \<notin> {WriteFileError, BindEvents} \<Longrightarrow> handled w v \<Longrightarrow> handled w (log e v)"
  by (auto simp: handled_def confined_def balanced_def)

lemma log_digests_counts [simp]:
  "failures (log_digests i m w) = failures w" "accepted (log_digests i m w) = accepted w"
  by (simp_all add: failures_def accepted_def logs_log_digests count_list_0_iff) auto

lemma writefile_handled:
  assumes "libevent_ok L" and "md5_ok M" and "writefile L M w f buf mem = Some (Inr (w', f', buf', ret))"
  shows "handled w w'"
proof (cases "NUL \<in> set (fi_name f) \<and> creatable w (base (cstr (fi_name f))) \<and> mem")
  case True
  then obtain name' buf3 ctx w3 tot where fin: "(w', f', buf', ret) =
        finish_write M (f\<lparr>fi_name := name'\<rparr>) (length (ev_bytes L buf)) (w3, buf3, ctx, tot)"
      and w3: "\<And>q. q \<noteq> base (cstr (fi_name f)) \<Longrightarrow> files w3 q = files w q" "streams w3 = Suc (streams w)"
        "blocks w3 = Suc (blocks w)" "logs w3 = logs w"
    using writefile_result [OF assms(1,2), of f _ w mem buf] assms(3) by fastforce
  have "failures w3 = failures w" "accepted w3 = accepted w"
    using w3(4) by (simp_all add: failures_def accepted_def)
  moreover have "confined w w3"
    using w3(1) base_no_slash [of "cstr (fi_name f)"] unfolding confined_def by metis
  ultimately show ?thesis
    using fin w3(2-4)
    by (auto simp: finish_write_def Let_def handled_def balanced_def confined_def
        split: if_splits)
next
  case False
  then show ?thesis
    using writefile_assert [of f w mem L M buf] writefile_unterminated [of f L M w buf mem] assms(3)
    by auto
qed

lemma read_data_handled:
  assumes "libevent_ok L" and "md5_ok M" and "read_data L M res s bev f = Some (Inr (t, bev', f'))"
  shows "handled (sv_world s) (sv_world t)"
    and "\<exists>rs. set rs \<subseteq> {DATA, FIN} \<and> out_bytes L bev' = out_bytes L bev @ concat (map request_bytes rs)"
proof -
  let ?w = "log PrepareWrite (log RecvFile (sv_world s))"
  have start: "handled (sv_world s) ?w" "handled (sv_world s) (log RecvFile (sv_world s))"
    by (simp_all add: handled_log)
  show "handled (sv_world s) (sv_world t)"
    using assms(3) handled_trans [OF start(1) writefile_handled [OF assms(1,2)]] start(2)
    by (auto simp: read_data_def Let_def rbind_eq_Inr handled_log split: if_splits)
  have "\<exists>rs. set rs \<subseteq> {DATA, FIN} \<and> out_bytes L b @ request_bytes r = out_bytes L b @ concat (map request_bytes rs)"
    if "r \<in> {DATA, FIN}" for b and r
    using that by (intro exI [of _ "[r]"]) simp
  moreover have "\<exists>rs. set rs \<subseteq> {DATA, FIN} \<and> out_bytes L b = out_bytes L b @ concat (map request_bytes rs)" for b
    by (intro exI [of _ "[]"]) simp
  ultimately show "\<exists>rs. set rs \<subseteq> {DATA, FIN}
      \<and> out_bytes L bev' = out_bytes L bev @ concat (map request_bytes rs)"
    using assms(3)
    by (auto simp: read_data_def Let_def rbind_eq_Inr bufferevent_io_laws [OF assms(1)] split: if_splits)
qed

lemma read_head_handled:
  assumes "libevent_ok L" and "read_head L s bev = Inr (t, bev', f)"
  shows "handled (sv_world s) (sv_world t)"
  using assms(2) by (auto simp: read_head_def Let_def rbind_eq_Inr handled_log split: prod.splits)

lemma srv_read_handled:
  assumes "libevent_ok L" and "md5_ok M" and "srv_read_cb L M res s bev junk = Some (Inr (t, bev', f))"
  shows "handled (sv_world s) (sv_world t)"
    and "\<exists>rs. set rs \<subseteq> {DATA, FIN} \<and> out_bytes L bev' = out_bytes L bev @ concat (map request_bytes rs)"
proof -
  have "handled (sv_world s) (sv_world t)
    \<and> (\<exists>rs. set rs \<subseteq> {DATA, FIN} \<and> out_bytes L bev' = out_bytes L bev @ concat (map request_bytes rs))"
  proof (rule srv_read_cases [of s L M res bev junk])
    assume "srv_read_cb L M res s bev junk = Some (read_head L s bev)"
    then have h: "read_head L s bev = Inr (t, bev', f)"
      using assms(3) by simp
    show ?thesis
      using read_head_handled [OF assms(1) h] read_head_frame(3) [OF assms(1) h]
      by (auto intro: exI [of _ "[DATA]"])
  next
    assume "srv_read_cb L M res s bev junk = read_data L M res s bev junk"
    then show ?thesis
      using read_data_handled [OF assms(1,2)] assms(3) by metis
  next
    assume "srv_read_cb L M res s bev junk = Some (Inr (s, bev, junk))"
    then show ?thesis
      using assms(3) by (auto intro: exI [of _ "[]"])
  qed
  then show "handled (sv_world s) (sv_world t)"
    and "\<exists>rs. set rs \<subseteq> {DATA, FIN} \<and> out_bytes L bev' = out_bytes L bev @ concat (map request_bytes rs)"
    by blast+
qed

lemma srv_event_handled: "handled (sv_world s) (sv_world (srv_event_cb s fd events))"
  by (simp add: srv_event_cb_def handled_log)

lemma srv_signal_handled: "handled (sv_world s) (sv_world (srv_signal_cb s))"
  by (simp add: srv_signal_cb_def handled_log)

section \<open>What every run keeps\<close>

text \<open>Each connection has been sent HEAD and then DATA or FIN, any number of times, in whole
  words.\<close>

definition talks :: "('e, 'b) libevent \<Rightarrow> 'b serving \<Rightarrow> nat \<Rightarrow> bool" where
  "talks L s fd \<longleftrightarrow>
     (case conns s fd of
        None \<Rightarrow> sent s fd = []
      | Some b \<Rightarrow> \<exists>rs. set rs \<subseteq> {DATA, FIN}
          \<and> sent s fd @ out_bytes L b = concat (map request_bytes (HEAD # rs)))"

definition serving_inv ::
  "('e, 'b) libevent \<Rightarrow> 'c md5 \<Rightarrow> world \<Rightarrow> 'b serving \<Rightarrow> bool" where
  "serving_inv L M w s \<longleftrightarrow> libevent_ok L \<and> md5_ok M
     \<and> confined w (sv_world (sv s)) \<and> balanced w (sv_world (sv s)) \<and> (\<forall>fd. talks L s fd)
     \<and> finite (dom (conns s)) \<and> accepted (sv_world (sv s)) = accepted w + card (dom (conns s))"

lemma talks_other [simp]:
  "fd' \<noteq> fd \<Longrightarrow> talks L (s\<lparr>sv := v, conns := (conns s)(fd := x)\<rparr>) fd' = talks L s fd'"
  "fd' \<noteq> fd \<Longrightarrow> talks L (s\<lparr>conns := (conns s)(fd := x), sent := (sent s)(fd := d)\<rparr>) fd' = talks L s fd'"
  "talks L (s\<lparr>sv := v\<rparr>) fd' = talks L s fd'"
  by (auto simp: talks_def split: option.splits)

lemma serving_inv_handled:
  assumes "serving_inv L M w s" and "handled (sv_world (sv s)) (sv_world v)"
  shows "serving_inv L M w (s\<lparr>sv := v\<rparr>)"
  using assms
  by (auto simp: serving_inv_def handled_def intro: confined_trans balanced_trans)

text \<open>A step on one connection leaves what the others have been told.\<close>

lemma talks_all:
  assumes "serving_inv L M w s" and "talks L t fd" and "\<And>fd'. fd' \<noteq> fd \<Longrightarrow> talks L t fd' = talks L s fd'"
  shows "talks L t fd'"
  using assms by (cases "fd' = fd") (simp_all add: serving_inv_def)

lemma serving_accept_inv:
  assumes inv: "serving_inv L M w s" and fd: "conns s fd = None"
    and v: "srv_listen_cb L (sv s) (int fd) = Inr (v, b)"
    and t: "t = s\<lparr>sv := v, conns := (conns s)(fd \<mapsto> b)\<rparr>"
  shows "serving_inv L M w t"
proof -
  note r = srv_listen_result [OF v]
  have L: "libevent_ok L" and old: "talks L s fd"
    using inv by (simp_all add: serving_inv_def)
  have "talks L t fd"
    using fd r(4) [OF L] old by (auto simp: t talks_def intro!: exI [of _ "[]"])
  then have "talks L t fd'" for fd'
    by (rule talks_all [OF inv]) (simp add: t)
  moreover have "fd \<notin> dom (conns s)" and "dom (conns t) = insert fd (dom (conns s))"
    using fd by (auto simp: t)
  ultimately show ?thesis
    using inv r(2) [OF L] by (simp add: t serving_inv_def confined_def balanced_def)
qed

lemma serving_receive_inv:
  assumes inv: "serving_inv L M w s" and fd: "conns s fd = Some b"
    and v: "srv_read_cb L M res (sv s) (bev_receive L b d) junk = Some (Inr (v, b', f))"
    and t: "t = s\<lparr>sv := v, conns := (conns s)(fd \<mapsto> b')\<rparr>"
  shows "serving_inv L M w t"
proof -
  have L: "libevent_ok L" and M: "md5_ok M" and old: "talks L s fd"
    using inv by (simp_all add: serving_inv_def)
  note h = srv_read_handled [OF L M v]
  obtain rs where rs: "set rs \<subseteq> {DATA, FIN}" "out_bytes L b' = out_bytes L b @ concat (map request_bytes rs)"
    using h(2) by (auto simp: bufferevent_io_laws [OF L])
  obtain rs' where rs': "set rs' \<subseteq> {DATA, FIN}"
      "sent s fd @ out_bytes L b = concat (map request_bytes (HEAD # rs'))"
    using old fd by (auto simp: talks_def)
  have "sent s fd @ out_bytes L b' = concat (map request_bytes (HEAD # rs' @ rs))"
    using rs(2) rs'(2) by (simp flip: append_assoc)
  then have "talks L t fd"
    using fd rs(1) rs'(1) by (auto simp: t talks_def intro!: exI [of _ "rs' @ rs"])
  then have "talks L t fd'" for fd'
    by (rule talks_all [OF inv]) (simp add: t)
  moreover have "dom (conns t) = dom (conns s)"
    using fd by (auto simp: t)
  ultimately show ?thesis
    using serving_inv_handled [OF inv h(1)] by (simp add: t serving_inv_def)
qed

lemma serving_flush_inv:
  assumes inv: "serving_inv L M w s" and fd: "conns s fd = Some b"
    and f: "bev_send L b n = (d, b')"
    and t: "t = s\<lparr>conns := (conns s)(fd \<mapsto> b'), sent := (sent s)(fd := sent s fd @ d)\<rparr>"
  shows "serving_inv L M w t"
proof -
  have L: "libevent_ok L" and old: "talks L s fd"
    using inv by (simp_all add: serving_inv_def)
  have "d @ out_bytes L b' = out_bytes L b"
    using bufferevent_io_laws(13,14) [OF L, of b n] f by simp
  then have "talks L t fd"
    using old fd by (simp add: t talks_def)
  then have "talks L t fd'" for fd'
    by (rule talks_all [OF inv]) (simp add: t)
  moreover have "dom (conns t) = dom (conns s)"
    using fd by (auto simp: t)
  ultimately show ?thesis
    using inv by (simp add: t serving_inv_def)
qed

lemma serving_step_inv:
  assumes "serving_inv L M w s" and "serving_step L M s t"
  shows "serving_inv L M w t"
  using assms(2)
proof cases
  case accept
  then show ?thesis
    using serving_accept_inv [OF assms(1)] by blast
next
  case receive
  then show ?thesis
    using serving_receive_inv [OF assms(1)] by blast
next
  case flush
  then show ?thesis
    using serving_flush_inv [OF assms(1)] by blast
next
  case event
  then show ?thesis
    using serving_inv_handled [OF assms(1) srv_event_handled] by simp
next
  case signal
  then show ?thesis
    using serving_inv_handled [OF assms(1) srv_signal_handled] by simp
qed

lemma serving_start_inv: "libevent_ok L \<Longrightarrow> md5_ok M \<Longrightarrow> serving_inv L M w (serving_start w)"
  by (simp add: serving_inv_def serving_start_def server_start_def talks_def)

interpretation serving: transition_system
  "\<lambda>s. libevent_ok L \<and> md5_ok M \<and> s = serving_start w" "serving_step L M" "serving_inv L M w"
  for L M w
  by unfold_locales (auto intro: serving_start_inv serving_step_inv)

lemma serving_reach:
  assumes "libevent_ok L" and "md5_ok M" and "(serving_step L M)\<^sup>*\<^sup>* (serving_start w) t"
  shows "serving_inv L M w t"
  using serving.reach_inv [OF _ assms(3)] assms(1,2) by blast

section \<open>Properties\<close>

text \<open>A server that has been sent a header on its one connection, for the witnesses.\<close>

definition sample_serving :: "list_bev serving" where
  "sample_serving =
     (let v = (server_start sample_world)\<lparr>Status := HEAD, sv_world := log BindEvents sample_world\<rparr>;
          b = \<lparr>lb_in = [], lb_out = request_bytes HEAD, lb_flags = [EV_READ, EV_WRITE, EV_PERSIST, EV_WRITE]\<rparr>
      in (serving_start sample_world)\<lparr>sv := v, conns := [7 \<mapsto> b]\<rparr>)"

lemma sample_serving_run:
  "\<exists>t b. (serving_step list_libevent head_md5)\<^sup>*\<^sup>* (serving_start sample_world) t
     \<and> Status (sv t) = DATA \<and> conns t 7 = Some b"
proof -
  let ?L = "list_libevent" and ?s = sample_serving and ?h = "sample_header ''/etc/x''"
  have "srv_listen_cb ?L (sv (serving_start sample_world :: list_bev serving)) (int 7)
      = Inr (sv ?s, the (conns ?s 7))"
    by (simp add: srv_listen_cb_def serving_start_def server_start_def list_libevent_def sample_serving_def Let_def)
  then have "serving_step ?L head_md5 (serving_start sample_world)
     ((serving_start sample_world)\<lparr>sv := sv ?s, conns := (conns (serving_start sample_world))(7 \<mapsto> the (conns ?s 7))\<rparr>)"
    by (intro accept) (simp add: serving_start_def)
  then have one: "serving_step ?L head_md5 (serving_start sample_world) ?s"
    by (simp add: sample_serving_def serving_start_def)
  let ?b = "bev_receive ?L (the (conns ?s 7)) (image ?h)"
  have "in_bytes ?L ?b = image ?h"
    using bufferevent_io_laws(11) [OF list_libevent_ok, of "the (conns ?s 7)"] by (simp add: sample_serving_def)
  then obtain t bev' where t: "Status t = DATA"
      "srv_read_cb ?L head_md5 sample_res (sv ?s) ?b ?h = Some (Inr (t, bev', ?h))"
    using read_head_image [OF list_libevent_ok, of ?b ?h "sv ?s"]
    by (fastforce simp: srv_read_cb_def sample_serving_def)
  have "conns ?s 7 = Some (the (conns ?s 7))"
    by (simp add: sample_serving_def)
  then have "serving_step ?L head_md5 ?s (?s\<lparr>sv := t, conns := (conns ?s)(7 \<mapsto> bev')\<rparr>)"
    using t(2) by (rule receive)
  then have "(serving_step ?L head_md5)\<^sup>*\<^sup>* (serving_start sample_world) (?s\<lparr>sv := t, conns := (conns ?s)(7 \<mapsto> bev')\<rparr>)"
    by (meson one converse_rtranclp_into_rtranclp r_into_rtranclp)
  then show ?thesis
    using t(1) by (intro exI conjI) auto
qed

text \<open>C9. However many peers connect and whatever they send, no file outside the server's
  working directory ever changes: a path with a slash in it, other than the root itself,
  has the content it had at the start.\<close>

theorem serving_confined:
  assumes "libevent_ok L" and "md5_ok M" and "(serving_step L M)\<^sup>*\<^sup>* (serving_start w) t"
    and "CHR ''/'' \<in> set q" and "q \<noteq> ''/''"
  shows "files (sv_world (sv t)) q = files w q"
  using serving_reach [OF assms(1-3)] assms(4,5) by (simp add: serving_inv_def confined_def)

theorem serving_confined_witness:
  "\<exists>t. (serving_step list_libevent head_md5)\<^sup>*\<^sup>* (serving_start sample_world) t \<and> Status (sv t) = DATA
     \<and> files (sv_world (sv t)) ''/etc/x'' = files sample_world ''/etc/x''"
proof -
  obtain t where t: "(serving_step list_libevent head_md5)\<^sup>*\<^sup>* (serving_start sample_world) t" "Status (sv t) = DATA"
    using sample_serving_run by blast
  then show ?thesis
    using serving_confined [OF list_libevent_ok head_md5_ok t(1), of "''/etc/x''"] by auto
qed

text \<open>C10. What the server has sent on a connection, together with what waits to be sent, is
  always a sequence of whole request words of which the first is HEAD and every other DATA or
  FIN: no peer and no other connection makes it say anything else.\<close>

theorem serving_speaks_requests:
  assumes "libevent_ok L" and "md5_ok M" and "(serving_step L M)\<^sup>*\<^sup>* (serving_start w) t"
    and "conns t fd = Some b"
  shows "\<exists>rs. set rs \<subseteq> {DATA, FIN} \<and> sent t fd @ out_bytes L b = concat (map request_bytes (HEAD # rs))"
proof -
  have "talks L t fd"
    using serving_reach [OF assms(1-3)] by (simp add: serving_inv_def)
  then show ?thesis
    using assms(4) by (simp add: talks_def)
qed

theorem serving_speaks_requests_witness:
  "\<exists>t b. (serving_step list_libevent head_md5)\<^sup>*\<^sup>* (serving_start sample_world) t \<and> conns t 7 = Some b
     \<and> (\<exists>rs. set rs \<subseteq> {DATA, FIN}
          \<and> sent t 7 @ out_bytes list_libevent b = concat (map request_bytes (HEAD # rs)))"
proof -
  obtain t b where t: "(serving_step list_libevent head_md5)\<^sup>*\<^sup>* (serving_start sample_world) t" "conns t 7 = Some b"
    using sample_serving_run by blast
  then show ?thesis
    using serving_speaks_requests [OF list_libevent_ok head_md5_ok t] by blast
qed

text \<open>C11. What a server holds after any history: no stream it opened, one block for each file
  that did not fit on the disk, and one bufferevent for each connection it ever accepted,
  closed or not.\<close>

theorem serving_holds:
  assumes "libevent_ok L" and "md5_ok M" and "(serving_step L M)\<^sup>*\<^sup>* (serving_start w) t" and "logs w = []"
  shows "streams (sv_world (sv t)) = streams w
    \<and> blocks (sv_world (sv t)) = blocks w + count_list (logs (sv_world (sv t))) WriteFileError
    \<and> card (dom (conns t)) = count_list (logs (sv_world (sv t))) BindEvents"
  using serving_reach [OF assms(1-3)] assms(4)
  by (auto simp: serving_inv_def balanced_def failures_def accepted_def)

theorem serving_holds_witness:
  "\<exists>t. (serving_step list_libevent head_md5)\<^sup>*\<^sup>* (serving_start sample_world) t \<and> Status (sv t) = DATA
    \<and> streams (sv_world (sv t)) = streams sample_world
    \<and> blocks (sv_world (sv t)) = blocks sample_world + count_list (logs (sv_world (sv t))) WriteFileError
    \<and> card (dom (conns t)) = count_list (logs (sv_world (sv t))) BindEvents"
proof -
  obtain t where t: "(serving_step list_libevent head_md5)\<^sup>*\<^sup>* (serving_start sample_world) t" "Status (sv t) = DATA"
    using sample_serving_run by blast
  have "logs sample_world = []"
    by (simp add: sample_world_def)
  then show ?thesis
    using serving_holds [OF list_libevent_ok head_md5_ok t(1)] t by blast
qed

end
