(* ===== verification/Client.thy ===== *)
theory Client
  imports Interface Config
begin

text \<open>
  \<^verbatim>\<open>c/file_client.c\<close>, the sender of a file: it does what the server's requests ask for.
  Its status is overwritten with the bytes it receives, so it is a 32-bit value here and
  not one of the constants. \<open>cl_buf\<close> is the global pointer to the buffer that keeps the
  file between two requests, and \<open>cl_str\<close> the global \<open>__str\<close>.

  \<open>finfo\<close> is a local of \<open>write_cb\<close>; its initial value, of which bytes are sent, is an
  argument (\<open>frame\<close>).
\<close>

section \<open>State\<close>

record 'e client =
  cl_status :: "32 word"
  cl_buf :: "'e pointer"
  cl_para :: parameter
  cl_str :: "char list"
  cl_world :: world
  cl_exit :: bool

definition client_start :: "parameter \<Rightarrow> world \<Rightarrow> 'e client" where
  "client_start p w = \<lparr>cl_status = request_value INIT, cl_buf = Null, cl_para = p,
     cl_str = replicate 5 NUL, cl_world = w, cl_exit = False\<rparr>"

section \<open>write\_cb\<close>

text \<open>
  The request is for the header: the file is read into a new buffer, and the header is
  sent under the output name. The block the header is encoded in, whose bytes \<open>encode\<close>
  all sets, is never freed.
\<close>

definition send_head ::
  "('e, 'b) libevent \<Rightarrow> 'c md5 \<Rightarrow> resources \<Rightarrow> 'e client \<Rightarrow> 'b \<Rightarrow> fileinfo \<Rightarrow>
     ('e client \<times> 'b) result" where
  "send_head L M res c bev frame =
     (let w = log SendInfo (cl_world c);
          buf = ev_new L;
          finfo = frame
      in rbind (read_str (infile (cl_para c))) (\<lambda>path.
         rbind (strcpy (fi_name finfo) 0 path) (\<lambda>name.
         let finfo = finfo\<lparr>fi_name := name\<rparr>
         in if \<not> can_thread res then Inl AssertFailed
            else rbind (readfile L M w finfo buf) (\<lambda>(w, finfo, buf).
              if \<not> can_alloc res then Inl AssertFailed
              else
                let w = alloc w;
                    data = replicate sizeof_fileinfo NUL
                in rbind (read_str (outfile (cl_para c))) (\<lambda>out.
                   rbind (strcpy (fi_name finfo) 0 out) (\<lambda>name.
                   let finfo = finfo\<lparr>fi_name := name\<rparr>
                   in rbind (encode data finfo) (\<lambda>(n, data).
                      rbind (read_str (fi_name finfo)) (\<lambda>name.
                        let w = log (SentInfo name (fi_size finfo)) w;
                            w = log (CheckSize n) w;
                            bev = bev_write L bev (take n data)
                        in Inr (c\<lparr>cl_buf := Live buf, cl_world := w\<rparr>, bev)))))))))"

text \<open>The request is for the data: the buffer is emptied into the connection.\<close>

definition send_data ::
  "('e, 'b) libevent \<Rightarrow> 'e client \<Rightarrow> 'b \<Rightarrow> ('e client \<times> 'b) result" where
  "send_data L c bev =
     (let w = log SendFile (cl_world c)
      in rbind (deref (cl_buf c)) (\<lambda>buf.
           let w = log (FileLength (ev_length L buf)) w;
               (bev, buf) = bev_write_buffer L bev buf
           in Inr (c\<lparr>cl_buf := Live buf, cl_world := w\<rparr>, bev)))"

definition cli_write_cb ::
  "('e, 'b) libevent \<Rightarrow> 'c md5 \<Rightarrow> resources \<Rightarrow> 'e client \<Rightarrow> 'b \<Rightarrow> fileinfo \<Rightarrow>
     ('e client \<times> 'b) result" where
  "cli_write_cb L M res c bev frame =
     (if cl_status c = request_value HEAD then send_head L M res c bev frame
      else if cl_status c = request_value DATA then send_data L c bev
      else Inr (c, bev))"

section \<open>read\_cb\<close>

text \<open>Up to four bytes are read over the status; the rest of it stays what it was.\<close>

definition cli_read_cb ::
  "('e, 'b) libevent \<Rightarrow> 'c md5 \<Rightarrow> resources \<Rightarrow> 'e client \<Rightarrow> 'b \<Rightarrow> fileinfo \<Rightarrow>
     ('e client \<times> 'b) result" where
  "cli_read_cb L M res c bev frame =
     (let (d, bev) = bev_read L bev 4;
          status = dec32 (d @ drop (length d) (enc32 (cl_status c)))
      in rbind (RequestInfo status (cl_str c)) (\<lambda>str.
         rbind (read_str str) (\<lambda>text.
           let c = c\<lparr>cl_status := status, cl_str := str,
                     cl_world := log (RequestLine text) (cl_world c)\<rparr>
           in if status = request_value FIN
              then rbind (deref (cl_buf c)) (\<lambda>_.
                     let c = c\<lparr>cl_buf := Freed, cl_status := request_value INIT\<rparr>;
                         bev = bev_disable L bev [EV_READ, EV_WRITE, EV_PERSIST]
                     in cli_write_cb L M res c bev frame)
              else cli_write_cb L M res c bev frame)))"

section \<open>event\_cb\<close>

text \<open>At the end of the connection the bufferevent is freed.\<close>

definition cli_event_cb :: "'e client \<Rightarrow> 'b \<Rightarrow> nat \<Rightarrow> bev_event set \<Rightarrow> 'e client \<times> 'b pointer" where
  "cli_event_cb c bev fd events =
     (if BEV_EVENT_CONNECTED \<in> events
      then (c\<lparr>cl_world := log (CliConnected fd) (cl_world c)\<rparr>, Live bev)
      else if BEV_EVENT_ERROR \<in> events
      then (c\<lparr>cl_world := log CliConnError (cl_world c), cl_exit := True\<rparr>, Live bev)
      else if BEV_EVENT_EOF \<in> events
      then (c\<lparr>cl_world := log ConnClosed (cl_world c)\<rparr>, Freed)
      else (c, Live bev))"

section \<open>Connecting\<close>

text \<open>What \<open>main\<close> does with the bufferevent once the connection has been asked for.\<close>

definition cli_setup :: "('e, 'b) libevent \<Rightarrow> 'b \<Rightarrow> 'b" where
  "cli_setup L bev =
     (let bev = bev_setcb L bev Read_cb No_cb Event_cb
      in bev_enable L bev [EV_READ, EV_WRITE, EV_PERSIST])"

section \<open>What a call does\<close>

definition para_ok :: "parameter \<Rightarrow> bool" where
  "para_ok p \<longleftrightarrow> ok_state (p, 0)"

lemma para_okD:
  assumes "para_ok p"
  shows "NUL \<in> set (infile p)" and "NUL \<in> set (outfile p)"
    and "length (cstr (infile p)) < MAXLEN" and "length (cstr (outfile p)) < MAXLEN"
  using assms length_cstr_less [of "infile p"] length_cstr_less [of "outfile p"]
  by (simp_all add: para_ok_def ok_state_def wf_parameter_def MAXLEN_def CFG_MAXLEN_def)

text \<open>The header the client sends for a file with content \<open>bs\<close>.\<close>

definition announces :: "'c md5 \<Rightarrow> string \<Rightarrow> char list \<Rightarrow> fileinfo \<Rightarrow> bool" where
  "announces M name bs f \<longleftrightarrow> wf_fileinfo f \<and> NUL \<in> set (fi_name f) \<and> cstr (fi_name f) = name
     \<and> fi_size f = of_nat (length bs) \<and> fi_info f = md5_of M bs"

lemma send_head_result:
  assumes L: "libevent_ok L" and M: "md5_ok M" and p: "para_ok (cl_para c)"
    and fr: "wf_fileinfo frame" and res: "can_thread res" "can_alloc res"
    and bs: "files (cl_world c) (cstr (infile (cl_para c))) = Some bs"
  shows "\<exists>c' f buf. send_head L M res c bev frame = Inr (c', bev_write L bev (image f))
    \<and> announces M (cstr (outfile (cl_para c))) bs f
    \<and> cl_buf c' = Live buf \<and> ev_bytes L buf = bs \<and> cl_status c' = cl_status c
    \<and> cl_para c' = cl_para c \<and> cl_str c' = cl_str c
    \<and> files (cl_world c') = files (cl_world c)
    \<and> streams (cl_world c') = Suc (streams (cl_world c))
    \<and> blocks (cl_world c') = Suc (blocks (cl_world c))
    \<and> logs (cl_world c') = logs (cl_world c)
        @ [SendInfo, SentInfo (cstr (outfile (cl_para c))) (of_nat (length bs)), CheckSize sizeof_fileinfo]"
proof -
  let ?in = "cstr (infile (cl_para c))" and ?out = "cstr (outfile (cl_para c))"
  let ?w = "log SendInfo (cl_world c)"
  note pd = para_okD [OF p]
  have frl: "length (fi_name frame) = MAXLEN" "length (fi_info frame) = MD5_DIGEST_LENGTH"
    using fr by (simp_all add: wf_fileinfo_def)
  define f1 where "f1 = frame\<lparr>fi_name := ?in @ NUL # drop (Suc (length ?in)) (fi_name frame)\<rparr>"
  have c1: "strcpy (fi_name frame) 0 ?in = Inr (fi_name f1)"
    using pd(3) frl by (simp add: strcpy_fits f1_def)
  have name1: "NUL \<in> set (fi_name f1)" "cstr (fi_name f1) = ?in" "length (fi_name f1) = MAXLEN"
    using pd(3) frl by (simp_all add: f1_def cbuf)
  obtain ds buf where loop: "read_loop L M bs (ev_new L) (md5_init M) 0 =
        (buf, foldl (md5_update M) (md5_init M) ds, of_nat (length bs))"
      and ds: "concat ds = bs" and buf: "ev_bytes L buf = bs"
    using read_loop_result [OF libevent_evbuffer [OF L], of M bs "ev_new L" "md5_init M" 0]
      evbuffer_laws(1) [OF libevent_evbuffer [OF L]] by auto
  define f2 where "f2 = f1\<lparr>fi_info := md5_of M bs, fi_size := of_nat (length bs)\<rparr>"
  have rf: "readfile L M ?w f1 (ev_new L) = Inr (?w\<lparr>streams := Suc (streams ?w)\<rparr>, f2, buf)"
    using name1 bs loop md5_pieces [OF M, of ds] ds
    by (simp add: readfile_def read_str_def fopen_rb_def f2_def)
  define f3 where "f3 = f2\<lparr>fi_name := ?out @ NUL # drop (Suc (length ?out)) (fi_name f2)\<rparr>"
  have c3: "strcpy (fi_name f2) 0 ?out = Inr (fi_name f3)"
    using pd(4) name1 by (simp add: strcpy_fits f3_def f2_def)
  have ann: "announces M ?out bs f3"
    using pd(4) name1 frl length_md5_of [OF M, of bs]
    by (simp add: announces_def f3_def f2_def wf_fileinfo_def cbuf MD5_DIGEST_LENGTH_def)
  have sz: "fi_size f2 = of_nat (length bs)"
    by (simp add: f2_def)
  have upd: "f2\<lparr>fi_name := fi_name f3\<rparr> = f3" "frame\<lparr>fi_name := fi_name f1\<rparr> = f1"
    by (simp_all add: f3_def f1_def)
  have enc: "encode (replicate sizeof_fileinfo NUL) f3 = Inr (sizeof_fileinfo, image f3)"
    using ann by (simp add: announces_def encode_eq)
  have tk: "take sizeof_fileinfo (image f3) = image f3"
    using ann by (simp add: announces_def length_image)
  have "send_head L M res c bev frame = Inr
      (c\<lparr>cl_buf := Live buf, cl_world := log (CheckSize sizeof_fileinfo)
          (log (SentInfo ?out (of_nat (length bs))) (alloc (?w\<lparr>streams := Suc (streams ?w)\<rparr>)))\<rparr>,
       bev_write L bev (image f3))"
    using pd(1,2) res ann rf c1 c3
    by (simp add: send_head_def read_str_def upd enc tk announces_def sz Let_def)
  then show ?thesis
    using ann buf by auto
qed

text \<open>A whole request arrives: the status becomes its value.\<close>

lemma cli_read_request:
  assumes "libevent_ok L" and "in_bytes L bev = request_bytes r" and "length (cl_str c) = 5"
  shows "\<exists>c' bev'. length (cl_str c') = 5
    \<and> cl_status c' = request_value r \<and> cl_buf c' = cl_buf c \<and> cl_para c' = cl_para c
    \<and> files (cl_world c') = files (cl_world c) \<and> streams (cl_world c') = streams (cl_world c)
    \<and> blocks (cl_world c') = blocks (cl_world c)
    \<and> logs (cl_world c') = logs (cl_world c) @ [RequestLine (request_name r)]
    \<and> in_bytes L bev' = [] \<and> out_bytes L bev' = out_bytes L bev
    \<and> bev_enabled L bev' = bev_enabled L bev
    \<and> cli_read_cb L M res c bev frame =
        (if r = FIN
         then rbind (deref (cl_buf c)) (\<lambda>_. cli_write_cb L M res
                (c'\<lparr>cl_buf := Freed, cl_status := request_value INIT\<rparr>)
                (bev_disable L bev' [EV_READ, EV_WRITE, EV_PERSIST]) frame)
         else cli_write_cb L M res c' bev' frame)"
proof -
  obtain s where s: "RequestInfo (request_value r) (cl_str c) = Inr s" "length s = 5" "NUL \<in> set s"
      "cstr s = request_name r"
    using RequestInfo_names [OF assms(3)] by blast
  let ?bev = "snd (bev_read L bev 4)"
  let ?c = "c\<lparr>cl_status := request_value r, cl_str := s,
    cl_world := log (RequestLine (cstr s)) (cl_world c)\<rparr>"
  have rd: "bev_read L bev 4 = (request_bytes r, ?bev)"
    using bufferevent_io_laws(1) [OF assms(1), of bev 4] assms(2) by (simp add: prod_eq_iff)
  have "cli_read_cb L M res c bev frame =
      (if r = FIN
       then rbind (deref (cl_buf c)) (\<lambda>_. cli_write_cb L M res
              (?c\<lparr>cl_buf := Freed, cl_status := request_value INIT\<rparr>)
              (bev_disable L ?bev [EV_READ, EV_WRITE, EV_PERSIST]) frame)
       else cli_write_cb L M res ?c ?bev frame)"
    using s(1,3) by (subst cli_read_cb_def, subst rd) (simp add: read_str_def Let_def)
  moreover have "in_bytes L ?bev = []" "out_bytes L ?bev = out_bytes L bev"
    using assms(2) by (simp_all add: bufferevent_io_laws [OF assms(1)])
  moreover have "bev_enabled L ?bev = bev_enabled L bev"
    using bufferevent_flags_laws [OF assms(1)] by blast
  ultimately show ?thesis
    using s(2,4) by (intro exI [of _ ?c] exI [of _ ?bev]) simp
qed

section \<open>Properties\<close>

text \<open>C40. A request for the data that comes before one for the header, and any request for
  the data or end of the transfer after the end of one, are obeyed without a buffer: the
  client dereferences the null pointer, or the buffer it has freed. Which requests a peer
  sends, and how often, decides.\<close>

theorem client_buffer_faults:
  assumes "libevent_ok L" and "in_bytes L bev = request_bytes r" and "length (cl_str c) = 5"
    and "r = DATA \<or> r = FIN"
  shows "case cl_buf c of
           Null \<Rightarrow> cli_read_cb L M res c bev frame = Inl NullPointer
         | Freed \<Rightarrow> cli_read_cb L M res c bev frame = Inl UseAfterFree
         | Live e \<Rightarrow> (\<exists>x. cli_read_cb L M res c bev frame = Inr x)"
proof -
  obtain c' bev' where c': "cl_status c' = request_value r" "cl_buf c' = cl_buf c"
    and read: "cli_read_cb L M res c bev frame =
        (if r = FIN
         then rbind (deref (cl_buf c)) (\<lambda>_. cli_write_cb L M res
                (c'\<lparr>cl_buf := Freed, cl_status := request_value INIT\<rparr>)
                (bev_disable L bev' [EV_READ, EV_WRITE, EV_PERSIST]) frame)
         else cli_write_cb L M res c' bev' frame)"
    using cli_read_request [OF assms(1-3), of M res frame] by blast
  from assms(4) show ?thesis
  proof
    assume "r = FIN"
    with read show ?thesis
      by (cases "cl_buf c") (simp_all add: cli_write_cb_def)
  next
    assume "r = DATA"
    with read c' show ?thesis
      by (cases "cl_buf c") (auto simp: cli_write_cb_def send_data_def Let_def split: prod.splits)
  qed
qed

definition sample_client :: "char list client" where
  "sample_client = client_start zero_parameter sample_world"

theorem client_buffer_faults_witness:
  "case cl_buf sample_client of
     Null \<Rightarrow> cli_read_cb list_libevent head_md5 sample_res sample_client
        (sample_bev (request_bytes DATA)) (sample_header []) = Inl NullPointer
   | Freed \<Rightarrow> cli_read_cb list_libevent head_md5 sample_res sample_client
        (sample_bev (request_bytes DATA)) (sample_header []) = Inl UseAfterFree
   | Live e \<Rightarrow> (\<exists>x. cli_read_cb list_libevent head_md5 sample_res sample_client
        (sample_bev (request_bytes DATA)) (sample_header []) = Inr x)"
  by (rule client_buffer_faults [OF list_libevent_ok, where r = DATA])
    (simp_all add: sample_client_def client_start_def)

end
