(* ===== verification/Session.thy ===== *)
theory Session
  imports Server Client
begin

text \<open>
  One server and one client joined by a connection. libevent's loop moves some of the
  bytes a side has written to the other side's input and calls its read callback: a step
  of the session is one such delivery, of any number of bytes.

  The server's \<open>finfo\<close> is an automatic variable of \<open>read_cb\<close> that no call initialises: what
  a call finds in this slot of its stack is an argument of \<open>server_input\<close>, and a step of
  \<open>session_step\<close> may find anything there. The session also remembers, in \<open>frame\<close>, what the last
  call left in the slot. The steps of \<open>transfer_step\<close> are those in which the next call finds it
  again, and in which the short messages arrive whole: the program relies on both, the
  language and TCP promise neither, and every property of a run of \<open>transfer_step\<close> is a
  property under these two assumptions.
\<close>

section \<open>Sessions\<close>

record ('e, 'b) session =
  srv :: server
  cli :: "'e client"
  sbev :: "'b"
  cbev :: "'b"
  frame :: fileinfo

definition client_input ::
  "('e, 'b) libevent \<Rightarrow> 'c md5 \<Rightarrow> resources \<Rightarrow> nat \<Rightarrow> fileinfo \<Rightarrow> ('e, 'b) session \<Rightarrow>
     ('e, 'b) session result" where
  "client_input L M R k junk s =
     (let (d, sb) = bev_send L (sbev s) k;
          cb = bev_receive L (cbev s) d
      in rbind (cli_read_cb L M R (cli s) cb junk)
           (\<lambda>(c, cb). Inr (s\<lparr>cli := c, sbev := sb, cbev := cb\<rparr>)))"

definition server_input ::
  "('e, 'b) libevent \<Rightarrow> 'c md5 \<Rightarrow> resources \<Rightarrow> nat \<Rightarrow> fileinfo \<Rightarrow> ('e, 'b) session \<Rightarrow>
     ('e, 'b) session result option" where
  "server_input L M R k slot s =
     (let (d, cb) = bev_send L (cbev s) k;
          sb = bev_receive L (sbev s) d
      in map_option
           (\<lambda>r. rbind r (\<lambda>(v, sb, f). Inr (s\<lparr>srv := v, sbev := sb, cbev := cb, frame := f\<rparr>)))
           (srv_read_cb L M R (srv s) sb slot))"

text \<open>Deliveries of any size, with anything on the stacks of the two callbacks.\<close>

inductive session_step ::
  "('e, 'b) libevent \<Rightarrow> 'c md5 \<Rightarrow> resources \<Rightarrow> ('e, 'b) session \<Rightarrow> ('e, 'b) session \<Rightarrow> bool"
  for L :: "('e, 'b) libevent" and M :: "'c md5" and R :: resources where
  client_reads: "0 < k \<Longrightarrow> k \<le> length (out_bytes L (sbev s)) \<Longrightarrow> bev_enabled L (cbev s) EV_READ \<Longrightarrow>
     wf_fileinfo junk \<Longrightarrow> client_input L M R k junk s = Inr t \<Longrightarrow> session_step L M R s t"
| server_reads: "0 < k \<Longrightarrow> k \<le> length (out_bytes L (cbev s)) \<Longrightarrow> bev_enabled L (sbev s) EV_READ \<Longrightarrow>
     wf_fileinfo slot \<Longrightarrow> server_input L M R k slot s = Some (Inr t) \<Longrightarrow> session_step L M R s t"

text \<open>
  Deliveries that keep the short messages whole, the four bytes of a request and the 280 of
  the header, while the data may arrive in any pieces; and in which \<open>read_cb\<close> finds in
  \<open>finfo\<close> what its last call left there.
\<close>

inductive transfer_step ::
  "('e, 'b) libevent \<Rightarrow> 'c md5 \<Rightarrow> resources \<Rightarrow> ('e, 'b) session \<Rightarrow> ('e, 'b) session \<Rightarrow> bool"
  for L :: "('e, 'b) libevent" and M :: "'c md5" and R :: resources where
  request: "out_bytes L (sbev s) \<noteq> [] \<Longrightarrow> bev_enabled L (cbev s) EV_READ \<Longrightarrow> wf_fileinfo junk \<Longrightarrow>
     client_input L M R (length (out_bytes L (sbev s))) junk s = Inr t \<Longrightarrow> transfer_step L M R s t"
| reply: "0 < k \<Longrightarrow> k \<le> length (out_bytes L (cbev s)) \<Longrightarrow>
     (Status (srv s) = HEAD \<longrightarrow> k = length (out_bytes L (cbev s))) \<Longrightarrow>
     bev_enabled L (sbev s) EV_READ \<Longrightarrow>
     server_input L M R k (frame s) s = Some (Inr t) \<Longrightarrow> transfer_step L M R s t"

section \<open>The phases of a transfer\<close>

definition env_ok ::
  "('e, 'b) libevent \<Rightarrow> 'c md5 \<Rightarrow> resources \<Rightarrow> parameter \<Rightarrow> char list \<Rightarrow> bool" where
  "env_ok L M R p bs \<longleftrightarrow> libevent_ok L \<and> md5_ok M \<and> can_thread R \<and> can_alloc R
     \<and> para_ok p \<and> length bs < 2 ^ 64"

definition target :: "parameter \<Rightarrow> string" where
  "target p = base (cstr (outfile p))"

definition server_ready :: "parameter \<Rightarrow> char list \<Rightarrow> ('e, 'b) session \<Rightarrow> bool" where
  "server_ready p bs s \<longleftrightarrow> creatable (sv_world (srv s)) (target p)
     \<and> length bs \<le> room_for (sv_world (srv s)) (target p)"

definition client_ready :: "parameter \<Rightarrow> char list \<Rightarrow> ('e, 'b) session \<Rightarrow> bool" where
  "client_ready p bs s \<longleftrightarrow> cl_para (cli s) = p \<and> length (cl_str (cli s)) = 5
     \<and> files (cl_world (cli s)) (cstr (infile p)) = Some bs"

definition wires ::
  "('e, 'b) libevent \<Rightarrow> ('e, 'b) session \<Rightarrow> char list \<Rightarrow> char list \<Rightarrow> char list \<Rightarrow> char list \<Rightarrow> bool"
  where
  "wires L s sin sout cin cout \<longleftrightarrow> in_bytes L (sbev s) = sin \<and> out_bytes L (sbev s) = sout
     \<and> in_bytes L (cbev s) = cin \<and> out_bytes L (cbev s) = cout"

definition holds_file :: "('e, 'b) libevent \<Rightarrow> ('e, 'b) session \<Rightarrow> char list \<Rightarrow> bool" where
  "holds_file L s bs \<longleftrightarrow> (\<exists>e. cl_buf (cli s) = Live e \<and> ev_bytes L e = bs)"

datatype phase = Ask_head | Head_sent | Ask_data | Streaming | Fin_sent | Done

fun phase_inv ::
  "('e, 'b) libevent \<Rightarrow> 'c md5 \<Rightarrow> parameter \<Rightarrow> char list \<Rightarrow> phase \<Rightarrow> ('e, 'b) session \<Rightarrow> bool" where
  "phase_inv L M p bs Ask_head s \<longleftrightarrow> Status (srv s) = HEAD \<and> server_ready p bs s
     \<and> client_ready p bs s \<and> bev_enabled L (cbev s) EV_READ \<and> bev_enabled L (sbev s) EV_READ
     \<and> cl_buf (cli s) = Null \<and> wires L s [] (request_bytes HEAD) [] []"
| "phase_inv L M p bs Head_sent s \<longleftrightarrow> Status (srv s) = HEAD \<and> server_ready p bs s
     \<and> client_ready p bs s \<and> bev_enabled L (cbev s) EV_READ \<and> bev_enabled L (sbev s) EV_READ
     \<and> holds_file L s bs \<and> (\<exists>f. announces M (cstr (outfile p)) bs f \<and> wires L s [] [] [] (image f))"
| "phase_inv L M p bs Ask_data s \<longleftrightarrow> Status (srv s) = DATA \<and> server_ready p bs s
     \<and> client_ready p bs s \<and> bev_enabled L (cbev s) EV_READ \<and> bev_enabled L (sbev s) EV_READ
     \<and> holds_file L s bs \<and> announces M (cstr (outfile p)) bs (frame s)
     \<and> wires L s [] (request_bytes DATA) [] []"
| "phase_inv L M p bs Streaming s \<longleftrightarrow> Status (srv s) = DATA \<and> server_ready p bs s
     \<and> client_ready p bs s \<and> bev_enabled L (cbev s) EV_READ \<and> bev_enabled L (sbev s) EV_READ
     \<and> holds_file L s [] \<and> announces M (cstr (outfile p)) bs (frame s)
     \<and> (\<exists>d r. bs = d @ r \<and> (r = [] \<longrightarrow> bs = []) \<and> wires L s d [] [] r)"
| "phase_inv L M p bs Fin_sent s \<longleftrightarrow> Status (srv s) = FIN
     \<and> client_ready p bs s \<and> bev_enabled L (cbev s) EV_READ
     \<and> holds_file L s [] \<and> files (sv_world (srv s)) (target p) = Some bs
     \<and> wires L s [] (request_bytes FIN) [] []"
| "phase_inv L M p bs Done s \<longleftrightarrow> Status (srv s) = FIN \<and> \<not> bev_enabled L (cbev s) EV_READ
     \<and> cl_buf (cli s) = Freed \<and> cl_status (cli s) = request_value INIT
     \<and> files (sv_world (srv s)) (target p) = Some bs \<and> wires L s [] [] [] []"

lemmas phase_defs = server_ready_def client_ready_def wires_def holds_file_def target_def

section \<open>What the client logs\<close>

definition head_spoken :: "parameter \<Rightarrow> char list \<Rightarrow> log_event list" where
  "head_spoken p bs = [RequestLine ''HEAD'', SendInfo,
     SentInfo (cstr (outfile p)) (of_nat (length bs)), CheckSize sizeof_fileinfo]"

definition data_spoken :: "char list \<Rightarrow> log_event list" where
  "data_spoken bs = [RequestLine ''DATA'', SendFile, FileLength (length bs)]"

text \<open>All of it, up to a phase.\<close>

fun spoken :: "parameter \<Rightarrow> char list \<Rightarrow> phase \<Rightarrow> log_event list" where
  "spoken p bs Ask_head = []"
| "spoken p bs Head_sent = head_spoken p bs"
| "spoken p bs Ask_data = head_spoken p bs"
| "spoken p bs Streaming = head_spoken p bs @ data_spoken bs"
| "spoken p bs Fin_sent = head_spoken p bs @ data_spoken bs"
| "spoken p bs Done = head_spoken p bs @ data_spoken bs @ [RequestLine ''FIN'']"

definition keeps_up ::
  "parameter \<Rightarrow> char list \<Rightarrow> phase \<Rightarrow> phase \<Rightarrow> ('e, 'b) session \<Rightarrow> ('e, 'b) session \<Rightarrow> bool" where
  "keeps_up p bs ph ph' s t \<longleftrightarrow> (\<forall>l. logs (cl_world (cli s)) = l @ spoken p bs ph \<longrightarrow>
     logs (cl_world (cli t)) = l @ spoken p bs ph')"

lemma keeps_upI:
  "logs (cl_world (cli t)) = logs (cl_world (cli s)) @ d \<Longrightarrow> spoken p bs ph' = spoken p bs ph @ d
     \<Longrightarrow> keeps_up p bs ph ph' s t"
  by (simp add: keeps_up_def)

text \<open>The header is received whatever the slot holds.\<close>

lemma server_input_any_slot:
  "Status (srv s) = HEAD \<Longrightarrow> server_input L M R k slot s = server_input L M R k slot' s"
  by (simp add: server_input_def srv_read_cb_def)

lemma server_input_cli: "server_input L M R k slot s = Some (Inr t) \<Longrightarrow> cli t = cli s"
  by (auto simp: server_input_def Let_def rbind_eq_Inr split: prod.splits)

section \<open>Steps from each phase\<close>

lemma env_okD:
  assumes "env_ok L M R p bs"
  shows "libevent_ok L" and "md5_ok M" and "can_thread R" and "can_alloc R" and "para_ok p"
    and "length bs < 2 ^ 64"
  using assms by (simp_all add: env_ok_def)

text \<open>A whole request reaches the client.\<close>

lemma request_arrives:
  assumes "libevent_ok L" and "wires L s sin (request_bytes r) [] cout"
    and "length (cl_str (cli s)) = 5"
  obtains c bev sb where
    "client_input L M R 4 junk s =
        rbind (if r = FIN
               then rbind (deref (cl_buf (cli s))) (\<lambda>_. cli_write_cb L M R
                      (c\<lparr>cl_buf := Freed, cl_status := request_value INIT\<rparr>)
                      (bev_disable L bev [EV_READ, EV_WRITE, EV_PERSIST]) junk)
               else cli_write_cb L M R c bev junk)
          (\<lambda>(c, cb). Inr (s\<lparr>cli := c, sbev := sb, cbev := cb\<rparr>))"
    "in_bytes L bev = []" "out_bytes L bev = cout"
    "bev_enabled L bev = bev_enabled L (cbev s)"
    "in_bytes L sb = sin" "out_bytes L sb = []" "bev_enabled L sb = bev_enabled L (sbev s)"
    "length (cl_str c) = 5" "cl_status c = request_value r" "cl_buf c = cl_buf (cli s)"
    "cl_para c = cl_para (cli s)" "files (cl_world c) = files (cl_world (cli s))"
    "logs (cl_world c) = logs (cl_world (cli s)) @ [RequestLine (request_name r)]"
proof -
  obtain sb where sb_eq: "snd (bev_send L (sbev s) 4) = sb"
    by simp
  let ?cb = "bev_receive L (cbev s) (request_bytes r)"
  have send: "bev_send L (sbev s) 4 = (request_bytes r, sb)"
    using bufferevent_io_laws(13) [OF assms(1), of "sbev s" 4] assms(2) sb_eq
    by (simp add: prod_eq_iff wires_def)
  have cb: "in_bytes L ?cb = request_bytes r" "out_bytes L ?cb = cout"
      "bev_enabled L ?cb = bev_enabled L (cbev s)"
    using assms(2) bufferevent_flags_laws(7) [OF assms(1)]
    by (simp_all add: bufferevent_io_laws [OF assms(1)] wires_def)
  obtain c' bev' where c': "length (cl_str c') = 5"
      "cl_status c' = request_value r" "cl_buf c' = cl_buf (cli s)" "cl_para c' = cl_para (cli s)"
      "files (cl_world c') = files (cl_world (cli s))"
      "logs (cl_world c') = logs (cl_world (cli s)) @ [RequestLine (request_name r)]"
    and bev': "in_bytes L bev' = []" "out_bytes L bev' = out_bytes L ?cb"
      "bev_enabled L bev' = bev_enabled L ?cb"
    and read: "cli_read_cb L M R (cli s) ?cb junk =
      (if r = FIN
       then rbind (deref (cl_buf (cli s))) (\<lambda>_. cli_write_cb L M R
              (c'\<lparr>cl_buf := Freed, cl_status := request_value INIT\<rparr>)
              (bev_disable L bev' [EV_READ, EV_WRITE, EV_PERSIST]) junk)
       else cli_write_cb L M R c' bev' junk)"
    using cli_read_request [OF assms(1) cb(1) assms(3), of M R junk] by blast
  have sb: "in_bytes L sb = sin" "out_bytes L sb = []" "bev_enabled L sb = bev_enabled L (sbev s)"
    unfolding sb_eq [symmetric]
    using assms(2) bufferevent_flags_laws(8) [OF assms(1)]
    by (simp_all add: bufferevent_io_laws [OF assms(1)] wires_def)
  have bev2: "out_bytes L bev' = cout" "bev_enabled L bev' = bev_enabled L (cbev s)"
    using bev'(2,3) cb(2,3) by simp_all
  have ci: "client_input L M R 4 junk s =
      rbind (if r = FIN
             then rbind (deref (cl_buf (cli s))) (\<lambda>_. cli_write_cb L M R
                    (c'\<lparr>cl_buf := Freed, cl_status := request_value INIT\<rparr>)
                    (bev_disable L bev' [EV_READ, EV_WRITE, EV_PERSIST]) junk)
             else cli_write_cb L M R c' bev' junk)
        (\<lambda>(c, cb). Inr (s\<lparr>cli := c, sbev := sb, cbev := cb\<rparr>))"
    by (simp only: client_input_def send Let_def prod.case read)
  from ci bev'(1) bev2 sb c' show thesis
    by (rule that)
qed

lemma ask_head_step:
  assumes "env_ok L M R p bs" and "phase_inv L M p bs Ask_head s" and "wf_fileinfo junk"
  shows "\<exists>t. client_input L M R 4 junk s = Inr t \<and> phase_inv L M p bs Head_sent t
    \<and> logs (cl_world (cli t)) = logs (cl_world (cli s)) @ head_spoken p bs"
proof -
  note env = env_okD [OF assms(1)]
  have w: "wires L s [] (request_bytes HEAD) [] []" and str: "length (cl_str (cli s)) = 5"
    using assms(2) by (simp_all add: client_ready_def)
  obtain c bev sb where ci: "client_input L M R 4 junk s = rbind (cli_write_cb L M R c bev junk)
        (\<lambda>(c, cb). Inr (s\<lparr>cli := c, sbev := sb, cbev := cb\<rparr>))"
    and c: "in_bytes L bev = []" "out_bytes L bev = []" "bev_enabled L bev = bev_enabled L (cbev s)"
      "in_bytes L sb = []" "out_bytes L sb = []" "bev_enabled L sb = bev_enabled L (sbev s)"
      "length (cl_str c) = 5" "cl_status c = request_value HEAD" "cl_para c = cl_para (cli s)"
      "files (cl_world c) = files (cl_world (cli s))"
      "logs (cl_world c) = logs (cl_world (cli s)) @ [RequestLine ''HEAD'']"
    by (rule request_arrives [OF env(1) w str, of M R junk]) auto
  have ready: "para_ok (cl_para c)" "files (cl_world c) (cstr (infile (cl_para c))) = Some bs"
    using assms(2) env(5) c(9,10) by (simp_all add: client_ready_def)
  obtain c' f buf where sh: "send_head L M R c bev junk = Inr (c', bev_write L bev (image f))"
      "announces M (cstr (outfile (cl_para c))) bs f"
      "cl_buf c' = Live buf" "ev_bytes L buf = bs" "cl_para c' = cl_para c" "cl_str c' = cl_str c"
      "files (cl_world c') = files (cl_world c)"
      "logs (cl_world c') = logs (cl_world c)
        @ [SendInfo, SentInfo (cstr (outfile (cl_para c))) (of_nat (length bs)), CheckSize sizeof_fileinfo]"
    using send_head_result [OF env(1,2) ready(1) assms(3) env(3,4) ready(2), of bev] by blast
  let ?t = "s\<lparr>cli := c', sbev := sb, cbev := bev_write L bev (image f)\<rparr>"
  have "client_input L M R 4 junk s = Inr ?t"
    using ci c(8) sh(1) by (simp add: cli_write_cb_def)
  moreover have "phase_inv L M p bs Head_sent ?t"
    using assms(2) c sh(2-) bufferevent_flags_laws(4) [OF env(1)]
    by (auto simp: phase_defs bufferevent_io_laws [OF env(1)])
  moreover have "logs (cl_world (cli ?t)) = logs (cl_world (cli s)) @ head_spoken p bs"
    using assms(2) c(9,11) sh(8) by (simp add: head_spoken_def client_ready_def)
  ultimately show ?thesis by blast
qed

text \<open>Some bytes reach the server.\<close>

lemma reply_arrives:
  assumes "libevent_ok L"
  obtains sb cb where
    "server_input L M R k (frame s) s = map_option
       (\<lambda>r. rbind r (\<lambda>(v, sb, f). Inr (s\<lparr>srv := v, sbev := sb, cbev := cb, frame := f\<rparr>)))
       (srv_read_cb L M R (srv s) sb (frame s))"
    "in_bytes L sb = in_bytes L (sbev s) @ take k (out_bytes L (cbev s))"
    "out_bytes L sb = out_bytes L (sbev s)" "bev_enabled L sb = bev_enabled L (sbev s)"
    "in_bytes L cb = in_bytes L (cbev s)" "out_bytes L cb = drop k (out_bytes L (cbev s))"
    "bev_enabled L cb = bev_enabled L (cbev s)"
proof -
  obtain cb where cb_eq: "snd (bev_send L (cbev s) k) = cb"
    by simp
  have send: "bev_send L (cbev s) k = (take k (out_bytes L (cbev s)), cb)"
    using bufferevent_io_laws(13) [OF assms, of "cbev s" k] cb_eq by (simp add: prod_eq_iff)
  let ?sb = "bev_receive L (sbev s) (take k (out_bytes L (cbev s)))"
  have "server_input L M R k (frame s) s = map_option
       (\<lambda>r. rbind r (\<lambda>(v, sb, f). Inr (s\<lparr>srv := v, sbev := sb, cbev := cb, frame := f\<rparr>)))
       (srv_read_cb L M R (srv s) ?sb (frame s))"
    by (simp add: server_input_def send)
  moreover have "in_bytes L cb = in_bytes L (cbev s)" "out_bytes L cb = drop k (out_bytes L (cbev s))"
    "bev_enabled L cb = bev_enabled L (cbev s)"
    unfolding cb_eq [symmetric]
    using bufferevent_flags_laws(8) [OF assms] by (simp_all add: bufferevent_io_laws [OF assms])
  moreover have "bev_enabled L ?sb = bev_enabled L (sbev s)"
    using bufferevent_flags_laws(7) [OF assms] by blast
  ultimately show thesis
    using that bufferevent_io_laws(11,12) [OF assms] by metis
qed

lemma room_for_log [simp]: "room_for (log e w) p = room_for w p"
  by (simp add: room_for_def file_bytes_def)

lemma head_sent_step:
  assumes "env_ok L M R p bs" and "phase_inv L M p bs Head_sent s"
  shows "\<exists>t. server_input L M R (length (out_bytes L (cbev s))) (frame s) s = Some (Inr t)
           \<and> phase_inv L M p bs Ask_data t
           \<and> logs (sv_world (srv t)) = logs (sv_world (srv s))
               @ [RecvSize sizeof_fileinfo, RecvInfo (cstr (outfile p)) (of_nat (length bs))]"
proof -
  note env = env_okD [OF assms(1)]
  obtain f where f: "announces M (cstr (outfile p)) bs f" and w: "wires L s [] [] [] (image f)"
    using assms(2) by auto
  then have wf: "wf_fileinfo f" "NUL \<in> set (fi_name f)"
    by (simp_all add: announces_def)
  obtain sb cb where si: "server_input L M R (length (out_bytes L (cbev s))) (frame s) s = map_option
       (\<lambda>r. rbind r (\<lambda>(v, sb, f). Inr (s\<lparr>srv := v, sbev := sb, cbev := cb, frame := f\<rparr>)))
       (srv_read_cb L M R (srv s) sb (frame s))"
    and sb: "in_bytes L sb = image f" "out_bytes L sb = []"
      "bev_enabled L sb = bev_enabled L (sbev s)"
    and cb: "in_bytes L cb = []" "out_bytes L cb = []" "bev_enabled L cb = bev_enabled L (cbev s)"
    using w by (rule_tac reply_arrives [OF env(1), of M R "length (out_bytes L (cbev s))" s])
      (auto simp: wires_def)
  let ?sb = "snd (bev_read L sb BUFSIZ)"
  let ?v = "(srv s)\<lparr>Status := DATA, sv_world := log (RecvInfo (cstr (fi_name f)) (fi_size f))
            (log (RecvSize sizeof_fileinfo) (sv_world (srv s)))\<rparr>"
  let ?t = "s\<lparr>srv := ?v, sbev := bev_write L ?sb (request_bytes DATA), cbev := cb, frame := f\<rparr>"
  have "server_input L M R (length (out_bytes L (cbev s))) (frame s) s = Some (Inr ?t)"
    using assms(2) read_head_image [OF env(1) sb(1) wf, of "srv s"]
    by (simp add: si srv_read_cb_def)
  moreover have "bev_enabled L (bev_write L ?sb (request_bytes DATA)) = bev_enabled L (sbev s)"
    using sb(3) bufferevent_flags_laws(3,4) [OF env(1)] by simp
  moreover have "length (in_bytes L sb) \<le> BUFSIZ"
    using sb(1) length_image [OF wf(1)] by (simp add: sizeof_fileinfo_def BUFSIZ_def)
  moreover have "cstr (fi_name f) = cstr (outfile p)" "fi_size f = of_nat (length bs)"
    using f by (simp_all add: announces_def)
  ultimately show ?thesis
    using assms(2) f sb cb
    by (auto simp: phase_defs bufferevent_io_laws [OF env(1)])
qed

lemma ask_data_step:
  assumes "env_ok L M R p bs" and "phase_inv L M p bs Ask_data s"
  shows "\<exists>t. client_input L M R 4 junk s = Inr t \<and> phase_inv L M p bs Streaming t
    \<and> logs (cl_world (cli t)) = logs (cl_world (cli s)) @ data_spoken bs"
proof -
  note env = env_okD [OF assms(1)]
  have w: "wires L s [] (request_bytes DATA) [] []" and str: "length (cl_str (cli s)) = 5"
    using assms(2) by (simp_all add: client_ready_def)
  obtain e where e: "cl_buf (cli s) = Live e" "ev_bytes L e = bs"
    using assms(2) by (auto simp: holds_file_def)
  obtain c bev sb where ci: "client_input L M R 4 junk s = rbind (cli_write_cb L M R c bev junk)
        (\<lambda>(c, cb). Inr (s\<lparr>cli := c, sbev := sb, cbev := cb\<rparr>))"
    and c: "in_bytes L bev = []" "out_bytes L bev = []" "bev_enabled L bev = bev_enabled L (cbev s)"
      "in_bytes L sb = []" "out_bytes L sb = []" "bev_enabled L sb = bev_enabled L (sbev s)"
      "length (cl_str c) = 5" "cl_status c = request_value DATA" "cl_buf c = Live e"
      "cl_para c = cl_para (cli s)" "files (cl_world c) = files (cl_world (cli s))"
      "logs (cl_world c) = logs (cl_world (cli s)) @ [RequestLine ''DATA'']"
    using e(1) by (rule_tac request_arrives [OF env(1) w str, of M R junk]) auto
  obtain bev' e' where wb: "bev_write_buffer L bev e = (bev', e')"
    by fastforce
  have bev': "in_bytes L bev' = []" "out_bytes L bev' = bs" "ev_bytes L e' = []"
      "bev_enabled L bev' = bev_enabled L (cbev s)"
    using bufferevent_io_laws(6-8) [OF env(1), of bev e] bufferevent_flags_laws(5) [OF env(1), of bev e]
      c(1-3) e(2) wb by auto
  let ?c = "c\<lparr>cl_buf := Live e', cl_world := log (FileLength (ev_length L e)) (log SendFile (cl_world c))\<rparr>"
  let ?t = "s\<lparr>cli := ?c, sbev := sb, cbev := bev'\<rparr>"
  have "client_input L M R 4 junk s = Inr ?t"
    using ci c(8,9) wb by (simp add: cli_write_cb_def send_data_def Let_def)
  moreover have "phase_inv L M p bs Streaming ?t"
    using assms(2) c bev' by (auto simp: phase_defs)
  moreover have "ev_length L e = length bs"
    using e(2) evbuffer_laws(3) [OF libevent_evbuffer [OF env(1)]] by simp
  then have "logs (cl_world (cli ?t)) = logs (cl_world (cli s)) @ data_spoken bs"
    using c(12) by (simp add: data_spoken_def)
  ultimately show ?thesis by blast
qed

text \<open>A delivery of \<open>k\<close> bytes while the file is on its way: \<open>read_cb\<close> runs the data branch.\<close>

lemma streaming_arrives:
  assumes "env_ok L M R p bs" and "phase_inv L M p bs Streaming s"
    and k: "0 < k" "k \<le> length (out_bytes L (cbev s))"
  obtains d r sb cb where "server_input L M R k (frame s) s = map_option
       (\<lambda>r. rbind r (\<lambda>(v, sb, f). Inr (s\<lparr>srv := v, sbev := sb, cbev := cb, frame := f\<rparr>)))
       (read_data L M R (srv s) sb (frame s))"
    and "bs = d @ r" and "out_bytes L (cbev s) = r"
    and "in_bytes L sb = d @ take k r" and "out_bytes L sb = []"
    and "bev_enabled L sb = bev_enabled L (sbev s)"
    and "in_bytes L cb = []" and "out_bytes L cb = drop k r"
    and "bev_enabled L cb = bev_enabled L (cbev s)"
proof -
  note env = env_okD [OF assms(1)]
  obtain d r where bs: "bs = d @ r" and w: "wires L s d [] [] r"
    using assms(2) by auto
  have st: "Status (srv s) = DATA"
    using assms(2) by auto
  obtain sb cb where si: "server_input L M R k (frame s) s = map_option
       (\<lambda>r. rbind r (\<lambda>(v, sb, f). Inr (s\<lparr>srv := v, sbev := sb, cbev := cb, frame := f\<rparr>)))
       (srv_read_cb L M R (srv s) sb (frame s))"
    and sb: "in_bytes L sb = d @ take k r" "out_bytes L sb = []"
      "bev_enabled L sb = bev_enabled L (sbev s)"
    and cb: "in_bytes L cb = []" "out_bytes L cb = drop k r" "bev_enabled L cb = bev_enabled L (cbev s)"
    using w by (rule_tac reply_arrives [OF env(1), of M R k s]) (auto simp: wires_def)
  show thesis
    using w st by (intro that [OF _ bs _ sb cb]) (simp_all add: si srv_read_cb_def wires_def)
qed

lemma streaming_last_step:
  assumes "env_ok L M R p bs" and "phase_inv L M p bs Streaming s"
    and k: "0 < k" "k = length (out_bytes L (cbev s))"
  shows "\<exists>t. server_input L M R k (frame s) s = Some (Inr t) \<and> out_bytes L (cbev t) = []
    \<and> phase_inv L M p bs Fin_sent t
    \<and> disk_of (sv_world (srv t)) = store_file (target p) bs (disk_of (sv_world (srv s)))
    \<and> logs (sv_world (srv t)) = logs (sv_world (srv s)) @ [RecvFile, PrepareWrite, WriteResult 0, WriteDone]"
proof -
  note env = env_okD [OF assms(1)]
  obtain d r sb cb where si: "server_input L M R k (frame s) s = map_option
       (\<lambda>r. rbind r (\<lambda>(v, sb, f). Inr (s\<lparr>srv := v, sbev := sb, cbev := cb, frame := f\<rparr>)))
       (read_data L M R (srv s) sb (frame s))"
    and bs: "bs = d @ r" "out_bytes L (cbev s) = r"
    and sb: "in_bytes L sb = d @ take k r" "out_bytes L sb = []"
    and cb: "in_bytes L cb = []" "out_bytes L cb = drop k r" "bev_enabled L cb = bev_enabled L (cbev s)"
    by (rule streaming_arrives [OF assms(1-3)]) (use k(2) in simp, blast)
  have f: "announces M (cstr (outfile p)) bs (frame s)"
    using assms(2) by auto
  have inb: "in_bytes L sb = bs"
    using sb(1) bs k(2) by simp
  obtain v sb' f' where v: "read_data L M R (srv s) sb (frame s) = Some (Inr (v, sb', f'))"
      "Status v = FIN" "files (sv_world v) = (files (sv_world (srv s)))(target p \<mapsto> bs)"
      "in_bytes L sb' = []" "out_bytes L sb' = request_bytes FIN"
      "disk_of (sv_world v) = store_file (target p) bs (disk_of (sv_world (srv s)))"
      "logs (sv_world v) = logs (sv_world (srv s)) @ [RecvFile, PrepareWrite, WriteResult 0, WriteDone]"
    using read_data_store [OF env(1,2), of sb "frame s" "srv s" R] assms(2) env(3,4,6) f sb(2)
    unfolding inb announces_def by (auto simp: phase_defs)
  let ?t = "s\<lparr>srv := v, sbev := sb', cbev := cb, frame := f'\<rparr>"
  have "phase_inv L M p bs Fin_sent ?t"
    using assms(2) v cb bs k(2) by (auto simp: phase_defs)
  then show ?thesis
    using si v(1,6,7) cb(2) bs k(2) by (intro exI [of _ ?t]) simp
qed

lemma streaming_next_step:
  assumes "env_ok L M R p bs" and "phase_inv L M p bs Streaming s"
    and k: "0 < k" "k < length (out_bytes L (cbev s))"
  shows "\<exists>t. server_input L M R k (frame s) s = Some (Inr t)
    \<and> length (out_bytes L (cbev t)) = length (out_bytes L (cbev s)) - k
    \<and> phase_inv L M p bs Streaming t \<and> disk_of (sv_world (srv t)) = disk_of (sv_world (srv s))
    \<and> logs (sv_world (srv t)) = logs (sv_world (srv s)) @ [RecvFile]"
proof -
  note env = env_okD [OF assms(1)]
  obtain d r sb cb where si: "server_input L M R k (frame s) s = map_option
       (\<lambda>r. rbind r (\<lambda>(v, sb, f). Inr (s\<lparr>srv := v, sbev := sb, cbev := cb, frame := f\<rparr>)))
       (read_data L M R (srv s) sb (frame s))"
    and bs: "bs = d @ r" and out: "out_bytes L (cbev s) = r"
    and sb: "in_bytes L sb = d @ take k r" "out_bytes L sb = []"
      "bev_enabled L sb = bev_enabled L (sbev s)"
    and cb: "in_bytes L cb = []" "out_bytes L cb = drop k r" "bev_enabled L cb = bev_enabled L (cbev s)"
    by (rule streaming_arrives [OF assms(1-3)]) (use k(2) in simp, blast)
  have "length (in_bytes L sb) < length bs"
    using sb(1) bs k out by simp
  moreover have "announces M (cstr (outfile p)) bs (frame s)"
    using assms(2) by auto
  ultimately have "(of_nat (length (in_bytes L sb)) :: 64 word) \<noteq> fi_size (frame s)"
    using env(6) by (simp add: announces_def of_nat_64_eq)
  then have rd: "read_data L M R (srv s) sb (frame s) =
      Some (Inr ((srv s)\<lparr>sv_world := log RecvFile (sv_world (srv s))\<rparr>, sb, frame s))"
    by (rule read_data_wait [OF env(1)])
  let ?t = "s\<lparr>srv := (srv s)\<lparr>sv_world := log RecvFile (sv_world (srv s))\<rparr>, sbev := sb,
    cbev := cb, frame := frame s\<rparr>"
  have "wires L ?t (d @ take k r) [] [] (drop k r)" "bs = (d @ take k r) @ drop k r" "drop k r \<noteq> []"
    using sb cb bs k out by (simp_all add: wires_def)
  then have "\<exists>d r. bs = d @ r \<and> (r = [] \<longrightarrow> bs = []) \<and> wires L ?t d [] [] r"
    by blast
  then have "phase_inv L M p bs Streaming ?t"
    using assms(2) sb(3) cb(3) by (simp add: server_ready_def client_ready_def holds_file_def)
  then show ?thesis
    using si rd out cb(2) by (intro exI [of _ ?t]) simp
qed

lemma streaming_step:
  assumes "env_ok L M R p bs" and "phase_inv L M p bs Streaming s"
    and "0 < k" and "k \<le> length (out_bytes L (cbev s))"
  shows "\<exists>t. server_input L M R k (frame s) s = Some (Inr t)
    \<and> length (out_bytes L (cbev t)) = length (out_bytes L (cbev s)) - k
    \<and> phase_inv L M p bs (if k = length (out_bytes L (cbev s)) then Fin_sent else Streaming) t"
  using streaming_last_step [OF assms(1-3)] streaming_next_step [OF assms(1-3)] assms(4)
  by (cases "k = length (out_bytes L (cbev s))") auto

lemma fin_sent_step:
  assumes "env_ok L M R p bs" and "phase_inv L M p bs Fin_sent s"
  shows "\<exists>t. client_input L M R 4 junk s = Inr t \<and> phase_inv L M p bs Done t
    \<and> logs (cl_world (cli t)) = logs (cl_world (cli s)) @ [RequestLine ''FIN'']"
proof -
  note env = env_okD [OF assms(1)]
  have w: "wires L s [] (request_bytes FIN) [] []" and str: "length (cl_str (cli s)) = 5"
    using assms(2) by (simp_all add: client_ready_def)
  obtain e where e: "cl_buf (cli s) = Live e"
    using assms(2) by (auto simp: holds_file_def)
  obtain c bev sb where ci: "client_input L M R 4 junk s = rbind (cli_write_cb L M R
          (c\<lparr>cl_buf := Freed, cl_status := request_value INIT\<rparr>)
          (bev_disable L bev [EV_READ, EV_WRITE, EV_PERSIST]) junk)
        (\<lambda>(c, cb). Inr (s\<lparr>cli := c, sbev := sb, cbev := cb\<rparr>))"
    and c: "in_bytes L bev = []" "out_bytes L bev = []" "in_bytes L sb = []" "out_bytes L sb = []"
      "logs (cl_world c) = logs (cl_world (cli s)) @ [RequestLine ''FIN'']"
    using e by (rule_tac request_arrives [OF env(1) w str, of M R junk]) auto
  let ?t = "s\<lparr>cli := c\<lparr>cl_buf := Freed, cl_status := request_value INIT\<rparr>, sbev := sb,
     cbev := bev_disable L bev [EV_READ, EV_WRITE, EV_PERSIST]\<rparr>"
  have "client_input L M R 4 junk s = Inr ?t"
    using ci by (simp add: cli_write_cb_def)
  moreover have "phase_inv L M p bs Done ?t"
    using assms(2) c bufferevent_flags_laws(2) [OF env(1)]
    by (auto simp: phase_defs bufferevent_setup_laws [OF env(1)])
  moreover have "logs (cl_world (cli ?t)) = logs (cl_world (cli s)) @ [RequestLine ''FIN'']"
    using c(5) by simp
  ultimately show ?thesis by blast
qed

section \<open>The transfer as a terminating system\<close>

definition session_inv ::
  "('e, 'b) libevent \<Rightarrow> 'c md5 \<Rightarrow> resources \<Rightarrow> parameter \<Rightarrow> char list \<Rightarrow> ('e, 'b) session \<Rightarrow> bool"
  where
  "session_inv L M R p bs s \<longleftrightarrow> env_ok L M R p bs \<and> bs \<noteq> [] \<and> (\<exists>ph. phase_inv L M p bs ph s)"

text \<open>
  How it starts: the server has accepted the connection (\<open>listen_cb\<close>), the client has made
  it, both with worlds of their own.
\<close>

definition session_init ::
  "('e, 'b) libevent \<Rightarrow> 'c md5 \<Rightarrow> resources \<Rightarrow> parameter \<Rightarrow> char list \<Rightarrow> ('e, 'b) session \<Rightarrow> bool"
  where
  "session_init L M R p bs s \<longleftrightarrow> env_ok L M R p bs
     \<and> (\<exists>v fd. srv_listen_cb L v fd = Inr (srv s, sbev s))
     \<and> (\<exists>b fd. bev_socket_new L fd = Some b \<and> cbev s = cli_setup L b)
     \<and> (\<exists>w. cli s = client_start p w \<and> files w (cstr (infile p)) = Some bs)
     \<and> server_ready p bs s"

fun request_rank :: "nat \<Rightarrow> RequestType \<Rightarrow> bool \<Rightarrow> nat \<Rightarrow> nat" where
  "request_rank n HEAD pending r = (if pending then n + 5 else n + 4)"
| "request_rank n DATA pending r = (if pending then n + 3 else r + 2)"
| "request_rank n FIN pending r = (if pending then 1 else 0)"
| "request_rank n INIT pending r = 0"

definition rank :: "('e, 'b) libevent \<Rightarrow> char list \<Rightarrow> ('e, 'b) session \<Rightarrow> nat" where
  "rank L bs s = request_rank (length bs) (Status (srv s)) (out_bytes L (sbev s) \<noteq> [])
     (length (out_bytes L (cbev s)))"

lemma init_phase:
  assumes "session_init L M R p bs s"
  shows "phase_inv L M p bs Ask_head s"
proof -
  have L: "libevent_ok L"
    using assms by (simp add: session_init_def env_ok_def)
  obtain v fd where "srv_listen_cb L v fd = Inr (srv s, sbev s)"
    using assms by (auto simp: session_init_def)
  then have "Status (srv s) = HEAD" "in_bytes L (sbev s) = []"
      "out_bytes L (sbev s) = request_bytes HEAD" "bev_enabled L (sbev s) EV_READ"
    using srv_listen_result [OF _ L] by blast+
  moreover obtain b fd where "bev_socket_new L fd = Some b" "cbev s = cli_setup L b"
    using assms by (auto simp: session_init_def)
  then have "in_bytes L (cbev s) = []" "out_bytes L (cbev s) = []" "bev_enabled L (cbev s) EV_READ"
    by (simp_all add: cli_setup_def bufferevent_setup_laws [OF L] bufferevent_flags_laws [OF L])
  moreover obtain w where "cli s = client_start p w" "files w (cstr (infile p)) = Some bs"
    using assms by (auto simp: session_init_def)
  then have "client_ready p bs s" "cl_buf (cli s) = Null"
    by (simp_all add: client_ready_def client_start_def)
  moreover have "server_ready p bs s"
    using assms by (simp add: session_init_def)
  ultimately show ?thesis
    by (simp add: wires_def)
qed

lemma request_bytes_nonempty [simp]: "request_bytes r \<noteq> []" "[] \<noteq> request_bytes r"
  using length_request_bytes [of r] by (metis length_0_conv zero_neq_numeral)+

lemma image_nonempty: "wf_fileinfo f \<Longrightarrow> image f \<noteq> []" "wf_fileinfo f \<Longrightarrow> [] \<noteq> image f"
  using length_image [of f] by (auto simp: sizeof_fileinfo_def)

lemma rank_phase:
  "phase_inv L M p bs Ask_head s \<Longrightarrow> rank L bs s = length bs + 5"
  "phase_inv L M p bs Head_sent s \<Longrightarrow> rank L bs s = length bs + 4"
  "phase_inv L M p bs Ask_data s \<Longrightarrow> rank L bs s = length bs + 3"
  "phase_inv L M p bs Streaming s \<Longrightarrow> rank L bs s = length (out_bytes L (cbev s)) + 2"
  "phase_inv L M p bs Fin_sent s \<Longrightarrow> rank L bs s = 1"
  "phase_inv L M p bs Done s \<Longrightarrow> rank L bs s = 0"
  by (auto simp: rank_def wires_def)

lemma streaming_out_le:
  "phase_inv L M p bs Streaming s \<Longrightarrow> length (out_bytes L (cbev s)) \<le> length bs"
  by (auto simp: wires_def)

text \<open>The next phase when a whole request is read, and when some bytes of a reply are.\<close>

lemma request_phase:
  assumes "env_ok L M R p bs" and "phase_inv L M p bs ph s" and "out_bytes L (sbev s) \<noteq> []"
    and "wf_fileinfo junk"
  shows "\<exists>t ph'. client_input L M R (length (out_bytes L (sbev s))) junk s = Inr t
           \<and> phase_inv L M p bs ph' t \<and> rank L bs t < rank L bs s \<and> keeps_up p bs ph ph' s t"
proof -
  have out: "phase_inv L M p bs ph s \<Longrightarrow> length (out_bytes L (sbev s)) = 4"
    using assms(3) by (cases ph) (auto simp: wires_def)
  show ?thesis
  proof (cases ph)
    case Ask_head
    then obtain t where t: "client_input L M R 4 junk s = Inr t" "phase_inv L M p bs Head_sent t"
        "logs (cl_world (cli t)) = logs (cl_world (cli s)) @ head_spoken p bs"
      using ask_head_step assms by blast
    moreover have "rank L bs t < rank L bs s"
      using Ask_head t(2) assms(2) rank_phase(1) [of L M p bs s] rank_phase(2) [of L M p bs t] by simp
    moreover have "keeps_up p bs ph Head_sent s t"
      using t(3) Ask_head by (intro keeps_upI) simp_all
    ultimately show ?thesis
      using out assms(2) by metis
  next
    case Ask_data
    then obtain t where t: "client_input L M R 4 junk s = Inr t" "phase_inv L M p bs Streaming t"
        "logs (cl_world (cli t)) = logs (cl_world (cli s)) @ data_spoken bs"
      using ask_data_step assms by blast
    then have "rank L bs t < rank L bs s"
      using Ask_data assms(2) rank_phase(3) [of L M p bs s] rank_phase(4) [of L M p bs t]
        streaming_out_le [OF t(2)] by simp
    moreover have "keeps_up p bs ph Streaming s t"
      using t(3) Ask_data by (intro keeps_upI) simp_all
    ultimately show ?thesis
      using out assms(2) t(1,2) by metis
  next
    case Fin_sent
    then obtain t where t: "client_input L M R 4 junk s = Inr t" "phase_inv L M p bs Done t"
        "logs (cl_world (cli t)) = logs (cl_world (cli s)) @ [RequestLine ''FIN'']"
      using fin_sent_step assms by blast
    then have "rank L bs t < rank L bs s"
      using Fin_sent assms(2) rank_phase(5) [of L M p bs s] rank_phase(6) [of L M p bs t] by simp
    moreover have "keeps_up p bs ph Done s t"
      using t(3) Fin_sent by (intro keeps_upI) simp_all
    ultimately show ?thesis
      using out assms(2) t(1,2) by metis
  qed (use assms(2,3) in \<open>auto simp: wires_def\<close>)
qed

lemma reply_phase:
  assumes "env_ok L M R p bs" and "phase_inv L M p bs ph s"
    and "0 < k" and "k \<le> length (out_bytes L (cbev s))"
    and "Status (srv s) = HEAD \<longrightarrow> k = length (out_bytes L (cbev s))"
  shows "\<exists>t ph'. server_input L M R k (frame s) s = Some (Inr t)
           \<and> phase_inv L M p bs ph' t \<and> rank L bs t < rank L bs s \<and> keeps_up p bs ph ph' s t"
proof (cases ph)
  case Head_sent
  then obtain t where t: "server_input L M R (length (out_bytes L (cbev s))) (frame s) s = Some (Inr t)"
      "phase_inv L M p bs Ask_data t"
    using head_sent_step assms by blast
  moreover have "rank L bs t < rank L bs s"
    using Head_sent assms(2) rank_phase(2) [of L M p bs s] rank_phase(3) [of L M p bs t] t(2) by simp
  moreover have "k = length (out_bytes L (cbev s))"
    using Head_sent assms(2,5) by simp
  moreover have "keeps_up p bs ph Ask_data s t"
    using server_input_cli [OF t(1)] Head_sent by (simp add: keeps_up_def)
  ultimately show ?thesis by blast
next
  case Streaming
  let ?ph = "if k = length (out_bytes L (cbev s)) then Fin_sent else Streaming"
  obtain t where t: "server_input L M R k (frame s) s = Some (Inr t)"
      "length (out_bytes L (cbev t)) = length (out_bytes L (cbev s)) - k" "phase_inv L M p bs ?ph t"
    using streaming_step [OF assms(1) _ assms(3,4)] Streaming assms(2) by blast
  moreover have "rank L bs t < rank L bs s"
    using Streaming assms(2-4) rank_phase(4) [of L M p bs s] rank_phase(4,5) [of L M p bs t] t(2,3)
    by (auto split: if_splits)
  moreover have "keeps_up p bs ph ?ph s t"
    using server_input_cli [OF t(1)] Streaming by (simp add: keeps_up_def)
  ultimately show ?thesis by blast
qed (use assms(2-4) in \<open>auto simp: wires_def\<close>)

lemma transfer_step_phase:
  assumes "transfer_step L M R s t" and "env_ok L M R p bs" and "phase_inv L M p bs ph s"
  shows "(\<exists>ph'. phase_inv L M p bs ph' t \<and> keeps_up p bs ph ph' s t) \<and> rank L bs t < rank L bs s"
  using assms(1)
proof cases
  case (request junk)
  then show ?thesis
    using request_phase [OF assms(2,3), of junk] by auto
next
  case (reply k)
  then show ?thesis
    using reply_phase [OF assms(2,3), of k] by auto
qed

lemma transfer_progress:
  assumes "session_inv L M R p bs s" and "\<not> phase_inv L M p bs Done s"
  shows "\<exists>t. transfer_step L M R s t"
proof -
  obtain ph where env: "env_ok L M R p bs" and ne: "bs \<noteq> []" and ph: "phase_inv L M p bs ph s"
    using assms(1) by (auto simp: session_inv_def)
  have junk: "wf_fileinfo (of_image (replicate sizeof_fileinfo NUL))"
    by (rule wf_of_image) simp
  show ?thesis
  proof (cases "out_bytes L (sbev s) = []")
    case False
    moreover have "bev_enabled L (cbev s) EV_READ"
      using ph assms(2) by (cases ph) auto
    ultimately show ?thesis
      using request_phase [OF env ph False junk] junk by (blast intro: transfer_step.request)
  next
    case True
    then have "ph = Head_sent \<or> ph = Streaming"
      using ph assms(2) by (cases ph) (auto simp: wires_def)
    then have "bev_enabled L (sbev s) EV_READ" "0 < length (out_bytes L (cbev s))"
      using ph ne by (auto simp: wires_def announces_def image_nonempty)
    then show ?thesis
      using reply_phase [OF env ph, of "length (out_bytes L (cbev s))"]
      by (blast intro: transfer_step.reply)
  qed
qed

interpretation xfer: terminating_system
    "\<lambda>s. session_init L M R p bs s \<and> bs \<noteq> []" "transfer_step L M R" "session_inv L M R p bs"
    "rank L bs" "phase_inv L M p bs Done"
  for L :: "('e, 'b) libevent" and M :: "'c md5" and R :: resources and p :: parameter
    and bs :: "char list"
proof
  fix s :: "('e, 'b) session"
  assume "session_init L M R p bs s \<and> bs \<noteq> []"
  then show "session_inv L M R p bs s"
    unfolding session_inv_def using init_phase [of L M R p bs s] session_init_def by blast
next
  fix s t :: "('e, 'b) session"
  assume "session_inv L M R p bs s" and "transfer_step L M R s t"
  then show "session_inv L M R p bs t" and "rank L bs t < rank L bs s"
    unfolding session_inv_def using transfer_step_phase by blast+
next
  fix s :: "('e, 'b) session"
  assume "session_inv L M R p bs s" and "\<not> phase_inv L M p bs Done s"
  then show "\<exists>t. transfer_step L M R s t"
    by (rule transfer_progress)
qed

end
