(* ===== verification/File_Transfer.thy ===== *)
theory File_Transfer
  imports Session
begin

text \<open>
  What the two programs achieve together, and where they fail: the properties of the
  sessions. The first group is about runs of \<open>transfer_step\<close>: the short messages arrive whole
  and the server's stack slot keeps the header. \<open>Logged_Transfer\<close> carries these lemmas over to
  the programs with their logger. The others say what happens to an empty file, whatever the
  slot holds, and to a header that arrives in pieces.
\<close>

section \<open>A concrete session\<close>

definition sample_para :: parameter where
  "sample_para = zero_parameter\<lparr>port := PORT, host := HOST @ replicate 41 NUL,
     infile := ''in'' @ replicate 254 NUL, outfile := ''d/out'' @ replicate 251 NUL\<rparr>"

definition sample_session :: "world \<Rightarrow> (char list, list_bev) session" where
  "sample_session w =
     (case srv_listen_cb list_libevent (server_start w) 7 of
        Inr (v, b) \<Rightarrow> \<lparr>srv = v, cli = client_start sample_para w, sbev = b,
          cbev = cli_setup list_libevent (the (bev_socket_new list_libevent (- 1))),
          frame = sample_header []\<rparr>)"

lemma sample_session_listen:
  "srv_listen_cb list_libevent (server_start w) 7 =
     Inr (srv (sample_session w), sbev (sample_session w))"
  by (simp add: sample_session_def srv_listen_cb_def list_libevent_def Let_def)

lemma sample_session_client:
  "cli (sample_session w) = client_start sample_para w"
  "bev_socket_new list_libevent (- 1) = Some (the (bev_socket_new list_libevent (- 1)))"
  "cbev (sample_session w) = cli_setup list_libevent (the (bev_socket_new list_libevent (- 1)))"
  by (simp_all add: sample_session_def srv_listen_cb_def list_libevent_def Let_def)

lemma sample_para_ok: "para_ok sample_para"
  by (simp add: para_ok_def ok_state_def wf_parameter_def sample_para_def zero_parameter_def
      HOST_def CFG_MAXLEN_def)

lemma sample_para_names: "cstr (infile sample_para) = ''in''" "target sample_para = ''out''"
proof -
  show "cstr (infile sample_para) = ''in''"
    by (simp add: sample_para_def cstr_def)
  have "cstr (outfile sample_para) = ''d/out''"
    by (simp add: sample_para_def cstr_def)
  then show "target sample_para = ''out''"
    by (simp add: target_def base_def cut_slashes_def last_part_def)
qed

lemma sample_session_init:
  assumes "files w ''in'' = Some bs" and "creatable w ''out''" and "length bs \<le> room_for w ''out''"
    and "length bs < 2 ^ 64"
  shows "session_init list_libevent head_md5 sample_res sample_para bs
           (sample_session w)"
proof -
  have world: "sv_world (srv (sample_session w)) = log BindEvents w"
    using srv_listen_result(2) [OF sample_session_listen list_libevent_ok]
    by (simp add: server_start_def)
  have env: "env_ok list_libevent head_md5 sample_res sample_para bs"
    using assms(4) by (simp add: env_ok_def sample_res_def list_libevent_ok head_md5_ok sample_para_ok)
  moreover have "server_ready sample_para bs (sample_session w)"
    using assms world by (simp add: server_ready_def sample_para_names)
  moreover have "files w (cstr (infile sample_para)) = Some bs"
    using assms(1) by (simp add: sample_para_names)
  ultimately show ?thesis
    using sample_session_listen [of w] sample_session_client unfolding session_init_def
    by blast
qed

section \<open>The transfer as it is meant\<close>

text \<open>The state at the end: the file is stored, the client has freed its buffer, nothing
  is on its way, and no call-back will run any more.\<close>

definition delivered ::
  "('e, 'b) libevent \<Rightarrow> parameter \<Rightarrow> char list \<Rightarrow> ('e, 'b) session \<Rightarrow> bool" where
  "delivered L p bs s \<longleftrightarrow> files (sv_world (srv s)) (target p) = Some bs \<and> Status (srv s) = FIN
     \<and> cl_buf (cli s) = Freed \<and> \<not> bev_enabled L (cbev s) EV_READ \<and> wires L s [] [] [] []"

lemma done_delivered: "phase_inv L M p bs Done s \<Longrightarrow> delivered L p bs s"
  by (simp add: delivered_def)

section \<open>The transfer that never ends\<close>

lemma client_input_srv: "client_input L M R k junk s = Inr t \<Longrightarrow> srv t = srv s \<and> frame t = frame s"
  by (auto simp: client_input_def rbind_eq_Inr split: prod.splits)

lemma server_input_head:
  assumes "libevent_ok L" and "Status (srv s) = HEAD" and "server_input L M R k slot s = Some (Inr t)"
  shows "files (sv_world (srv t)) = files (sv_world (srv s))" and "cli t = cli s"
  using assms read_head_frame(1) [OF assms(1)]
  by (auto simp: server_input_def srv_read_cb_def rbind_eq_Inr split: prod.splits)

text \<open>The first delivery, and the first three, for a file of any length.\<close>

lemma reach_head_sent:
  assumes "session_init L M R p bs s"
  shows "\<exists>t. (transfer_step L M R)\<^sup>*\<^sup>* s t \<and> phase_inv L M p bs Head_sent t
           \<and> files (sv_world (srv t)) = files (sv_world (srv s))"
proof -
  have env: "env_ok L M R p bs" and a: "phase_inv L M p bs Ask_head s"
    using assms init_phase [OF assms] by (simp_all add: session_init_def)
  have junk: "wf_fileinfo (of_image (replicate sizeof_fileinfo NUL))"
    by (rule wf_of_image) simp
  obtain t where t: "client_input L M R 4 (of_image (replicate sizeof_fileinfo NUL)) s = Inr t"
      "phase_inv L M p bs Head_sent t"
    using ask_head_step [OF env a junk] by blast
  have "transfer_step L M R s t"
    using transfer_step.request [OF _ _ junk, of L s M R t] a t(1) by (simp add: wires_def)
  moreover have "files (sv_world (srv t)) = files (sv_world (srv s))"
    using client_input_srv [OF t(1)] by simp
  ultimately show ?thesis
    using t(2) by (intro exI [of _ t] conjI r_into_rtranclp)
qed

lemma transfer_until_data:
  assumes "session_init L M R p bs s"
  shows "\<exists>t. (transfer_step L M R)\<^sup>*\<^sup>* s t \<and> phase_inv L M p bs Streaming t
           \<and> files (sv_world (srv t)) = files (sv_world (srv s))"
proof -
  have env: "env_ok L M R p bs" and L: "libevent_ok L"
    using assms by (simp_all add: session_init_def env_ok_def)
  have junk: "wf_fileinfo (of_image (replicate sizeof_fileinfo NUL))"
    by (rule wf_of_image) simp
  obtain t where t: "(transfer_step L M R)\<^sup>*\<^sup>* s t" "phase_inv L M p bs Head_sent t"
      "files (sv_world (srv t)) = files (sv_world (srv s))"
    using reach_head_sent [OF assms] by blast
  then obtain u where u: "server_input L M R (length (out_bytes L (cbev t))) (frame t) t = Some (Inr u)"
      "phase_inv L M p bs Ask_data u"
    using head_sent_step [OF env] by blast
  then obtain v where v: "client_input L M R 4 (of_image (replicate sizeof_fileinfo NUL)) u = Inr v"
      "phase_inv L M p bs Streaming v"
    using ask_data_step [OF env] by blast
  have "0 < length (out_bytes L (cbev t))"
    using t(2) by (auto simp: wires_def announces_def image_nonempty)
  then have "transfer_step L M R t u"
    using transfer_step.reply [OF _ _ _ _ u(1)] t(2) by simp
  moreover have "transfer_step L M R u v"
    using transfer_step.request [OF _ _ junk, of L u M R v] u(2) v(1) by (simp add: wires_def)
  moreover have "files (sv_world (srv v)) = files (sv_world (srv s))"
    using client_input_srv [OF v(1)] server_input_head(1) [OF L _ u(1)] t(2,3)
    by simp
  ultimately show ?thesis
    using v(2) t(1) by (meson rtranclp.rtrancl_into_rtrancl)
qed

text \<open>C38. An empty file is never received: the run comes to a state in which the server waits
  for data that no delivery will ever bring, whatever the slot of \<open>finfo\<close> holds, for the handler
  that would write the file runs only when bytes arrive. No file has been written and the client has not been told to end.\<close>

theorem empty_file_hangs:
  assumes "session_init L M R p [] s"
  shows "\<exists>t. (transfer_step L M R)\<^sup>*\<^sup>* s t \<and> Status (srv t) = DATA
           \<and> files (sv_world (srv t)) = files (sv_world (srv s))
           \<and> (\<exists>e. cl_buf (cli t) = Live e) \<and> (\<forall>u. \<not> session_step L M R t u)"
proof -
  obtain t where t: "(transfer_step L M R)\<^sup>*\<^sup>* s t" "phase_inv L M p [] Streaming t"
      "files (sv_world (srv t)) = files (sv_world (srv s))"
    using transfer_until_data [OF assms] by blast
  then have "out_bytes L (sbev t) = []" "out_bytes L (cbev t) = []"
    by (auto simp: wires_def)
  then have "\<not> session_step L M R t u" for u
    by (auto elim: session_step.cases)
  then show ?thesis
    using t by (auto simp: holds_file_def)
qed

theorem empty_file_hangs_witness:
  "\<exists>t. (transfer_step list_libevent head_md5 sample_res)\<^sup>*\<^sup>*
         (sample_session (sample_world\<lparr>files := [''in'' \<mapsto> []]\<rparr>)) t \<and> Status (srv t) = DATA
     \<and> files (sv_world (srv t)) =
         files (sv_world (srv (sample_session (sample_world\<lparr>files := [''in'' \<mapsto> []]\<rparr>))))
     \<and> (\<exists>e. cl_buf (cli t) = Live e)
     \<and> (\<forall>u. \<not> session_step list_libevent head_md5 sample_res t u)"
  by (rule empty_file_hangs [OF sample_session_init])
    (simp_all add: sample_world_def room_for_def file_bytes_def)

section \<open>The header that arrives in pieces\<close>

text \<open>
  The server has taken a part of the header for all of it. From then on it waits for no
  bytes while there are some: \<open>W\<close> are the files of its disk.
\<close>

definition lost ::
  "('e, 'b) libevent \<Rightarrow> (string \<Rightarrow> char list option) \<Rightarrow> ('e, 'b) session \<Rightarrow> bool" where
  "lost L W s \<longleftrightarrow> libevent_ok L \<and> Status (srv s) = DATA \<and> files (sv_world (srv s)) = W
     \<and> fi_size (frame s) = 0 \<and> length (cl_str (cli s)) = 5
     \<and> in_bytes L (cbev s) = [] \<and> (out_bytes L (sbev s) = [] \<or> out_bytes L (sbev s) = request_bytes DATA)
     \<and> in_bytes L (sbev s) @ out_bytes L (cbev s) \<noteq> []
     \<and> (\<exists>e. cl_buf (cli s) = Live e
          \<and> length (in_bytes L (sbev s)) + length (out_bytes L (cbev s)) + length (ev_bytes L e) < 2 ^ 64)"

lemma lost_request:
  assumes "lost L W s" and "out_bytes L (sbev s) \<noteq> []"
    and "client_input L M R (length (out_bytes L (sbev s))) junk s = Inr t"
  shows "lost L W t"
proof -
  have L: "libevent_ok L" and str: "length (cl_str (cli s)) = 5"
    using assms(1) by (simp_all add: lost_def)
  have w: "wires L s (in_bytes L (sbev s)) (request_bytes DATA) [] (out_bytes L (cbev s))"
    using assms(1,2) by (auto simp: lost_def wires_def)
  then have four: "length (out_bytes L (sbev s)) = 4"
    by (simp add: wires_def)
  obtain e where e: "cl_buf (cli s) = Live e"
      "length (in_bytes L (sbev s)) + length (out_bytes L (cbev s)) + length (ev_bytes L e) < 2 ^ 64"
    using assms(1) by (auto simp: lost_def)
  obtain c bev sb where ci: "client_input L M R 4 junk s = rbind (cli_write_cb L M R c bev junk)
        (\<lambda>(c, cb). Inr (s\<lparr>cli := c, sbev := sb, cbev := cb\<rparr>))"
    and c: "in_bytes L bev = []" "out_bytes L bev = out_bytes L (cbev s)"
      "in_bytes L sb = in_bytes L (sbev s)" "out_bytes L sb = []"
      "length (cl_str c) = 5" "cl_status c = request_value DATA" "cl_buf c = Live e"
    using e(1) by (rule_tac request_arrives [OF L w str, of M R junk]) auto
  obtain bev' e' where wb: "bev_write_buffer L bev e = (bev', e')"
    by fastforce
  have bev': "in_bytes L bev' = []" "out_bytes L bev' = out_bytes L (cbev s) @ ev_bytes L e"
      "ev_bytes L e' = []"
    using bufferevent_io_laws(6-8) [OF L, of bev e] c(1,2) wb by auto
  have "t = s\<lparr>cli := c\<lparr>cl_buf := Live e', cl_world := log (FileLength (ev_length L e))
      (log SendFile (cl_world c))\<rparr>, sbev := sb, cbev := bev'\<rparr>"
    using assms(3) four ci c(6,7) wb by (simp add: cli_write_cb_def send_data_def Let_def)
  then show ?thesis
    using assms(1) c bev' e by (auto simp: lost_def add.assoc)
qed

lemma lost_reply:
  assumes "lost L W s" and "0 < k" and "k \<le> length (out_bytes L (cbev s))"
  shows "\<exists>t. server_input L M R k (frame s) s = Some (Inr t) \<and> lost L W t"
proof -
  have L: "libevent_ok L" and st: "Status (srv s) = DATA" and size: "fi_size (frame s) = 0"
    using assms(1) by (simp_all add: lost_def)
  let ?in = "in_bytes L (sbev s)" and ?out = "out_bytes L (cbev s)"
  obtain sb cb where si: "server_input L M R k (frame s) s = map_option
       (\<lambda>r. rbind r (\<lambda>(v, sb, f). Inr (s\<lparr>srv := v, sbev := sb, cbev := cb, frame := f\<rparr>)))
       (srv_read_cb L M R (srv s) sb (frame s))"
    and sb: "in_bytes L sb = ?in @ take k ?out" "out_bytes L sb = out_bytes L (sbev s)"
    and cb: "in_bytes L cb = in_bytes L (cbev s)" "out_bytes L cb = drop k ?out"
    by (rule reply_arrives [OF L, of M R k s])
  have "0 < length (in_bytes L sb)" "length (in_bytes L sb) < 2 ^ 64"
    using assms sb(1) by (auto simp: lost_def)
  then have "(of_nat (length (in_bytes L sb)) :: 64 word) \<noteq> of_nat 0"
    using of_nat_64_eq [of "length (in_bytes L sb)" 0] by simp
  then have "(of_nat (length (in_bytes L sb)) :: 64 word) \<noteq> fi_size (frame s)"
    using size by simp
  then have rd: "read_data L M R (srv s) sb (frame s) =
      Some (Inr ((srv s)\<lparr>sv_world := log RecvFile (sv_world (srv s))\<rparr>, sb, frame s))"
    by (rule read_data_wait [OF L])
  let ?t = "s\<lparr>srv := (srv s)\<lparr>sv_world := log RecvFile (sv_world (srv s))\<rparr>, sbev := sb, cbev := cb,
    frame := frame s\<rparr>"
  have "server_input L M R k (frame s) s = Some (Inr ?t)"
    using st rd by (simp add: si srv_read_cb_def)
  moreover have "lost L W ?t"
    using assms(1) assms(2,3) sb cb by (auto simp: lost_def)
  ultimately show ?thesis by blast
qed

interpretation losing: transition_system "lost L W" "transfer_step L M R" "lost L W"
  for L :: "('e, 'b) libevent" and W M R
proof
  fix s t :: "('e, 'b) session"
  assume inv: "lost L W s" and "transfer_step L M R s t"
  from this(2) show "lost L W t"
  proof cases
    case (request junk)
    then show ?thesis
      using lost_request inv by blast
  next
    case (reply k)
    then show ?thesis
      using lost_reply [OF inv, of k M R] by auto
  qed
qed

text \<open>No run of deliveries changes a file or makes another request.\<close>

definition never_written ::
  "('e, 'b) libevent \<Rightarrow> 'c md5 \<Rightarrow> resources \<Rightarrow> ('e, 'b) session \<Rightarrow> bool" where
  "never_written L M R s \<longleftrightarrow> (\<forall>t. (transfer_step L M R)\<^sup>*\<^sup>* s t \<longrightarrow>
     Status (srv t) = DATA \<and> files (sv_world (srv t)) = files (sv_world (srv s)))"

text \<open>What the server makes of a first piece of the header: a header whose size is 0.\<close>

lemma read_head_piece:
  assumes L: "libevent_ok L" and f: "announces M nm bs f" and sb: "in_bytes L sb = take k (image f)"
    and k: "0 < k" "k \<le> MAXLEN"
  obtains w g where "read_head L v sb = Inr (v\<lparr>Status := DATA, sv_world := w\<rparr>,
      bev_write L (snd (bev_read L sb BUFSIZ)) (request_bytes DATA), g)"
    and "files w = files (sv_world v)" and "fi_size g = 0"
proof -
  let ?d = "take k (image f)"
  have "length (image f) = sizeof_fileinfo"
    using f by (simp add: announces_def length_image)
  then have d: "length ?d = k" "length ?d \<le> MAXLEN" "length ?d \<le> sizeof_fileinfo"
    using k(2) by (simp_all add: sizeof_fileinfo_def MAXLEN_def)
  let ?g = "of_image (?d @ replicate (sizeof_fileinfo - length ?d) NUL)"
  have "NUL \<in> set (fi_name ?g)"
  proof (cases "k = MAXLEN")
    case True
    then have "take MAXLEN ?d = fi_name f"
      using f by (simp add: announces_def wf_fileinfo_def image_def)
    then show ?thesis
      using f unfolding short_name [OF d(3)] by (simp add: announces_def)
  next
    case False
    then show ?thesis
      using k(2) d(1) unfolding short_name [OF d(3)] by simp
  qed
  then have "read_head L v sb = Inr (v\<lparr>Status := DATA,
      sv_world := log (RecvInfo (cstr (fi_name ?g)) (fi_size ?g)) (log (RecvSize k) (sv_world v))\<rparr>,
      bev_write L (snd (bev_read L sb BUFSIZ)) (request_bytes DATA), ?g)"
    using read_head_short [OF L, of sb ?g v] sb k(1) d by simp
  then show thesis
    using that short_size [OF d(2)] by simp
qed



end
