(* ===== verification/Protocol.thy ===== *)
theory Protocol
  imports File_Transfer
begin

text \<open>
  The transfer as the sources mean it, without messages, buffers and pieces: a server that
  asks, receives more and more bytes, and replaces the file at once. The session of
  \<open>Session\<close> does only what this protocol allows. \<open>Logged_Transfer\<close> states it for the programs
  with their logger, and uses what follows for the disk for a server that takes one transfer
  after another.
\<close>

section \<open>The protocol\<close>

datatype stage = Asking | Receiving nat | Stored | Closed

inductive protocol_step :: "string \<Rightarrow> char list \<Rightarrow> stage \<times> disk \<Rightarrow> stage \<times> disk \<Rightarrow> bool"
  for name :: string and bs :: "char list" where
  announce: "protocol_step name bs (Asking, d) (Receiving 0, d)"
| receive: "n < m \<Longrightarrow> m < length bs \<Longrightarrow> protocol_step name bs (Receiving n, d) (Receiving m, d)"
| store: "n < length bs \<Longrightarrow> protocol_step name bs (Receiving n, d) (Stored, store_file name bs d)"
| close: "protocol_step name bs (Stored, d) (Closed, d)"

inductive_cases protocol_stepE: "protocol_step name bs (x, d) y"

text \<open>The file appears as a whole or not at all.\<close>

definition all_or_nothing :: "string \<Rightarrow> char list \<Rightarrow> disk \<Rightarrow> stage \<times> disk \<Rightarrow> bool" where
  "all_or_nothing name bs d = (\<lambda>(x, d').
     d' = (if x = Stored \<or> x = Closed then store_file name bs d else d))"

interpretation protocol: transition_system
  "\<lambda>a. a = (Asking, d)" "protocol_step name bs" "all_or_nothing name bs d" for name bs d
  by unfold_locales (auto simp: all_or_nothing_def elim: protocol_stepE)

section \<open>What of a session can be seen\<close>

definition protocol_stage :: "('e, 'b) libevent \<Rightarrow> ('e, 'b) session \<Rightarrow> stage" where
  "protocol_stage L s =
     (case Status (srv s) of
        DATA \<Rightarrow> Receiving (length (in_bytes L (sbev s)))
      | FIN \<Rightarrow> if cl_buf (cli s) = Freed then Closed else Stored
      | _ \<Rightarrow> Asking)"

definition seen :: "('e, 'b) libevent \<Rightarrow> ('e, 'b) session \<Rightarrow> stage \<times> disk" where
  "seen L s = (protocol_stage L s, disk_of (sv_world (srv s)))"

text \<open>A callback of the client leaves the server and its input as they are.\<close>

lemma client_input_server:
  assumes "libevent_ok L" and "client_input L M R k junk s = Inr t"
  shows "srv t = srv s" and "in_bytes L (sbev t) = in_bytes L (sbev s)"
  using assms bufferevent_io_laws [OF assms(1)]
  by (auto simp: client_input_def rbind_eq_Inr split: prod.splits dest!: arg_cong [where f = snd])

lemma read_head_disk:
  "read_head L s bev = Inr (t, bev', f) \<Longrightarrow> disk_of (sv_world t) = disk_of (sv_world s)"
  by (auto simp: read_head_def Let_def rbind_eq_Inr split: prod.splits)

lemma server_input_head_disk:
  assumes "Status (srv s) = HEAD" and "server_input L M R k slot s = Some (Inr t)"
  shows "disk_of (sv_world (srv t)) = disk_of (sv_world (srv s))"
  using assms read_head_disk
  by (fastforce simp: server_input_def srv_read_cb_def rbind_eq_Inr split: prod.splits)

section \<open>The session follows the protocol\<close>

text \<open>Which phase a delivery leads to, and what it does to the server.\<close>

lemma request_next:
  assumes env: "env_ok L M R p bs" and ph: "phase_inv L M p bs ph s"
    and out: "out_bytes L (sbev s) \<noteq> []" and junk: "wf_fileinfo junk"
    and t: "client_input L M R (length (out_bytes L (sbev s))) junk s = Inr t"
  obtains (head) "ph = Ask_head" "phase_inv L M p bs Head_sent t"
      "logs (cl_world (cli t)) = logs (cl_world (cli s)) @ head_spoken p bs"
  | (data) "ph = Ask_data" "phase_inv L M p bs Streaming t"
      "logs (cl_world (cli t)) = logs (cl_world (cli s)) @ data_spoken bs"
  | (fin) "ph = Fin_sent" "phase_inv L M p bs Done t"
      "logs (cl_world (cli t)) = logs (cl_world (cli s)) @ [RequestLine ''FIN'']"
proof -
  have four: "length (out_bytes L (sbev s)) = 4"
    using ph out by (cases ph) (auto simp: wires_def)
  consider "ph = Ask_head" | "ph = Ask_data" | "ph = Fin_sent"
    using ph out by (cases ph) (auto simp: wires_def)
  then show thesis
  proof cases
    case 1
    then obtain u where "client_input L M R 4 junk s = Inr u" "phase_inv L M p bs Head_sent u"
        "logs (cl_world (cli u)) = logs (cl_world (cli s)) @ head_spoken p bs"
      using ask_head_step [OF env _ junk] ph by blast
    then show thesis
      using head 1 t unfolding four by simp
  next
    case 2
    then obtain u where "client_input L M R 4 junk s = Inr u" "phase_inv L M p bs Streaming u"
        "logs (cl_world (cli u)) = logs (cl_world (cli s)) @ data_spoken bs"
      using ask_data_step [OF env] ph by blast
    then show thesis
      using data 2 t unfolding four by simp
  next
    case 3
    then obtain u where "client_input L M R 4 junk s = Inr u" "phase_inv L M p bs Done u"
        "logs (cl_world (cli u)) = logs (cl_world (cli s)) @ [RequestLine ''FIN'']"
      using fin_sent_step [OF env] ph by blast
    then show thesis
      using fin 3 t unfolding four by simp
  qed
qed

lemma reply_next:
  assumes env: "env_ok L M R p bs" and ph: "phase_inv L M p bs ph s"
    and k: "0 < k" "k \<le> length (out_bytes L (cbev s))"
      "Status (srv s) = HEAD \<longrightarrow> k = length (out_bytes L (cbev s))"
    and t: "server_input L M R k (frame s) s = Some (Inr t)"
  obtains (head) "ph = Head_sent" "phase_inv L M p bs Ask_data t"
      "disk_of (sv_world (srv t)) = disk_of (sv_world (srv s))"
      "logs (sv_world (srv t)) = logs (sv_world (srv s))
        @ [RecvSize sizeof_fileinfo, RecvInfo (cstr (outfile p)) (of_nat (length bs))]"
  | (last) "ph = Streaming" "phase_inv L M p bs Fin_sent t"
      "disk_of (sv_world (srv t)) = store_file (target p) bs (disk_of (sv_world (srv s)))"
      "logs (sv_world (srv t)) = logs (sv_world (srv s)) @ [RecvFile, PrepareWrite, WriteResult 0, WriteDone]"
  | (more) "ph = Streaming" "phase_inv L M p bs Streaming t"
      "disk_of (sv_world (srv t)) = disk_of (sv_world (srv s))"
      "length (out_bytes L (cbev t)) = length (out_bytes L (cbev s)) - k"
      "logs (sv_world (srv t)) = logs (sv_world (srv s)) @ [RecvFile]"
      "k < length (out_bytes L (cbev s))"
proof -
  consider "ph = Head_sent" | "ph = Streaming" "k = length (out_bytes L (cbev s))"
    | "ph = Streaming" "k < length (out_bytes L (cbev s))"
    using ph k(1,2) by (cases ph; cases "k = length (out_bytes L (cbev s))") (auto simp: wires_def)
  then show thesis
  proof cases
    case 1
    then have "k = length (out_bytes L (cbev s))" and st: "Status (srv s) = HEAD"
      using ph k(3) by auto
    then show thesis
      using head [OF 1] head_sent_step [OF env ph [unfolded 1]] server_input_head_disk [OF st t] t by auto
  next
    case 2
    then show thesis
      using last [OF 2(1)] streaming_last_step [OF env ph [unfolded 2(1)] k(1)] t by fastforce
  next
    case 3
    then show thesis
      using more [OF 3(1)] 3(2) streaming_next_step [OF env ph [unfolded 3(1)] k(1)] t by fastforce
  qed
qed

lemma streaming_length:
  "phase_inv L M p bs Streaming s \<Longrightarrow>
     length (in_bytes L (sbev s)) + length (out_bytes L (cbev s)) = length bs"
  by (auto simp: wires_def)

lemma request_seen:
  assumes env: "env_ok L M R p bs" and ph: "phase_inv L M p bs ph s"
    and out: "out_bytes L (sbev s) \<noteq> []" and junk: "wf_fileinfo junk"
    and t: "client_input L M R (length (out_bytes L (sbev s))) junk s = Inr t"
  shows "seen L t = seen L s \<or> protocol_step (target p) bs (seen L s) (seen L t)"
proof -
  note same = client_input_server [OF env_okD(1) [OF env] t]
  from assms show ?thesis
  proof (cases rule: request_next)
    case fin
    then have "seen L s = (Stored, disk_of (sv_world (srv s)))" "seen L t = (Closed, disk_of (sv_world (srv s)))"
      using ph same by (auto simp: seen_def protocol_stage_def holds_file_def)
    then show ?thesis
      by (simp add: protocol_step.close)
  qed (use ph same in \<open>simp_all add: seen_def protocol_stage_def\<close>)
qed

lemma reply_seen:
  assumes env: "env_ok L M R p bs" and ph: "phase_inv L M p bs ph s"
    and k: "0 < k" "k \<le> length (out_bytes L (cbev s))"
      "Status (srv s) = HEAD \<longrightarrow> k = length (out_bytes L (cbev s))"
    and t: "server_input L M R k (frame s) s = Some (Inr t)"
  shows "protocol_step (target p) bs (seen L s) (seen L t)"
  using assms
proof (cases rule: reply_next)
  case head
  then show ?thesis
    using ph by (simp add: seen_def protocol_stage_def wires_def protocol_step.announce)
next
  case last
  then show ?thesis
    using ph k(1,2) streaming_length [of L M p bs s]
    by (auto simp: seen_def protocol_stage_def holds_file_def intro!: protocol_step.store)
next
  case more
  have "length (in_bytes L (sbev s)) + length (out_bytes L (cbev s)) = length bs"
      "length (in_bytes L (sbev t)) + length (out_bytes L (cbev t)) = length bs"
    using streaming_length ph [unfolded more(1)] more(2) by blast+
  then show ?thesis
    using more k(1) ph by (auto simp: seen_def protocol_stage_def intro!: protocol_step.receive)
qed

interpretation refining: simulation
    "\<lambda>s. session_init L M R p bs s \<and> bs \<noteq> []" "transfer_step L M R" "session_inv L M R p bs"
    "seen L" "protocol_step (target p) bs"
  for L :: "('e, 'b) libevent" and M :: "'c md5" and R :: resources and p :: parameter
    and bs :: "char list"
proof
  fix s t :: "('e, 'b) session"
  assume "session_inv L M R p bs s" and step: "transfer_step L M R s t"
  then obtain ph where inv: "env_ok L M R p bs" "phase_inv L M p bs ph s"
    by (auto simp: session_inv_def)
  from step show "seen L t = seen L s \<or> protocol_step (target p) bs (seen L s) (seen L t)"
    by cases (use request_seen [OF inv] reply_seen [OF inv] in blast)+
qed

lemma init_seen: "session_init L M R p bs s \<Longrightarrow> seen L s = (Asking, disk_of (sv_world (srv s)))"
  using init_phase [of L M R p bs s] by (simp add: seen_def protocol_stage_def)

lemma transfer_seen:
  assumes "session_init L M R p bs s" and "bs \<noteq> []" and "(transfer_step L M R)\<^sup>*\<^sup>* s t"
  shows "(protocol_step (target p) bs)\<^sup>*\<^sup>* (Asking, disk_of (sv_world (srv s))) (seen L t)
    \<and> disk_of (sv_world (srv t)) =
        (if Status (srv t) = FIN then store_file (target p) bs (disk_of (sv_world (srv s)))
         else disk_of (sv_world (srv s)))"
proof -
  have run: "(protocol_step (target p) bs)\<^sup>*\<^sup>* (Asking, disk_of (sv_world (srv s))) (seen L t)"
    using refining.run_simulated [OF _ assms(3)] assms(1,2) init_seen [OF assms(1)] by auto
  have "all_or_nothing (target p) bs (disk_of (sv_world (srv s))) (seen L t)"
    by (rule protocol.reach_inv [OF refl run])
  moreover have "Status (srv t) = FIN \<longleftrightarrow> protocol_stage L t = Stored \<or> protocol_stage L t = Closed"
    by (auto simp: protocol_stage_def split: RequestType.splits)
  ultimately show ?thesis
    using run by (simp add: all_or_nothing_def seen_def)
qed

end
