(* ===== verification/Wrap.thy ===== *)
theory Wrap
  imports CLib
begin

text \<open>
  The line wrapping of the logger, \<open>wrapLines\<close> in \<^verbatim>\<open>c/simplog.c\<close>. The message is copied
  to a zeroed buffer of the size of its own block, 80 characters first; each further round
  turns the last space of the copy into a newline, indents what came after it and appends
  the next part of the message.
\<close>

abbreviation NL :: char where
  "NL \<equiv> CHR 0x0A"

abbreviation TAB :: char where
  "TAB \<equiv> CHR 0x09"

definition indentedLineSpacing :: string where
  "indentedLineSpacing = replicate 30 CHR '' '' @ [TAB]"

lemma length_indent [simp]: "length indentedLineSpacing = 31"
  by (simp add: indentedLineSpacing_def)

lemma no_nul_replicate [simp]: "no_nul (replicate n c) \<longleftrightarrow> n = 0 \<or> c \<noteq> NUL"
  by (auto simp: no_nul_def)

lemma no_nul_indent [simp]: "no_nul indentedLineSpacing"
  by (simp add: indentedLineSpacing_def)

section \<open>wrapLines\<close>

text \<open>
  What both wrapping branches begin with. \<open>wrapText\<close> has 255 bytes. Without a space
  \<open>strrchr\<close> returns null, which is written through.
\<close>

definition fold_line :: "char list \<Rightarrow> (char list \<times> string) result" where
  "fold_line tempBuf =
     rbind (read_str tempBuf) (\<lambda>t.
       case strrchr t CHR '' '' of
         None \<Rightarrow> Inl NullPointer
       | Some returnPos \<Rightarrow>
           (let tempBuf = tempBuf[returnPos := NL];
                wrapText = drop (Suc returnPos) t
            in rbind (strcpy (replicate 255 NUL) 0 wrapText) (\<lambda>_.
               rbind (strcpy tempBuf (Suc returnPos) (indentedLineSpacing @ wrapText)) (\<lambda>tempBuf.
                 Inr (tempBuf, wrapText)))))"

text \<open>
  The loop. A negative count is converted to nearly \<open>2 ^ 64\<close> by \<open>strncpy\<close>, which then
  fills more than any buffer. \<open>strrchr(tempBuf, '\n')\<close> is null while nothing has been
  wrapped, and \<open>strlen\<close> reads through it.
\<close>

function wrap_loop :: "string \<Rightarrow> nat \<Rightarrow> nat \<Rightarrow> char list \<Rightarrow> char list result" where
  "wrap_loop msg i lineFeedSize tempBuf =
     (if i < length (cstr msg) then
        (let rest = drop i (cstr msg)
         in if length rest + length indentedLineSpacing > 80 then
              rbind (fold_line tempBuf) (\<lambda>(tempBuf, wrapText).
                let lineFeedSize = int (if length rest < 80 then length rest else 80)
                      - int (length indentedLineSpacing) - int (length wrapText)
                in if lineFeedSize < 0 then Inl OutOfBounds
                   else rbind (strncpy tempBuf (length (cstr tempBuf)) rest (nat lineFeedSize))
                          (\<lambda>tempBuf. wrap_loop msg (i + nat lineFeedSize) (nat lineFeedSize) tempBuf))
            else
              rbind (read_str tempBuf) (\<lambda>t.
                case strrchr t NL of
                  None \<Rightarrow> Inl NullPointer
                | Some q \<Rightarrow>
                    if length (drop q t) + length rest > 80 then
                      rbind (fold_line tempBuf) (\<lambda>(tempBuf, wrapText).
                        rbind (strncpy tempBuf (length (cstr tempBuf)) rest (length rest))
                          (\<lambda>tempBuf. wrap_loop msg (i + lineFeedSize) lineFeedSize tempBuf))
                    else
                      rbind (strncpy tempBuf (length t) rest (length rest))
                        (\<lambda>tempBuf. wrap_loop msg (i + lineFeedSize) lineFeedSize tempBuf)))
      else Inr tempBuf)"
  by pat_completeness auto

text \<open>The copy grows with every round, and its buffer does not.\<close>

lemma cstr_eq_take: "cstr b = take (length (cstr b)) b"
  by (simp add: cstr_def takeWhile_eq_take [symmetric])

lemma cstr_prefix: "no_nul s \<Longrightarrow> cstr (s @ r) = s @ cstr r"
  by (induction s) (simp_all add: cstr_def)

lemma cstr_nth: "NUL \<in> set b \<Longrightarrow> b = cstr b @ NUL # drop (Suc (length (cstr b))) b"
  by (induction b) (auto simp: cstr_def)

lemma fold_line_result:
  assumes "fold_line tb = Inr (tb', wt)"
  obtains q where "NUL \<in> set tb" "strrchr (cstr tb) CHR '' '' = Some q"
    "wt = drop (Suc q) (cstr tb)" "length wt < 255" "length tb' = length tb" "NUL \<in> set tb'"
    "cstr tb' = take q (cstr tb) @ NL # indentedLineSpacing @ wt"
proof -
  obtain q where q: "strrchr (cstr tb) CHR '' '' = Some q" and nul: "NUL \<in> set tb"
    using assms by (auto simp: fold_line_def rbind_eq_Inr read_str_def split: option.splits if_splits)
  then have wt: "wt = drop (Suc q) (cstr tb)" "length wt < 255"
    and put: "strcpy (tb[q := NL]) (Suc q) (indentedLineSpacing @ wt) = Inr tb'"
    using assms
    by (auto simp: fold_line_def rbind_eq_Inr read_str_def strcpy_def put_def Let_def split: if_splits)
  have lt: "q < length (cstr tb)"
    using strrchr_Some [OF q] by simp
  then have "q < length tb"
    using length_cstr_le [of tb] by simp
  moreover have "take q (cstr tb) = take q tb"
    using lt cstr_eq_take [of tb] by (metis less_imp_le min_absorb1 take_take)
  ultimately have "take (Suc q) (tb[q := NL]) = take q (cstr tb) @ [NL]"
    by (simp add: take_Suc_conv_app_nth)
  then have tb': "tb' = take q (cstr tb) @ NL # indentedLineSpacing @ wt @ NUL #
      drop (Suc q + length (indentedLineSpacing @ wt @ [NUL])) (tb[q := NL])"
    using put by (auto simp: strcpy_def put_def split: if_splits)
  have "no_nul (take q (cstr tb) @ NL # indentedLineSpacing @ wt)"
    using wt by simp
  then have "cstr ((take q (cstr tb) @ NL # indentedLineSpacing @ wt) @ NUL # r) =
      take q (cstr tb) @ NL # indentedLineSpacing @ wt" for r
    by (rule cstr_append_NUL)
  then have "cstr tb' = take q (cstr tb) @ NL # indentedLineSpacing @ wt"
    unfolding tb' by (simp only: append_assoc append_Cons)
  moreover have "length tb' = length tb"
    using put by (auto simp: strcpy_def dest: length_put)
  ultimately show thesis
    using that q nul wt tb' by auto
qed

lemma strncpy_end:
  assumes "strncpy tb (length (cstr tb)) s n = Inr tb'" and "no_nul s"
  shows "length tb' = length tb" and "\<exists>r. cstr tb' = cstr tb @ take n s @ r"
    and "length (cstr tb) + min n (length s) \<le> length (cstr tb')"
proof -
  let ?t = "cstr tb"
  show "length tb' = length tb"
    using assms(1) by (auto simp: strncpy_def dest: length_put)
  obtain r where "tb' = take (length ?t) tb @ take n s @ r"
    using assms(1) by (auto simp: strncpy_def put_def split: if_splits)
  then have "tb' = (?t @ take n s) @ r"
    using cstr_eq_take [of tb] by simp
  moreover have "no_nul (?t @ take n s)"
    using assms(2) by simp
  ultimately have "cstr tb' = ?t @ take n s @ cstr r"
    using cstr_prefix by (metis append_assoc)
  then show "\<exists>r. cstr tb' = cstr tb @ take n s @ r"
    and "length (cstr tb) + min n (length s) \<le> length (cstr tb')"
    by auto
qed

lemma fold_copy_grows:
  assumes "fold_line tb = Inr (tb1, wt)" and "strncpy tb1 (length (cstr tb1)) s n = Inr tb2"
    and "no_nul s"
  shows "length tb2 - length (cstr tb2) < length tb - length (cstr tb)"
proof -
  obtain q where f: "NUL \<in> set tb" "strrchr (cstr tb) CHR '' '' = Some q" "length tb1 = length tb"
      "cstr tb1 = take q (cstr tb) @ NL # indentedLineSpacing @ wt" "wt = drop (Suc q) (cstr tb)"
    using assms(1) by (rule fold_line_result)
  have "q < length (cstr tb)"
    using strrchr_Some [OF f(2)] by simp
  then have "length (cstr tb) < length (cstr tb1)"
    using f(4,5) by simp
  also have "\<dots> \<le> length (cstr tb2)"
    using strncpy_end(3) [OF assms(2,3)] by simp
  finally show ?thesis
    using strncpy_end(1) [OF assms(2,3)] f(3) length_cstr_less [OF f(1)] by simp
qed

lemma copy_grows:
  assumes "read_str tb = Inr t" and "strncpy tb (length t) s n = Inr tb2"
    and "no_nul s" and "s \<noteq> []" and "0 < n"
  shows "length tb2 - length (cstr tb2) < length tb - length (cstr tb)"
  using assms strncpy_end(1,3) [of tb s n tb2] length_cstr_less [of tb]
  by (cases s) (auto simp: read_str_Inr)

termination wrap_loop
  by (relation "measure (\<lambda>(msg, i, lf, tb). length tb - length (cstr tb))")
    (auto intro: fold_copy_grows copy_grows)

declare wrap_loop.simps [simp del]

definition wrapLines :: "string \<Rightarrow> nat \<Rightarrow> string result" where
  "wrapLines msg msgSize =
     rbind (strncpy (replicate msgSize NUL) 0 msg 80) (\<lambda>tempBuf.
     rbind (wrap_loop msg 80 80 tempBuf) (\<lambda>tempBuf.
     rbind (strncpy (replicate msgSize NUL) 0 (cstr tempBuf) msgSize) (\<lambda>buf.
     rbind (read_str buf) (\<lambda>s.
       if s = [] then Inl OutOfBounds
       else if last s \<noteq> NL then rbind (strcpy buf (length s) [NL]) read_str
       else Inr s))))"

section \<open>The two operations on a zeroed buffer\<close>

lemma fold_line_eq:
  assumes "no_nul t"
  shows "fold_line (t @ replicate n NUL) =
    (if n = 0 then Inl OutOfBounds
     else case strrchr t CHR '' '' of
            None \<Rightarrow> Inl NullPointer
          | Some q \<Rightarrow>
              (if 255 \<le> length (drop (Suc q) t) \<or> n \<le> 31 then Inl OutOfBounds
               else Inr (take q t @ NL # indentedLineSpacing @ drop (Suc q) t @ replicate (n - 31) NUL,
                         drop (Suc q) t)))"
proof (cases "n = 0")
  case True
  then show ?thesis
    using assms by (simp add: fold_line_def read_str_def no_nul_def)
next
  case False
  have rd: "read_str (t @ replicate n NUL) = Inr t"
    using assms False by (simp add: read_str_def cbuf)
  show ?thesis
  proof (cases "strrchr t CHR '' ''")
    case None
    then show ?thesis
      using False rd by (simp add: fold_line_def)
  next
    case (Some q)
    then have q: "q < length t"
      using strrchr_Some by blast
    let ?w = "drop (Suc q) t"
    have upd: "(t @ replicate n NUL)[q := NL] = take q t @ NL # ?w @ replicate n NUL"
      using q by (simp add: list_update_append upd_conv_take_nth_drop)
    obtain m where m: "length t = Suc (q + m)"
      using q less_iff_Suc_add by blast
    then have "drop (Suc q + length (indentedLineSpacing @ ?w @ [NUL]))
        (take q t @ NL # ?w @ replicate n NUL) = replicate (n - 32) NUL"
      by (simp add: drop_Cons')
    moreover have "NUL # replicate (n - 32) NUL = replicate (n - 31) NUL" if "n > 31"
    proof -
      have "n - 31 = Suc (n - 32)"
        using that by simp
      then show ?thesis by simp
    qed
    ultimately show ?thesis
      using False rd q upd Some
      by (auto simp: fold_line_def strcpy_def put_def Let_def)
  qed
qed

lemma strncpy_zeros:
  assumes "k \<le> length s"
  shows "strncpy (t @ replicate n NUL) (length t) s k =
    (if k \<le> n then Inr ((t @ take k s) @ replicate (n - k) NUL) else Inl OutOfBounds)"
  using assms by (simp add: strncpy_def put_def)

text \<open>The copy after one round that wraps, and appends \<open>k\<close> characters of the message.\<close>

definition wrapped :: "string \<Rightarrow> nat \<Rightarrow> string \<Rightarrow> string" where
  "wrapped t q more = take q t @ NL # indentedLineSpacing @ drop (Suc q) t @ more"

lemma wrapped_append: "wrapped t q a @ b = wrapped t q (a @ b)"
  by (simp add: wrapped_def)

lemma length_wrapped: "q < length t \<Longrightarrow> length (wrapped t q more) = length t + 31 + length more"
  by (simp add: wrapped_def)

lemma strncpy_wrapped:
  assumes "k \<le> length s" and "31 < n"
  shows "strncpy (wrapped t q [] @ replicate (n - 31) NUL) (length (wrapped t q [])) s k =
    (if n < 31 + k then Inl OutOfBounds
     else Inr (wrapped t q (take k s) @ replicate (n - 31 - k) NUL))"
  unfolding strncpy_zeros [OF assms(1)] using assms(2) by (auto simp: wrapped_append)

lemma no_nul_wrapped [simp]: "no_nul t \<Longrightarrow> no_nul more \<Longrightarrow> no_nul (wrapped t q more)"
  by (simp add: wrapped_def)

text \<open>One round of the loop: far from the end of the message, near it, and past it.\<close>

lemma wrap_loop_done: "no_nul msg \<Longrightarrow> length msg \<le> i \<Longrightarrow> wrap_loop msg i lf tb = Inr tb"
  by (subst wrap_loop.simps) (simp add: cbuf)

lemma wrap_loop_at:
  assumes msg: "no_nul msg" and t: "no_nul t" and i: "i < length msg" and far: "50 \<le> length msg - i"
    and q: "strrchr t CHR '' '' = Some q" and n: "n \<noteq> 0"
    and wt: "wt = length (drop (Suc q) t)" and m: "m = min (length msg - i) 80" and k: "k = m - 31 - wt"
  shows "wrap_loop msg i lf (t @ replicate n NUL) =
    (if 255 \<le> wt \<or> n \<le> 31 \<or> m < 31 + wt \<or> n < 31 + k then Inl OutOfBounds
     else wrap_loop msg (i + k) k (wrapped t q (take k (drop i msg)) @ replicate (n - 31 - k) NUL))"
proof -
  have mif: "(if length msg - i < 80 then length msg - i else 80) = m"
    by (simp add: m)
  have wt': "length t - Suc q = wt"
    by (simp add: wt)
  have m31: "80 < length msg - i + 31"
    using far by simp
  show ?thesis
  proof (cases "255 \<le> wt \<or> n \<le> 31")
    case True
    then show ?thesis
      using msg i far q n by (subst wrap_loop.simps) (auto simp: cbuf fold_line_eq [OF t] wt')
  next
    case False
    have fold: "fold_line (t @ replicate n NUL) =
        Inr (wrapped t q [] @ replicate (n - 31) NUL, drop (Suc q) t)"
      using False q n by (simp add: fold_line_eq [OF t] wrapped_def wt)
    have c1: "cstr (wrapped t q [] @ replicate (n - 31) NUL) = wrapped t q []"
      using t by (simp add: cbuf)
    have neg: "int m - 31 - int wt < 0 \<longleftrightarrow> m < 31 + wt" and pos: "nat (int m - 31 - int wt) = k"
      by (auto simp: k)
    have kle: "k \<le> length (drop i msg)" and n31: "31 < n"
      using False by (simp_all add: k m)
    show ?thesis
      using i m31 False
      by (subst wrap_loop.simps)
        (simp only: cstr_no_nul [OF msg] fold c1 mif length_indent length_drop Let_def rbind.simps
          prod.case of_nat_numeral wt' neg pos strncpy_wrapped [OF kle n31] if_True split: if_splits,
         simp)
  qed
qed

lemma wrap_loop_wrap:
  assumes msg: "no_nul msg" and t: "no_nul t" and i: "i < length msg" and far: "50 \<le> length msg - i"
  shows "wrap_loop msg i lf (t @ replicate n NUL) =
    (if n = 0 then Inl OutOfBounds
     else case strrchr t CHR '' '' of
            None \<Rightarrow> Inl NullPointer
          | Some q \<Rightarrow>
              (let wt = length (drop (Suc q) t); m = min (length msg - i) 80; k = m - 31 - wt
               in if 255 \<le> wt \<or> n \<le> 31 \<or> m < 31 + wt \<or> n < 31 + k then Inl OutOfBounds
                  else wrap_loop msg (i + k) k
                         (wrapped t q (take k (drop i msg)) @ replicate (n - 31 - k) NUL)))"
proof (cases "n = 0 \<or> strrchr t CHR '' '' = None")
  case True
  then show ?thesis
    using msg t i far by (subst wrap_loop.simps) (auto simp: cbuf fold_line_eq)
next
  case False
  then obtain q where q: "strrchr t CHR '' '' = Some q" "n \<noteq> 0"
    by auto
  show ?thesis
    using q by (simp add: wrap_loop_at [OF msg t i far q refl refl refl] Let_def)
qed

lemma wrap_loop_tail:
  assumes msg: "no_nul msg" and t: "no_nul t" and i: "i < length msg" and near: "length msg - i < 50"
  shows "wrap_loop msg i lf (t @ replicate n NUL) =
    (if n = 0 then Inl OutOfBounds
     else case strrchr t NL of
            None \<Rightarrow> Inl NullPointer
          | Some p \<Rightarrow>
              (if 80 < length (drop p t) + (length msg - i)
               then (case strrchr t CHR '' '' of
                       None \<Rightarrow> Inl NullPointer
                     | Some q \<Rightarrow>
                         (if 255 \<le> length (drop (Suc q) t) \<or> n \<le> 31 \<or> n - 31 < length msg - i
                          then Inl OutOfBounds
                          else wrap_loop msg (i + lf) lf (wrapped t q (drop i msg)
                                 @ replicate (n - 31 - (length msg - i)) NUL)))
               else if length msg - i \<le> n
               then wrap_loop msg (i + lf) lf ((t @ drop i msg) @ replicate (n - (length msg - i)) NUL)
               else Inl OutOfBounds))"
proof (cases "n = 0")
  case True
  then show ?thesis
    using msg t i near by (subst wrap_loop.simps) (simp add: cbuf read_str_def no_nul_def)
next
  case False
  have rd: "read_str (t @ replicate n NUL) = Inr t"
    using t False by (simp add: read_str_def cbuf)
  have ap: "strncpy (t @ replicate n NUL) (length t) (drop i msg) (length msg - i) =
      (if length msg - i \<le> n then Inr ((t @ drop i msg) @ replicate (n - (length msg - i)) NUL)
       else Inl OutOfBounds)"
    by (simp add: strncpy_zeros)
  have c1: "cstr (wrapped t q [] @ replicate k NUL) = wrapped t q []" for q k
    using t by (simp add: cbuf)
  have cp: "strncpy (wrapped t q [] @ replicate (n - 31) NUL) (length (wrapped t q [])) (drop i msg)
        (length msg - i) =
      (if n - 31 < length msg - i then Inl OutOfBounds
       else Inr (wrapped t q (drop i msg) @ replicate (n - 31 - (length msg - i)) NUL))" for q
    by (subst strncpy_zeros) (simp_all add: wrapped_append)
  have fold: "fold_line (t @ replicate n NUL) =
      (case strrchr t CHR '' '' of
         None \<Rightarrow> Inl NullPointer
       | Some q \<Rightarrow>
           (if 255 \<le> length (drop (Suc q) t) \<or> n \<le> 31 then Inl OutOfBounds
            else Inr (wrapped t q [] @ replicate (n - 31) NUL, drop (Suc q) t)))"
    using False by (simp add: fold_line_eq [OF t] wrapped_def split: option.splits)
  show ?thesis
    using i near False
    by (subst wrap_loop.simps)
      (simp only: cstr_no_nul [OF msg] rd ap fold c1 cp length_indent length_drop Let_def rbind.simps
        prod.case, auto split: option.splits simp: ap c1 cp)
qed

text \<open>What a round that does not fault has done.\<close>

lemma wrap_loop_far:
  assumes "no_nul msg" and "no_nul t" and "i < length msg"
    and "wrap_loop msg i lf (t @ replicate n NUL) = Inr tb" and "50 \<le> length msg - i"
  obtains q k where "strrchr t CHR '' '' = Some q" "k \<le> 49" "k \<le> length msg - i" "31 + k \<le> n"
    "wrap_loop msg (i + k) k (wrapped t q (take k (drop i msg)) @ replicate (n - 31 - k) NUL) = Inr tb"
proof -
  obtain q where q: "n \<noteq> 0" "strrchr t CHR '' '' = Some q"
    using assms(4) unfolding wrap_loop_wrap [OF assms(1-3,5)]
    by (cases "n = 0"; cases "strrchr t CHR '' ''") auto
  define k where "k = min (length msg - i) 80 - 31 - length (drop (Suc q) t)"
  have eq: "wrap_loop msg i lf (t @ replicate n NUL) =
      (if 255 \<le> length (drop (Suc q) t) \<or> n \<le> 31
          \<or> min (length msg - i) 80 < 31 + length (drop (Suc q) t) \<or> n < 31 + k
       then Inl OutOfBounds
       else wrap_loop msg (i + k) k
              (wrapped t q (take k (drop i msg)) @ replicate (n - 31 - k) NUL))"
    unfolding wrap_loop_wrap [OF assms(1-3,5)] k_def Let_def using q by simp
  have ok: "\<not> (255 \<le> length (drop (Suc q) t) \<or> n \<le> 31
        \<or> min (length msg - i) 80 < 31 + length (drop (Suc q) t) \<or> n < 31 + k)"
  proof
    assume "255 \<le> length (drop (Suc q) t) \<or> n \<le> 31
        \<or> min (length msg - i) 80 < 31 + length (drop (Suc q) t) \<or> n < 31 + k"
    with eq assms(4) show False by simp
  qed
  then have run: "wrap_loop msg (i + k) k
      (wrapped t q (take k (drop i msg)) @ replicate (n - 31 - k) NUL) = Inr tb"
    using eq assms(4) by simp
  have "k \<le> 49" "k \<le> length msg - i"
    by (simp_all add: k_def)
  moreover have "31 + k \<le> n"
    using ok by linarith
  ultimately show ?thesis
    using that [OF q(2)] run by blast
qed

lemma wrap_loop_round:
  assumes "no_nul msg" and "no_nul t" and "i < length msg"
    and "wrap_loop msg i lf (t @ replicate n NUL) = Inr tb"
  obtains (far) q k where "50 \<le> length msg - i" "strrchr t CHR '' '' = Some q" "k \<le> 49"
      "k \<le> length msg - i" "31 + k \<le> n"
      "wrap_loop msg (i + k) k (wrapped t q (take k (drop i msg)) @ replicate (n - 31 - k) NUL) = Inr tb"
  | (near) q where "length msg - i < 50" "strrchr t CHR '' '' = Some q" "31 + (length msg - i) \<le> n"
      "wrap_loop msg (i + lf) lf (wrapped t q (drop i msg) @ replicate (n - 31 - (length msg - i)) NUL)
         = Inr tb"
  | (tail) "length msg - i < 50" "length msg - i \<le> n"
      "wrap_loop msg (i + lf) lf ((t @ drop i msg) @ replicate (n - (length msg - i)) NUL) = Inr tb"
proof (cases "50 \<le> length msg - i")
  case True
  then show ?thesis
    using wrap_loop_far [OF assms True] far by blast
next
  case False
  then have lt: "length msg - i < 50"
    by simp
  note eq = wrap_loop_tail [OF assms(1-3) lt, of lf n]
  obtain p where p: "n \<noteq> 0" "strrchr t NL = Some p"
    using assms(4) unfolding eq by (cases "n = 0"; cases "strrchr t NL") auto
  show ?thesis
  proof (cases "80 < length (drop p t) + (length msg - i)")
    case True
    then obtain q where q: "strrchr t CHR '' '' = Some q"
      using assms(4) p unfolding eq by (cases "strrchr t CHR '' ''") auto
    have ok: "\<not> (255 \<le> length (drop (Suc q) t) \<or> n \<le> 31 \<or> n - 31 < length msg - i)"
      using assms(4) p q True unfolding eq by (auto split: if_splits)
    then have "wrap_loop msg (i + lf) lf
        (wrapped t q (drop i msg) @ replicate (n - 31 - (length msg - i)) NUL) = Inr tb"
      using assms(4) p q True unfolding eq by simp
    moreover have "31 + (length msg - i) \<le> n"
      using ok by linarith
    ultimately show ?thesis
      using near [OF lt q] by blast
  next
    case False
    then show ?thesis
      using assms(4) p tail [OF lt] unfolding eq by (simp split: if_splits)
  qed
qed

section \<open>Interface: what every round of the loop keeps\<close>

text \<open>
  A property of the position \<open>i\<close> in the message, the copied text \<open>t\<close> and the number
  \<open>n\<close> of free bytes after it that the three kinds of round keep: it holds when the loop
  ends.
\<close>

locale wrap_invariant =
  fixes msg :: string
    and holds :: "nat \<Rightarrow> string \<Rightarrow> nat \<Rightarrow> bool"
  assumes msg: "no_nul msg"
    and wrap: "holds i t n \<Longrightarrow> i < length msg \<Longrightarrow> 50 \<le> length msg - i \<Longrightarrow> q < length t \<Longrightarrow>
        t ! q = CHR '' '' \<Longrightarrow> k \<le> 49 \<Longrightarrow> k \<le> length msg - i \<Longrightarrow> 31 + k \<le> n \<Longrightarrow>
        holds (i + k) (wrapped t q (take k (drop i msg))) (n - 31 - k)"
    and wrap_last: "holds i t n \<Longrightarrow> i < length msg \<Longrightarrow> length msg - i < 50 \<Longrightarrow> q < length t \<Longrightarrow> t ! q = CHR '' '' \<Longrightarrow>
        31 + (length msg - i) \<le> n \<Longrightarrow>
        holds (i + lf) (wrapped t q (drop i msg)) (n - 31 - (length msg - i))"
    and append_last: "holds i t n \<Longrightarrow> i < length msg \<Longrightarrow> length msg - i < 50 \<Longrightarrow> length msg - i \<le> n \<Longrightarrow>
        holds (i + lf) (t @ drop i msg) (n - (length msg - i))"
begin

lemma loop:
  "no_nul t \<Longrightarrow> holds i t n \<Longrightarrow> wrap_loop msg i lf (t @ replicate n NUL) = Inr tb \<Longrightarrow>
     \<exists>i' t' n'. tb = t' @ replicate n' NUL \<and> no_nul t' \<and> holds i' t' n' \<and> length msg \<le> i'"
proof (induction n arbitrary: i lf t rule: less_induct)
  case (less n)
  show ?case
  proof (cases "i < length msg")
    case False
    then have "tb = t @ replicate n NUL"
      using less.prems(3) wrap_loop_done [OF msg, of i lf "t @ replicate n NUL"] by simp
    with False less.prems(1,2) show ?thesis
      using not_less by blast
  next
    case i: True
    have n: "n \<noteq> 0"
    proof
      assume "n = 0"
      with less.prems(3) show False
        using wrap_loop_wrap [OF msg less.prems(1) i, of lf 0]
          wrap_loop_tail [OF msg less.prems(1) i, of lf 0]
        by (cases "50 \<le> length msg - i") simp_all
    qed
    have space: "q < length t" "t ! q = CHR '' ''" if "strrchr t CHR '' '' = Some q" for q
      using strrchr_Some [OF that] by simp_all
    from msg less.prems(1) i less.prems(3) show ?thesis
    proof (cases rule: wrap_loop_round)
      case (far q k)
      have "holds (i + k) (wrapped t q (take k (drop i msg))) (n - 31 - k)"
        by (rule wrap [OF less.prems(2) i far(1) space [OF far(2)] far(3-5)])
      then show ?thesis
        using less.IH [OF _ _ _ far(6)] less.prems(1) msg n far(5) by simp
    next
      case (near q)
      have "holds (i + lf) (wrapped t q (drop i msg)) (n - 31 - (length msg - i))"
        by (rule wrap_last [OF less.prems(2) i near(1) space [OF near(2)] near(3)])
      then show ?thesis
        using less.IH [OF _ _ _ near(4)] less.prems(1) msg n by simp
    next
      case tail
      have "holds (i + lf) (t @ drop i msg) (n - (length msg - i))"
        by (rule append_last [OF less.prems(2) i tail(1,2)])
      then show ?thesis
        using less.IH [OF _ _ _ tail(3)] less.prems(1) msg n i by simp
    qed
  qed
qed

end

section \<open>What wrapping keeps, and the room it takes\<close>

text \<open>The characters of a text that are not blank.\<close>

definition ink :: "string \<Rightarrow> string" where
  "ink s = filter (\<lambda>c. c \<noteq> CHR '' '' \<and> c \<noteq> NL \<and> c \<noteq> TAB) s"

lemma ink_append [simp]: "ink (s @ t) = ink s @ ink t"
  by (simp add: ink_def)

lemma ink_space: "ink (s @ CHR '' '' # t) = ink s @ ink t"
  by (simp add: ink_def)

lemma ink_indent: "ink (NL # indentedLineSpacing @ t) = ink t"
  by (simp add: ink_def indentedLineSpacing_def)

lemma ink_wrapped:
  assumes "q < length t" and "t ! q = CHR '' ''"
  shows "ink (wrapped t q more) = ink t @ ink more"
proof -
  have "t = take q t @ CHR '' '' # drop (Suc q) t"
    using assms by (metis id_take_nth_drop)
  then have "ink t = ink (take q t) @ ink (drop (Suc q) t)"
    using ink_space by metis
  then show ?thesis
    by (simp add: wrapped_def ink_indent)
qed

definition ink_kept :: "string \<Rightarrow> nat \<Rightarrow> string \<Rightarrow> nat \<Rightarrow> bool" where
  "ink_kept msg i t n \<longleftrightarrow> ink t = ink (take i msg) \<or> (\<exists>r. ink t = ink msg @ r)"

lemma ink_rest: "ink_kept msg i t n \<Longrightarrow> \<exists>r. ink t @ ink (drop i msg) = ink msg @ r"
  unfolding ink_kept_def by (metis append_assoc append_take_drop_id append_Nil2 ink_append)

interpretation ink: wrap_invariant "cstr msg" "ink_kept (cstr msg)" for msg
proof
  fix i t n q k
  assume "ink_kept (cstr msg) i t n" and "q < length t" and "t ! q = CHR '' ''"
  then show "ink_kept (cstr msg) (i + k) (wrapped t q (take k (drop i (cstr msg)))) (n - 31 - k)"
    by (auto simp: ink_kept_def ink_wrapped take_add)
next
  fix i t n q lf
  assume "ink_kept (cstr msg) i t n" and "q < length t" and "t ! q = CHR '' ''"
  then show "ink_kept (cstr msg) (i + lf) (wrapped t q (drop i (cstr msg)))
      (n - 31 - (length (cstr msg) - i))"
    using ink_rest ink_wrapped by (simp add: ink_kept_def)
next
  fix i t n lf
  assume "ink_kept (cstr msg) i t n"
  then show "ink_kept (cstr msg) (i + lf) (t @ drop i (cstr msg)) (n - (length (cstr msg) - i))"
    using ink_rest by (simp add: ink_kept_def)
qed simp

text \<open>
  A round appends at least 31 + \<open>k\<close> characters for \<open>k \<le> 49\<close> of the message: 80 for 49.
\<close>

definition room_taken :: "string \<Rightarrow> nat \<Rightarrow> nat \<Rightarrow> string \<Rightarrow> nat \<Rightarrow> bool" where
  "room_taken msg cap i t n \<longleftrightarrow> length t + n = cap
     \<and> (80 * i \<le> 49 * length t + 2480 \<or> 80 * length msg \<le> 49 * length t + 3999)"

interpretation room: wrap_invariant "cstr msg" "room_taken (cstr msg) cap" for msg cap
  by unfold_locales (auto simp: room_taken_def length_wrapped)

text \<open>The first 80 characters, and what comes back at the end.\<close>

lemma wrapLines_start:
  assumes "80 \<le> length msg" and "80 \<le> msgSize"
  shows "strncpy (replicate msgSize NUL) 0 msg 80 = Inr (take 80 msg @ replicate (msgSize - 80) NUL)"
  using assms by (simp add: strncpy_def put_def)

lemma wrapLines_end:
  assumes "no_nul t" and "length t + n = msgSize"
    and "rbind (strncpy (replicate msgSize NUL) 0 (cstr (t @ replicate n NUL)) msgSize) (\<lambda>buf.
       rbind (read_str buf) (\<lambda>s.
         if s = [] then Inl OutOfBounds
         else if last s \<noteq> NL then rbind (strcpy buf (length s) [NL]) read_str
         else Inr s)) = Inr out"
  shows "out = (if last t = NL then t else t @ [NL])"
proof -
  have buf: "strncpy (replicate msgSize NUL) 0 t msgSize = Inr (t @ replicate n NUL)"
    using assms(2) by (auto simp: strncpy_def put_def)
  have c: "cstr (t @ replicate n NUL) = t"
    using assms(1) by (rule cstr_append_zeros)
  have "n \<noteq> 0" "t \<noteq> []"
    using assms(1,3) unfolding c buf
    by (auto simp: read_str_def no_nul_def cbuf split: if_splits)
  then have rd: "read_str (t @ replicate n NUL) = Inr t"
    using c by (simp add: read_str_def)
  show ?thesis
  proof (cases "last t = NL")
    case True
    then show ?thesis
      using assms(3) rd \<open>t \<noteq> []\<close> unfolding c buf by simp
  next
    case False
    have eq: "rbind (strcpy (t @ replicate n NUL) (length t) [NL]) read_str = Inr out"
      using assms(3) rd False \<open>t \<noteq> []\<close> unfolding c buf by simp
    then have "2 \<le> n"
      by (cases "2 \<le> n") (simp_all add: strcpy_def put_def)
    then have "strcpy (t @ replicate n NUL) (length t) [NL] = Inr (t @ NL # NUL # replicate (n - 2) NUL)"
      by (simp add: strcpy_def put_def)
    moreover have "read_str ((t @ [NL]) @ NUL # replicate (n - 2) NUL) = Inr (t @ [NL])"
      using assms(1) by (simp only: read_str_def) (simp add: cstr_append_NUL [of "t @ [NL]", simplified])
    ultimately show ?thesis
      using eq False by simp
  qed
qed

lemma wrapLines_result:
  assumes "no_nul msg" and "80 \<le> length msg" and "80 \<le> msgSize" and "wrapLines msg msgSize = Inr out"
  obtains i t n where "out = (if last t = NL then t else t @ [NL])" "no_nul t"
    "ink_kept msg i t n" "room_taken msg msgSize i t n" "length msg \<le> i"
proof -
  obtain tb where tb: "wrap_loop msg 80 80 (take 80 msg @ replicate (msgSize - 80) NUL) = Inr tb"
    using assms(4) unfolding wrapLines_def wrapLines_start [OF assms(2,3)] by (auto simp: rbind_eq_Inr)
  have c: "cstr msg = msg" and t: "no_nul (take 80 msg)"
    using assms(1) by (simp_all add: cbuf)
  have "ink_kept (cstr msg) 80 (take 80 msg) (msgSize - 80)"
    by (simp add: ink_kept_def c)
  then obtain i t n where r1: "tb = t @ replicate n NUL" "no_nul t" "ink_kept msg i t n" "length msg \<le> i"
    using ink.loop [OF t, of msg 80 "msgSize - 80" 80 tb] tb unfolding c by blast
  have "room_taken (cstr msg) msgSize 80 (take 80 msg) (msgSize - 80)"
    using assms(2,3) by (simp add: room_taken_def)
  then obtain i' t' n' where r2: "tb = t' @ replicate n' NUL" "no_nul t'" "room_taken msg msgSize i' t' n'"
      "length msg \<le> i'"
    using room.loop [OF t, of msg msgSize 80 "msgSize - 80" 80 tb] tb unfolding c by blast
  have "t' = t"
    using r1(1,2) r2(1,2) by (metis cstr_append_zeros)
  moreover have "length t + n = length t' + n'"
    using r1(1) r2(1) by (metis length_append length_replicate)
  ultimately have "room_taken msg msgSize i' t n"
    using r2(3) by simp
  then have "room_taken msg msgSize (max i i') t n" "length t + n = msgSize"
    using r1(4) r2(4) by (auto simp: room_taken_def max_def)
  moreover have "ink_kept msg (max i i') t n"
    using r1(3,4) by (auto simp: ink_kept_def max_def)
  moreover have "out = (if last t = NL then t else t @ [NL])"
    using wrapLines_end [OF r1(2) \<open>length t + n = msgSize\<close>] assms(4) tb
    unfolding wrapLines_def wrapLines_start [OF assms(2,3)] r1(1) by simp
  ultimately show thesis
    using that r1(2,4) by (metis max.coboundedI1)
qed

section \<open>Properties\<close>

text \<open>A line of words of nine letters, for the witnesses.\<close>

definition word_line :: "nat \<Rightarrow> string" where
  "word_line n = concat (replicate n (replicate 9 CHR ''x'' @ '' '')) @ [NL]"

lemma length_word_line: "length (word_line n) = 10 * n + 1"
  by (induction n) (simp_all add: word_line_def)

lemma no_nul_word_line: "no_nul (word_line n)"
  by (induction n) (simp_all add: word_line_def)

text \<open>C30. When \<open>wrapLines\<close> returns, the text it leaves ends in a newline and begins with all
  of the message's characters in order, blanks apart: nothing is lost or moved.\<close>

theorem wrapLines_keeps_text:
  assumes "no_nul msg" and "80 \<le> length msg" and "80 \<le> msgSize" and "wrapLines msg msgSize = Inr out"
  shows "(\<exists>r. ink out = ink msg @ r) \<and> last out = NL"
proof -
  obtain i t n where t: "out = (if last t = NL then t else t @ [NL])" "ink_kept msg i t n" "length msg \<le> i"
    using assms by (rule wrapLines_result)
  have "ink [NL] = []"
    by (simp add: ink_def)
  then show ?thesis
    using t by (auto simp: ink_kept_def)
qed

theorem wrapLines_keeps_text_witness:
  "\<exists>out. wrapLines (word_line 15) 300 = Inr out
     \<and> (\<exists>r. ink out = ink (word_line 15) @ r) \<and> last out = NL"
proof -
  have "\<not> failed (wrapLines (word_line 15) 300)"
    by code_simp
  then obtain out where out: "wrapLines (word_line 15) 300 = Inr out"
    by (cases "wrapLines (word_line 15) 300") simp_all
  have "80 \<le> length (word_line 15)"
    by (simp add: length_word_line)
  then show ?thesis
    using wrapLines_keeps_text [OF no_nul_word_line _ _ out] out by simp
qed

text \<open>But it may say some of it twice: a last part that is appended is appended again in
  the next round when the round before had taken fewer characters than it has.\<close>

lemma wrapLines_repeats:
  "\<exists>out. wrapLines (word_line 19) 312 = Inr out
     \<and> ink out = ink (word_line 19) @ replicate 15 CHR ''x''"
proof -
  have "(case wrapLines (word_line 19) 312 of
      Inl e \<Rightarrow> False | Inr out \<Rightarrow> ink out = ink (word_line 19) @ replicate 15 CHR ''x'')"
    by code_simp
  then show ?thesis
    by (auto split: sum.splits)
qed

text \<open>Every message of 81 to 129 characters, if the first 80 have no newline among them,
  makes \<open>wrapLines\<close> read through a null pointer: near its end it looks for the newline of
  a line that has been wrapped already, and there is none.\<close>

lemma wrapLines_short:
  assumes "no_nul msg" and "80 < length msg" and "length msg < 130" and "NL \<notin> set (take 80 msg)"
    and "80 < msgSize"
  shows "wrapLines msg msgSize = Inl NullPointer"
proof -
  have "no_nul (take 80 msg)" "80 < length msg" "length msg - 80 < 50"
    using assms(1-3) by simp_all
  then have "wrap_loop msg 80 80 (take 80 msg @ replicate (msgSize - 80) NUL) = Inl NullPointer"
    using wrap_loop_tail [OF assms(1), of "take 80 msg" 80 80 "msgSize - 80"] assms(4,5)
      strrchr_None [of "take 80 msg" NL] by simp
  then show ?thesis
    using assms(2,5) by (simp add: wrapLines_def wrapLines_start)
qed

text \<open>A longer message with 50 characters without a space before the first break makes the
  number of characters to copy negative, and \<open>strncpy\<close> write far past its buffer.\<close>

lemma wrapLines_long_word_faults:
  assumes "no_nul msg" and "130 \<le> length msg" and "CHR '' '' \<in> set (take 80 msg)"
    and "CHR '' '' \<notin> set (drop 30 (take 80 msg))" and "80 \<le> msgSize"
  shows "wrapLines msg msgSize = Inl OutOfBounds"
proof -
  have t: "no_nul (take 80 msg)" "80 < length msg" "50 \<le> length msg - 80"
    using assms(1,2) by simp_all
  obtain q where q: "strrchr (take 80 msg) CHR '' '' = Some q"
    using assms(3) strrchr_None [of "take 80 msg" "CHR '' ''"] by (cases "strrchr (take 80 msg) CHR '' ''") auto
  then have "q < 80" "take 80 msg ! q = CHR '' ''"
    using strrchr_Some [OF q] by simp_all
  have "q < 30"
  proof (rule ccontr)
    assume "\<not> q < 30"
    then have "drop 30 (take 80 msg) ! (q - 30) = CHR '' ''" "q - 30 < length (drop 30 (take 80 msg))"
      using \<open>q < 80\<close> \<open>take 80 msg ! q = CHR '' ''\<close> t(2) by simp_all
    then show False
      using assms(4) nth_mem by metis
  qed
  then have "80 < 31 + length (drop (Suc q) (take 80 msg))"
    using t(2) by simp
  then have "min (length msg - 80) 80 < 31 + length (drop (Suc q) (take 80 msg))"
    by (rule le_less_trans [OF min.cobounded2])
  then have "wrap_loop msg 80 80 (take 80 msg @ replicate (msgSize - 80) NUL) = Inl OutOfBounds"
    unfolding wrap_loop_wrap [OF assms(1) t, of 80 "msgSize - 80"] Let_def by (simp add: q)
  then show ?thesis
    using t(2) assms(5) by (simp add: wrapLines_def wrapLines_start)
qed

text \<open>The block of a message has 32 bytes more for each 80 characters, while wrapping can
  take 31 more for each 49: a message of 1000 characters is never wrapped in its block.\<close>

lemma wrapLines_long_faults:
  assumes "no_nul msg" and "1000 \<le> length msg" and "80 \<le> msgSize"
    and "msgSize \<le> length msg + 32 * (length msg div 80) + 150"
  shows "failed (wrapLines msg msgSize)"
proof (rule ccontr)
  assume "\<not> failed (wrapLines msg msgSize)"
  then obtain out where out: "wrapLines msg msgSize = Inr out"
    by (cases "wrapLines msg msgSize") simp_all
  have "80 \<le> length msg"
    using assms(2) by simp
  obtain i t n where "room_taken msg msgSize i t n" "length msg \<le> i"
    by (rule wrapLines_result [OF assms(1) \<open>80 \<le> length msg\<close> assms(3) out])
  then have "80 * length msg \<le> 49 * msgSize + 3999"
    by (auto simp: room_taken_def)
  moreover have "80 * (length msg div 80) \<le> length msg"
    by simp
  ultimately show False
    using assms(2,4) by linarith
qed

end
