(* ===== verification/Logger.thy ===== *)
theory Logger
  imports Decimal Wrap
begin

text \<open>
  The logger, \<^verbatim>\<open>c/simplog.h\<close> and \<^verbatim>\<open>c/simplog.c\<close>, without its configuration file and its
  stack traces: the settings and the operations that change them, and \<open>writeLog\<close>.

  The state is the settings together with what the logger acts on: the files, the bytes
  written to the two standard streams, \<open>errno\<close> and the time. Standard output is a
  terminal, which a line is written to at once. Memory is always to be had (no \<open>malloc\<close>
  of the file is checked).
\<close>

section \<open>The C library\<close>

record log_time =
  tm_year :: nat
  tm_mon :: nat
  tm_mday :: nat
  tm_hour :: nat
  tm_min :: nat
  tm_sec :: nat

definition two_digits :: "nat \<Rightarrow> string" where
  "two_digits n = replicate (2 - length (show_nat n)) CHR ''0'' @ show_nat n"

text \<open>\<open>strftime\<close> with \<open>"[%F %T]"\<close>.\<close>

definition getDateString :: "log_time \<Rightarrow> string" where
  "getDateString t = ''['' @ show_nat (tm_year t) @ ''-'' @ two_digits (tm_mon t) @ ''-''
     @ two_digits (tm_mday t) @ '' '' @ two_digits (tm_hour t) @ '':'' @ two_digits (tm_min t)
     @ '':'' @ two_digits (tm_sec t) @ '']''"

definition ENOENT :: nat where "ENOENT = 2"
definition EBADF :: nat where "EBADF = 9"
definition EACCES :: nat where "EACCES = 13"

definition ENOSPC :: nat where "ENOSPC = 28"

text \<open>The names of the errors in glibc; the numbers 41 and 58 have none.\<close>

definition error_names :: "string list" where
  "error_names =
    [''Success'', ''Operation not permitted'', ''No such file or directory'', ''No such process'',
     ''Interrupted system call'', ''Input/output error'', ''No such device or address'',
     ''Argument list too long'', ''Exec format error'', ''Bad file descriptor'', ''No child processes'',
     ''Resource temporarily unavailable'', ''Cannot allocate memory'', ''Permission denied'',
     ''Bad address'', ''Block device required'', ''Device or resource busy'', ''File exists'',
     ''Invalid cross-device link'', ''No such device'', ''Not a directory'', ''Is a directory'',
     ''Invalid argument'', ''Too many open files in system'', ''Too many open files'',
     ''Inappropriate ioctl for device'', ''Text file busy'', ''File too large'',
     ''No space left on device'', ''Illegal seek'', ''Read-only file system'', ''Too many links'',
     ''Broken pipe'', ''Numerical argument out of domain'', ''Numerical result out of range'',
     ''Resource deadlock avoided'', ''File name too long'', ''No locks available'',
     ''Function not implemented'', ''Directory not empty'', ''Too many levels of symbolic links'', '''',
     ''No message of desired type'', ''Identifier removed'', ''Channel number out of range'',
     ''Level 2 not synchronized'', ''Level 3 halted'', ''Level 3 reset'', ''Link number out of range'',
     ''Protocol driver not attached'', ''No CSI structure available'', ''Level 2 halted'',
     ''Invalid exchange'', ''Invalid request descriptor'', ''Exchange full'', ''No anode'',
     ''Invalid request code'', ''Invalid slot'', '''', ''Bad font file format'', ''Device not a stream'',
     ''No data available'', ''Timer expired'', ''Out of streams resources'',
     ''Machine is not on the network'', ''Package not installed'', ''Object is remote'',
     ''Link has been severed'', ''Advertise error'', ''Srmount error'', ''Communication error on send'',
     ''Protocol error'', ''Multihop attempted'', ''RFS specific error'', ''Bad message'',
     ''Value too large for defined data type'', ''Name not unique on network'',
     ''File descriptor in bad state'', ''Remote address changed'',
     ''Can not access a needed shared library'', ''Accessing a corrupted shared library'',
     ''.lib section in a.out corrupted'', ''Attempting to link in too many shared libraries'',
     ''Cannot exec a shared library directly'', ''Invalid or incomplete multibyte or wide character'',
     ''Interrupted system call should be restarted'', ''Streams pipe error'', ''Too many users'',
     ''Socket operation on non-socket'', ''Destination address required'', ''Message too long'',
     ''Protocol wrong type for socket'', ''Protocol not available'', ''Protocol not supported'',
     ''Socket type not supported'', ''Operation not supported'', ''Protocol family not supported'',
     ''Address family not supported by protocol'', ''Address already in use'',
     ''Cannot assign requested address'', ''Network is down'', ''Network is unreachable'',
     ''Network dropped connection on reset'', ''Software caused connection abort'',
     ''Connection reset by peer'', ''No buffer space available'',
     ''Transport endpoint is already connected'', ''Transport endpoint is not connected'',
     ''Cannot send after transport endpoint shutdown'', ''Too many references: cannot splice'',
     ''Connection timed out'', ''Connection refused'', ''Host is down'', ''No route to host'',
     ''Operation already in progress'', ''Operation now in progress'', ''Stale file handle'',
     ''Structure needs cleaning'', ''Not a XENIX named type file'', ''No XENIX semaphores available'',
     ''Is a named type file'', ''Remote I/O error'', ''Disk quota exceeded'', ''No medium found'',
     ''Wrong medium type'', ''Operation canceled'', ''Required key not available'', ''Key has expired'',
     ''Key has been revoked'', ''Key was rejected by service'', ''Owner died'', ''State not recoverable'',
     ''Operation not possible due to RF-kill'', ''Memory page has hardware error'']"

definition strerror :: "nat \<Rightarrow> string" where
  "strerror e =
     (if e < length error_names \<and> error_names ! e \<noteq> [] then error_names ! e
      else ''Unknown error '' @ show_nat e)"

text \<open>
  The conversions \<open>%d\<close>, \<open>%ld\<close>, \<open>%x\<close>, \<open>%2x\<close>, \<open>%s\<close> and \<open>%lu\<close>; any other, or a missing
  argument, is undefined.
\<close>

datatype farg = FInt int | FStr string | FNat nat

definition hex_text :: "int \<Rightarrow> string" where
  "hex_text i = show_hex 97 (nat (i mod 2 ^ 32)) []"

definition two_blanks :: "string \<Rightarrow> string" where
  "two_blanks s = replicate (2 - length s) CHR '' '' @ s"

fun vformat :: "string \<Rightarrow> farg list \<Rightarrow> string result" where
  "vformat [] args = Inr []"
| "vformat (c # cs) args =
     (if c \<noteq> CHR ''%'' then rbind (vformat cs args) (\<lambda>s. Inr (c # s))
      else case (cs, args) of
             (d # cs', FInt i # args') \<Rightarrow>
               if d = CHR ''d'' then rbind (vformat cs' args') (\<lambda>s. Inr (show_int i @ s))
               else if d = CHR ''x'' then rbind (vformat cs' args') (\<lambda>s. Inr (hex_text i @ s))
               else (case cs' of
                       d' # cs'' \<Rightarrow>
                         if d = CHR ''l'' \<and> d' = CHR ''d''
                         then rbind (vformat cs'' args') (\<lambda>s. Inr (show_int i @ s))
                         else if d = CHR ''2'' \<and> d' = CHR ''x''
                         then rbind (vformat cs'' args') (\<lambda>s. Inr (two_blanks (hex_text i) @ s))
                         else Inl Uninitialised
                     | [] \<Rightarrow> Inl Uninitialised)
           | (d # cs', FStr t # args') \<Rightarrow>
               if d = CHR ''s'' then rbind (vformat cs' args') (\<lambda>s. Inr (t @ s))
               else Inl Uninitialised
           | (d # d' # cs', FNat n # args') \<Rightarrow>
               if d = CHR ''l'' \<and> d' = CHR ''u''
               then rbind (vformat cs' args') (\<lambda>s. Inr (show_nat n @ s))
               else Inl Uninitialised
           | _ \<Rightarrow> Inl Uninitialised)"

text \<open>\<open>sprintf(buf + strlen(buf), ...)\<close> into a block of \<open>cap\<close> bytes that holds \<open>s\<close>.\<close>

definition sprintf_end :: "nat \<Rightarrow> string \<Rightarrow> string \<Rightarrow> string result" where
  "sprintf_end cap s t = (if length s + length t < cap then Inr (s @ t) else Inl OutOfBounds)"

section \<open>State\<close>

abbreviation SIMPLOG_FATAL :: int where "SIMPLOG_FATAL \<equiv> - 2"
abbreviation SIMPLOG_ERROR :: int where "SIMPLOG_ERROR \<equiv> - 1"
abbreviation SIMPLOG_INFO :: int where "SIMPLOG_INFO \<equiv> 0"
abbreviation SIMPLOG_WARN :: int where "SIMPLOG_WARN \<equiv> 1"
abbreviation SIMPLOG_DEBUG :: int where "SIMPLOG_DEBUG \<equiv> 2"
abbreviation SIMPLOG_VERBOSE :: int where "SIMPLOG_VERBOSE \<equiv> 3"
abbreviation SIMPLOG_LOGGER :: int where "SIMPLOG_LOGGER \<equiv> 4"
abbreviation SIMPLOG_TRACE :: int where "SIMPLOG_TRACE \<equiv> 5"

definition COL_NORM :: string where "COL_NORM = CHR 0x1B # ''[0m''"
definition COL_FATAL :: string where "COL_FATAL = CHR 0x1B # ''[31m''"
definition COL_ERROR :: string where "COL_ERROR = CHR 0x1B # ''[91m''"
definition COL_INFO :: string where "COL_INFO = CHR 0x1B # ''[37m''"
definition COL_WARN :: string where "COL_WARN = CHR 0x1B # ''[33m''"
definition COL_DEBUG :: string where "COL_DEBUG = CHR 0x1B # ''[94m''"
definition COL_VERBOSE :: string where "COL_VERBOSE = CHR 0x1B # ''[36m''"
definition COL_LOGGER :: string where "COL_LOGGER = CHR 0x1B # ''[90m''"
definition COL_TRACE :: string where "COL_TRACE = CHR 0x1B # ''[95m''"

record logger =
  dbgLevel :: int
  logFile :: "char list"
  silentMode :: bool
  lineWrap :: bool
  lg_files :: "string \<Rightarrow> char list option"
  lg_denied :: "string \<Rightarrow> bool"
  lg_kept :: "string \<Rightarrow> bool"
  lg_stdout :: "char list"
  lg_stderr :: "char list"
  lg_errno :: nat
  lg_time :: log_time

text \<open>
  \<open>lg_denied\<close> are the paths \<open>open\<close> fails for, \<open>lg_kept\<close> those \<open>remove\<close> fails for. The
  settings a process starts with:
\<close>

definition logger_start ::
  "(string \<Rightarrow> char list option) \<Rightarrow> (string \<Rightarrow> bool) \<Rightarrow> (string \<Rightarrow> bool) \<Rightarrow> log_time \<Rightarrow> logger" where
  "logger_start fs denied kept t = \<lparr>dbgLevel = SIMPLOG_DEBUG,
     logFile = ''default.log'' @ replicate 244 NUL, silentMode = False, lineWrap = True,
     lg_files = fs, lg_denied = denied, lg_kept = kept, lg_stdout = [], lg_stderr = [],
     lg_errno = 0, lg_time = t\<rparr>"

section \<open>writeLog\<close>

definition open_log :: "string \<Rightarrow> logger \<Rightarrow> bool \<times> logger" where
  "open_log path s =
     (if lg_denied s path then (False, s\<lparr>lg_errno := EACCES\<rparr>)
      else (True, if lg_files s path = None
                  then s\<lparr>lg_files := (lg_files s)(path \<mapsto> [])\<rparr> else s))"

definition write_log :: "bool \<Rightarrow> string \<Rightarrow> char list \<Rightarrow> logger \<Rightarrow> logger" where
  "write_log ok path bs s =
     (if ok then s\<lparr>lg_files := (lg_files s)(path \<mapsto>
        (case lg_files s path of None \<Rightarrow> [] | Some old \<Rightarrow> old) @ bs)\<rparr>
      else s\<lparr>lg_errno := EBADF\<rparr>)"

definition close_log :: "bool \<Rightarrow> logger \<Rightarrow> logger" where
  "close_log ok s = (if ok then s else s\<lparr>lg_errno := EBADF\<rparr>)"

definition out :: "char list \<Rightarrow> logger \<Rightarrow> logger" where
  "out bs s = s\<lparr>lg_stdout := lg_stdout s @ bs\<rparr>"

definition err :: "char list \<Rightarrow> logger \<Rightarrow> logger" where
  "err bs s = s\<lparr>lg_stderr := lg_stderr s @ bs\<rparr>"

text \<open>The colour and the name of a level, whether it may be wrapped, and whether the debug
  level lets it through.\<close>

definition level_name :: "int \<Rightarrow> int \<Rightarrow> (string \<times> string \<times> bool) option" where
  "level_name loglvl dbg =
     (if loglvl = SIMPLOG_FATAL then Some (COL_FATAL, ''FATAL : '', True)
      else if loglvl = SIMPLOG_ERROR then Some (COL_ERROR, ''ERROR : '', True)
      else if loglvl = SIMPLOG_INFO then Some (COL_INFO, ''INFO  : '', True)
      else if loglvl = SIMPLOG_WARN \<and> dbg \<ge> SIMPLOG_WARN then Some (COL_WARN, ''WARN  : '', True)
      else if loglvl = SIMPLOG_DEBUG \<and> dbg \<ge> SIMPLOG_DEBUG then Some (COL_DEBUG, ''DEBUG : '', True)
      else if loglvl = SIMPLOG_VERBOSE \<and> dbg \<ge> SIMPLOG_VERBOSE then Some (COL_VERBOSE, ''DEBUG : '', True)
      else if loglvl = SIMPLOG_LOGGER \<and> dbg \<ge> SIMPLOG_DEBUG then Some (COL_LOGGER, ''LOG   : '', False)
      else if loglvl = SIMPLOG_TRACE \<and> dbg \<ge> SIMPLOG_DEBUG then Some (COL_TRACE, ''TRACE : '', False)
      else None)"

text \<open>The message, wrapped if it is to be; \<open>va_msg\<close> is the caller's text.\<close>

definition compose :: "logger \<Rightarrow> nat \<Rightarrow> string \<Rightarrow> string \<Rightarrow> string \<Rightarrow> bool \<Rightarrow> string result" where
  "compose s msgSize date name va_msg wrap =
     rbind (sprintf_end msgSize [] (date @ [TAB] @ name)) (\<lambda>msg.
     rbind (sprintf_end msgSize msg (va_msg @ [NL])) (\<lambda>msg.
       if lineWrap s \<and> wrap \<and> length msg > 80 then wrapLines msg msgSize else Inr msg))"

text \<open>
  The line for \<open>errno\<close>: \<open>dateLengthSpacing\<close> is filled to its last byte with blanks, so
  \<open>sprintf\<close> reads on past its end.
\<close>

definition append_errno :: "logger \<Rightarrow> nat \<Rightarrow> string \<Rightarrow> string \<Rightarrow> string result" where
  "append_errno s msgSize date msg =
     (if lg_errno s \<noteq> 0 then
        (let dateLengthSpacing = replicate (length date + 1) CHR '' ''
         in rbind (read_str dateLengthSpacing) (\<lambda>spacing.
              sprintf_end msgSize msg (spacing @ [TAB] @ ''errno : '' @ strerror (lg_errno s) @ [NL])))
      else Inr msg)"

text \<open>
  What is written, where, for a level: the two halves of the function. Below
  \<open>SIMPLOG_FATAL\<close> the block of the message is appended to without having been set.
\<close>

definition emit ::
  "int \<Rightarrow> bool \<Rightarrow> string \<Rightarrow> string \<Rightarrow> string \<Rightarrow> nat \<Rightarrow> logger \<Rightarrow> logger result" where
  "emit loglvl log path date va_msg msgSize s =
     (if loglvl < SIMPLOG_INFO then
        (case level_name loglvl (dbgLevel s) of
           None \<Rightarrow> Inl Uninitialised
         | Some (outColor, name, wrap) \<Rightarrow>
             rbind (compose s msgSize date name va_msg wrap) (\<lambda>msg.
             rbind (append_errno s msgSize date msg) (\<lambda>msg.
               let s = write_log log path msg s
               in Inr (if silentMode s then s else err msg (err outColor s)))))
      else
        (case level_name loglvl (dbgLevel s) of
           None \<Rightarrow> Inr s
         | Some (outColor, name, wrap) \<Rightarrow>
             rbind (compose s msgSize date name va_msg wrap) (\<lambda>msg.
               let s = write_log log path msg s
               in Inr (if silentMode s then s else out msg (out outColor s)))))"

text \<open>
  A call without the notice of a truncation: the state, the length the text would have had
  and the size of its block.
\<close>

definition writeLog_once :: "int \<Rightarrow> string \<Rightarrow> farg list \<Rightarrow> logger \<Rightarrow> (logger \<times> nat \<times> nat) result" where
  "writeLog_once loglvl str args s =
     rbind (vformat str args) (\<lambda>text.
     rbind (read_str (logFile s)) (\<lambda>path.
       let max_size = length str + 4146;
           va_msg = take (max_size - 1) text;
           (log, s) = open_log path s;
           date = getDateString (lg_time s);
           stringSize = length date + length va_msg + 10;
           lineWrapSize = (if lineWrap s then 32 * (stringSize div 80) else 0);
           msgSize = stringSize + lineWrapSize + length (strerror (lg_errno s)) + 50
       in rbind (emit loglvl log path date va_msg msgSize s)
            (\<lambda>s. Inr (close_log log (err COL_NORM (out COL_NORM s)), length text, max_size))))"

definition writeLog :: "int \<Rightarrow> string \<Rightarrow> farg list \<Rightarrow> logger \<Rightarrow> logger result" where
  "writeLog loglvl str args s =
     rbind (writeLog_once loglvl str args s) (\<lambda>(s, va_string_size, max_size).
       if va_string_size > max_size
       then rbind (writeLog_once SIMPLOG_LOGGER
              ''Previous message truncated by %d bytes to fit into buffer''
              [FInt (int (va_string_size - max_size))] s) (\<lambda>(s, _, _). Inr s)
       else Inr s)"

section \<open>The settings\<close>

definition setLogDebugLevel :: "int \<Rightarrow> logger \<Rightarrow> logger result" where
  "setLogDebugLevel level s =
     (if level \<ge> SIMPLOG_INFO \<and> level \<le> SIMPLOG_VERBOSE
      then writeLog SIMPLOG_LOGGER ''Debug level set to %d'' [FInt level] (s\<lparr>dbgLevel := level\<rparr>)
      else
        (let s = s\<lparr>dbgLevel := SIMPLOG_DEBUG\<rparr>
         in rbind (vformat (''Invalid debug level of '' @ [CHR 0x27] @ ''%d'' @ [CHR 0x27]
                     @ ''. Setting to default value of '' @ [CHR 0x27] @ ''%d'' @ [CHR 0x27])
                     [FInt level, FInt SIMPLOG_DEBUG]) (\<lambda>line.
            rbind (sprintf_end 500 [] (line @ [NL])) (\<lambda>error.
            rbind (sprintf_end 500 error (indentedLineSpacing @ ''Valid Debug Levels:'' @ [NL])) (\<lambda>error.
            rbind (sprintf_end 500 error (indentedLineSpacing @ ''0  : Info'' @ [NL])) (\<lambda>error.
            rbind (sprintf_end 500 error (indentedLineSpacing @ ''1  : Warnings'' @ [NL])) (\<lambda>error.
            rbind (sprintf_end 500 error (indentedLineSpacing @ ''2  : Debug'' @ [NL])) (\<lambda>error.
            rbind (sprintf_end 500 error (indentedLineSpacing @ ''3  : Debug-Verbose'')) (\<lambda>error.
              writeLog SIMPLOG_LOGGER error [] s)))))))))"

text \<open>\<open>strcpy\<close> into \<open>logFile\<close>, whatever the length of the name.\<close>

definition set_logFile :: "string \<Rightarrow> logger \<Rightarrow> logger result" where
  "set_logFile file s =
     rbind (memset (logFile s) NUL 255) (\<lambda>b.
     rbind (strcpy b 0 file) (\<lambda>b. Inr (s\<lparr>logFile := b\<rparr>)))"

definition setLogFile :: "string \<Rightarrow> logger \<Rightarrow> logger result" where
  "setLogFile file s =
     rbind (set_logFile file s) (\<lambda>s.
     rbind (read_str (logFile s)) (\<lambda>name.
       writeLog SIMPLOG_LOGGER (''Log file set to '' @ [CHR 0x27] @ ''%s'' @ [CHR 0x27]) [FStr name] s))"

definition setLogSilentMode :: "bool \<Rightarrow> logger \<Rightarrow> logger result" where
  "setLogSilentMode silent s =
     writeLog SIMPLOG_LOGGER ''Silent mode %s'' [FStr (if silent then ''enabled'' else ''disabled'')]
       (s\<lparr>silentMode := silent\<rparr>)"

definition setLineWrap :: "bool \<Rightarrow> logger \<Rightarrow> logger result" where
  "setLineWrap wrap s =
     writeLog SIMPLOG_LOGGER ''Line wrapping %s'' [FStr (if wrap then ''enabled'' else ''disabled'')]
       (s\<lparr>lineWrap := wrap\<rparr>)"

text \<open>The old file is removed, or reported missing, and an empty one made.\<close>

definition clear_log :: "string \<Rightarrow> logger \<Rightarrow> logger result" where
  "clear_log path s =
     rbind
       (if lg_files s path \<noteq> None then
          (if lg_kept s path then Inl ProcessExit else Inr (s\<lparr>lg_files := (lg_files s)(path := None)\<rparr>))
        else
          (let s = s\<lparr>lg_errno := ENOENT\<rparr>
           in Inr (if silentMode s then s
                   else out COL_NORM (out (getDateString (lg_time s) @ [TAB] @ ''LOG   : Logfile ''
                          @ [CHR 0x27] @ path @ [CHR 0x27]
                          @ '' does not exist. It will be created now.'' @ [NL])
                        (out COL_LOGGER s)))))
       (\<lambda>s.
         let (log, s) = open_log path s
         in Inr (close_log log s))"

definition flushLog :: "logger \<Rightarrow> logger result" where
  "flushLog s =
     rbind (read_str (logFile s)) (\<lambda>path.
     rbind (clear_log path s) (\<lambda>s.
       writeLog SIMPLOG_LOGGER (''Log file '' @ [CHR 0x27] @ ''%s'' @ [CHR 0x27] @ '' cleared'')
         [FStr path] s))"

section \<open>What a call appends\<close>

text \<open>The settings are in order: the file name is a string, the level one of the four.\<close>

definition settings_ok :: "logger \<Rightarrow> bool" where
  "settings_ok s \<longleftrightarrow> length (logFile s) = 255 \<and> NUL \<in> set (logFile s)
     \<and> dbgLevel s \<in> {SIMPLOG_INFO, SIMPLOG_WARN, SIMPLOG_DEBUG, SIMPLOG_VERBOSE}"

definition log_path :: "logger \<Rightarrow> string" where
  "log_path s = cstr (logFile s)"

definition log_bytes :: "logger \<Rightarrow> char list" where
  "log_bytes s = (case lg_files s (log_path s) of None \<Rightarrow> [] | Some bs \<Rightarrow> bs)"

definition log_line :: "logger \<Rightarrow> string \<Rightarrow> string \<Rightarrow> string" where
  "log_line s name text = getDateString (lg_time s) @ [TAB] @ name @ text @ [NL]"

lemma length_level_name: "level_name l d = Some (c, name, wrap) \<Longrightarrow> length name = 8"
  by (auto simp: level_name_def split: if_splits)

lemma compose_line:
  assumes "length name = 8" and "length va = v"
    and "length date + v + 10 < msgSize"
    and "\<not> lineWrap s \<or> \<not> wrap \<or> length date + v + 10 \<le> 80"
  shows "compose s msgSize date name va wrap = Inr (date @ [TAB] @ name @ va @ [NL])"
  using assms by (auto simp: compose_def sprintf_end_def)

definition open_file :: "logger \<Rightarrow> logger" where
  "open_file s = (if lg_files s (log_path s) = None
     then s\<lparr>lg_files := (lg_files s)(log_path s \<mapsto> [])\<rparr> else s)"

definition logged :: "logger \<Rightarrow> string \<Rightarrow> string \<Rightarrow> logger" where
  "logged s col line = s\<lparr>lg_files := (lg_files s)(log_path s \<mapsto> log_bytes s @ line),
     lg_stdout := lg_stdout s @ (if silentMode s then [] else col @ line) @ COL_NORM,
     lg_stderr := lg_stderr s @ COL_NORM\<rparr>"

lemma open_log_ok:
  assumes "\<not> lg_denied s (log_path s)"
  shows "open_log (log_path s) s = (True, open_file s)"
  using assms by (simp add: open_log_def open_file_def)

lemma open_file_simps [simp]:
  "dbgLevel (open_file s) = dbgLevel s" "logFile (open_file s) = logFile s"
  "silentMode (open_file s) = silentMode s" "lineWrap (open_file s) = lineWrap s"
  "lg_errno (open_file s) = lg_errno s" "lg_time (open_file s) = lg_time s"
  "log_path (open_file s) = log_path s" "log_bytes (open_file s) = log_bytes s"
  by (simp_all add: open_file_def log_path_def log_bytes_def)

lemma close_log_simps [simp]:
  "close_log True s = s" "dbgLevel (close_log ok s) = dbgLevel s" "logFile (close_log ok s) = logFile s"
  "silentMode (close_log ok s) = silentMode s" "lineWrap (close_log ok s) = lineWrap s"
  by (simp_all add: close_log_def)

lemma write_log_simps [simp]:
  "dbgLevel (write_log log p b s) = dbgLevel s" "logFile (write_log log p b s) = logFile s"
  "silentMode (write_log log p b s) = silentMode s" "lineWrap (write_log log p b s) = lineWrap s"
  "lg_time (write_log log p b s) = lg_time s"
  by (simp_all add: write_log_def)

lemma write_log_ok:
  "out COL_NORM (if silentMode s then write_log True (log_path s) msg (open_file s)
     else out msg (out col (write_log True (log_path s) msg (open_file s))))
   = (logged s col msg)\<lparr>lg_stderr := lg_stderr s\<rparr>"
  by (auto simp: out_def write_log_def open_file_def logged_def log_bytes_def split: option.splits)

text \<open>A message its level lets through, short or not to be wrapped.\<close>

lemma writeLog_once_line:
  assumes "settings_ok s" and "\<not> lg_denied s (log_path s)" and "SIMPLOG_INFO \<le> loglvl"
    and "level_name loglvl (dbgLevel s) = Some (col, name, wrap)"
    and "vformat str args = Inr body" and "length body < length str + 4146"
    and "\<not> lineWrap s \<or> \<not> wrap \<or> length (getDateString (lg_time s)) + length body + 10 \<le> 80"
  shows "writeLog_once loglvl str args s =
    Inr (logged s col (log_line s name body), length body, length str + 4146)"
proof -
  let ?date = "getDateString (lg_time s)"
  have path: "read_str (logFile s) = Inr (log_path s)"
    using assms(1) by (simp add: settings_ok_def read_str_def log_path_def)
  have tx: "take (length str + 4146 - 1) body = body"
    using assms(6) by simp
  have len: "length name = 8"
    using length_level_name [OF assms(4)] .
  have comp: "compose (open_file s) size ?date name body wrap = Inr (log_line s name body)"
    if "length ?date + length body + 10 < size" for size
    using assms(7) compose_line [OF len refl that, of "open_file s" wrap] by (simp add: log_line_def)
  have msg: "err COL_NORM ((logged s col m)\<lparr>lg_stderr := lg_stderr s\<rparr>) = logged s col m" for m
    by (simp add: err_def logged_def)
  show ?thesis
    using assms(3)
    unfolding writeLog_once_def assms(5) path rbind.simps Let_def tx open_log_ok [OF assms(2)] prod.case
      open_file_simps emit_def assms(4) option.case
    by (simp add: comp write_log_ok msg)
qed

text \<open>A message its level does not let through: the log file is made if there is none, and
  the colours are reset.\<close>

definition not_logged :: "logger \<Rightarrow> logger" where
  "not_logged s = err COL_NORM (out COL_NORM (open_file s))"

lemma writeLog_once_hidden:
  assumes "settings_ok s" and "\<not> lg_denied s (log_path s)" and "SIMPLOG_INFO \<le> loglvl"
    and "level_name loglvl (dbgLevel s) = None" and "vformat str args = Inr body"
  shows "writeLog_once loglvl str args s = Inr (not_logged s, length body, length str + 4146)"
proof -
  have path: "read_str (logFile s) = Inr (log_path s)"
    using assms(1) by (simp add: settings_ok_def read_str_def log_path_def)
  show ?thesis
    using assms(3)
    unfolding writeLog_once_def assms(5) path rbind.simps Let_def open_log_ok [OF assms(2)] prod.case
      open_file_simps emit_def assms(4) option.case
    by (simp add: not_logged_def)
qed

lemma level_unwrapped:
  "level_name l d = Some (c, name, wrap) \<Longrightarrow> SIMPLOG_VERBOSE < l \<Longrightarrow> \<not> wrap"
  by (auto simp: level_name_def split: if_splits)

lemma writeLog_level:
  assumes "settings_ok s" and "\<not> lg_denied s (log_path s)" and "SIMPLOG_INFO \<le> loglvl"
    and "vformat str args = Inr body" and "length body < length str + 4146"
    and "\<not> lineWrap s \<or> SIMPLOG_VERBOSE < loglvl
         \<or> length (getDateString (lg_time s)) + length body + 10 \<le> 80"
  shows "writeLog loglvl str args s =
    Inr (case level_name loglvl (dbgLevel s) of
           None \<Rightarrow> not_logged s
         | Some (col, name, wrap) \<Rightarrow> logged s col (log_line s name body))"
proof (cases "level_name loglvl (dbgLevel s)")
  case None
  then show ?thesis
    using assms(5) by (simp add: writeLog_def writeLog_once_hidden [OF assms(1-3) _ assms(4)])
next
  case (Some x)
  then obtain col name wrap where x: "level_name loglvl (dbgLevel s) = Some (col, name, wrap)"
    by (cases x) auto
  then have "\<not> lineWrap s \<or> \<not> wrap \<or> length (getDateString (lg_time s)) + length body + 10 \<le> 80"
    using assms(6) level_unwrapped by blast
  then show ?thesis
    using assms(5) x writeLog_once_line [OF assms(1-3) x assms(4,5)] by (simp add: writeLog_def)
qed

text \<open>An error or a fatal message, with \<open>errno\<close> clear: the text goes to the log file and to
  standard error.\<close>

definition reported :: "logger \<Rightarrow> string \<Rightarrow> string \<Rightarrow> logger" where
  "reported s col line = s\<lparr>lg_files := (lg_files s)(log_path s \<mapsto> log_bytes s @ line),
     lg_stdout := lg_stdout s @ COL_NORM,
     lg_stderr := lg_stderr s @ (if silentMode s then [] else col @ line) @ COL_NORM\<rparr>"

lemma report_ok:
  "err COL_NORM (out COL_NORM (if silentMode s then write_log True (log_path s) msg (open_file s)
     else err msg (err col (write_log True (log_path s) msg (open_file s))))) = reported s col msg"
  by (auto simp: write_log_def open_file_def out_def err_def reported_def log_bytes_def split: option.splits)

lemma writeLog_error:
  assumes "settings_ok s" and "\<not> lg_denied s (log_path s)" and "loglvl < SIMPLOG_INFO" and "lg_errno s = 0"
    and "level_name loglvl (dbgLevel s) = Some (col, name, wrap)"
    and "vformat str args = Inr body" and "length body < length str + 4146"
    and "\<not> lineWrap s \<or> length (getDateString (lg_time s)) + length body + 10 \<le> 80"
  shows "writeLog loglvl str args s = Inr (reported s col (log_line s name body))"
proof -
  let ?date = "getDateString (lg_time s)"
  have path: "read_str (logFile s) = Inr (log_path s)"
    using assms(1) by (simp add: settings_ok_def read_str_def log_path_def)
  have tx: "take (length str + 4146 - 1) body = body"
    using assms(7) by simp
  have len: "length name = 8"
    using length_level_name [OF assms(5)] .
  have comp: "compose (open_file s) size ?date name body wrap = Inr (log_line s name body)"
    if "length ?date + length body + 10 < size" for size
    using assms(8) compose_line [OF len refl that, of "open_file s" wrap] by (auto simp: log_line_def)
  have "writeLog_once loglvl str args s =
      Inr (reported s col (log_line s name body), length body, length str + 4146)"
    using assms(3,4)
    unfolding writeLog_once_def assms(6) path rbind.simps Let_def tx open_log_ok [OF assms(2)] prod.case
      open_file_simps emit_def assms(5) option.case
    by (simp add: comp append_errno_def report_ok)
  then show ?thesis
    using assms(7) by (simp add: writeLog_def)
qed

lemma reported_simps [simp]:
  "dbgLevel (reported s c l) = dbgLevel s" "logFile (reported s c l) = logFile s"
  "silentMode (reported s c l) = silentMode s" "lineWrap (reported s c l) = lineWrap s"
  "lg_errno (reported s c l) = lg_errno s" "lg_time (reported s c l) = lg_time s"
  "log_path (reported s c l) = log_path s" "log_bytes (reported s c l) = log_bytes s @ l"
  "lg_denied (reported s c l) = lg_denied s" "lg_kept (reported s c l) = lg_kept s"
  by (simp_all add: reported_def log_path_def log_bytes_def)

lemma logged_simps [simp]:
  "dbgLevel (logged s c l) = dbgLevel s" "logFile (logged s c l) = logFile s"
  "silentMode (logged s c l) = silentMode s" "lineWrap (logged s c l) = lineWrap s"
  "lg_errno (logged s c l) = lg_errno s" "lg_time (logged s c l) = lg_time s"
  "log_path (logged s c l) = log_path s" "log_bytes (logged s c l) = log_bytes s @ l"
  "lg_denied (logged s c l) = lg_denied s" "lg_kept (logged s c l) = lg_kept s"
  by (simp_all add: logged_def log_path_def log_bytes_def)

section \<open>What every operation keeps\<close>

lemma open_log_settings:
  "open_log path s = (log, t) \<Longrightarrow> dbgLevel t = dbgLevel s \<and> logFile t = logFile s
     \<and> silentMode t = silentMode s \<and> lineWrap t = lineWrap s"
  by (auto simp: open_log_def split: if_splits)

lemma emit_settings:
  "emit loglvl log path date va n s = Inr t \<Longrightarrow> dbgLevel t = dbgLevel s \<and> logFile t = logFile s
     \<and> silentMode t = silentMode s \<and> lineWrap t = lineWrap s"
  by (auto simp: emit_def rbind_eq_Inr Let_def err_def out_def split: if_splits option.splits)

lemma writeLog_once_settings:
  assumes "writeLog_once loglvl str args s = Inr (t, n, m)"
  shows "dbgLevel t = dbgLevel s \<and> logFile t = logFile s \<and> silentMode t = silentMode s
    \<and> lineWrap t = lineWrap s"
proof -
  obtain body path where b: "vformat str args = Inr body" and p: "read_str (logFile s) = Inr path"
    using assms by (auto simp: writeLog_once_def rbind_eq_Inr)
  obtain log s1 where o: "open_log path s = (log, s1)"
    by fastforce
  obtain u k va where "emit loglvl log path (getDateString (lg_time s1)) va k s1 = Inr u"
      and "t = close_log log (err COL_NORM (out COL_NORM u))"
    using assms unfolding writeLog_once_def b p rbind.simps o Let_def prod.case by (auto simp: rbind_eq_Inr)
  then show ?thesis
    using emit_settings open_log_settings [OF o] by (simp add: err_def out_def)
qed

lemma writeLog_settings:
  assumes "writeLog loglvl str args s = Inr t"
  shows "dbgLevel t = dbgLevel s" and "logFile t = logFile s" and "silentMode t = silentMode s"
    and "lineWrap t = lineWrap s"
  using assms
  by (auto simp: writeLog_def rbind_eq_Inr split: if_splits dest!: writeLog_once_settings)

lemma append_errno_cases:
  "append_errno s n date msg = (if lg_errno s = 0 then Inr msg else Inl OutOfBounds)"
  by (simp add: append_errno_def read_str_def)

lemma clear_log_result:
  assumes "\<not> lg_denied s path" and "\<not> lg_kept s path"
  shows "\<exists>u. clear_log path s = Inr u \<and> logFile u = logFile s \<and> dbgLevel u = dbgLevel s
    \<and> lg_denied u = lg_denied s \<and> lg_time u = lg_time s \<and> lineWrap u = lineWrap s
    \<and> silentMode u = silentMode s \<and> lg_kept u = lg_kept s
    \<and> lg_files u = (lg_files s)(path \<mapsto> [])"
  using assms
  by (cases "lg_files s path"; cases "silentMode s")
    (simp_all add: clear_log_def Let_def open_log_def out_def)

lemma flushLog_result:
  assumes ok: "settings_ok s" and den: "\<not> lg_denied s (log_path s)" and kept: "\<not> lg_kept s (log_path s)"
  shows "\<exists>t. flushLog s = Inr t \<and> lg_files t = (lg_files s)(log_path s \<mapsto>
     (if dbgLevel s < SIMPLOG_DEBUG then []
      else log_line s ''LOG   : '' (''Log file '' @ [CHR 0x27] @ log_path s @ [CHR 0x27] @ '' cleared'')))
     \<and> logFile t = logFile s \<and> dbgLevel t = dbgLevel s"
proof -
  let ?fmt = "''Log file '' @ [CHR 0x27] @ ''%s'' @ [CHR 0x27] @ '' cleared''"
  let ?body = "''Log file '' @ [CHR 0x27] @ log_path s @ [CHR 0x27] @ '' cleared''"
  have path: "read_str (logFile s) = Inr (log_path s)"
    using ok by (simp add: settings_ok_def read_str_def log_path_def)
  have "length (log_path s) < 255"
    using ok length_cstr_less [of "logFile s"] by (simp add: settings_ok_def log_path_def)
  then have len: "length ?body < length ?fmt + 4146"
    by simp
  have fmt: "vformat ?fmt [FStr (log_path s)] = Inr ?body"
    by simp
  obtain u where u: "flushLog s = writeLog SIMPLOG_LOGGER ?fmt [FStr (log_path s)] u"
    and keep: "logFile u = logFile s" "dbgLevel u = dbgLevel s" "lg_denied u = lg_denied s"
      "lg_time u = lg_time s" "lg_files u = (lg_files s)(log_path s \<mapsto> [])"
    using clear_log_result [OF den kept] path by (auto simp: flushLog_def)
  have pu: "log_path u = log_path s" "log_bytes u = []"
    using keep by (simp_all add: log_path_def log_bytes_def)
  have "writeLog SIMPLOG_LOGGER ?fmt [FStr (log_path s)] u =
    Inr (case level_name SIMPLOG_LOGGER (dbgLevel u) of
           None \<Rightarrow> not_logged u
         | Some (col, name, wrap) \<Rightarrow> logged u col (log_line u name ?body))"
    using ok den keep pu len by (intro writeLog_level [OF _ _ _ fmt]) (simp_all add: settings_ok_def)
  moreover have "level_name SIMPLOG_LOGGER (dbgLevel u) =
      (if dbgLevel s < SIMPLOG_DEBUG then None else Some (COL_LOGGER, ''LOG   : '', False))"
    using keep by (simp add: level_name_def)
  moreover have "log_line u ''LOG   : '' ?body = log_line s ''LOG   : '' ?body"
    using keep by (simp add: log_line_def)
  moreover have "lg_files (not_logged u) = lg_files u" "logFile (not_logged u) = logFile u"
      "dbgLevel (not_logged u) = dbgLevel u"
    using keep pu by (simp_all add: not_logged_def open_file_def err_def out_def)
  ultimately show ?thesis
    using u keep pu by (auto simp: logged_def)
qed

section \<open>Properties\<close>

definition sample_time :: log_time where
  "sample_time = \<lparr>tm_year = 2024, tm_mon = 2, tm_mday = 29, tm_hour = 7, tm_min = 5, tm_sec = 0\<rparr>"

definition sample_logger :: logger where
  "sample_logger = logger_start (\<lambda>p. None) (\<lambda>p. False) (\<lambda>p. False) sample_time"

lemma sample_logger_simps [simp]:
  "settings_ok sample_logger" "lg_denied sample_logger p = False" "lg_kept sample_logger p = False"
  "lg_errno sample_logger = 0" "dbgLevel sample_logger = SIMPLOG_DEBUG" "lg_time sample_logger = sample_time"
  by (simp_all add: sample_logger_def logger_start_def settings_ok_def)

lemma sample_date: "length (getDateString sample_time) = 21"
  by code_simp

text \<open>C26. A call of \<open>writeLog\<close> at a level from INFO up, with a text that needs no wrapping
  (wrapping is off, the level is one that is never wrapped, or date and text have at most 70
  characters together), appends exactly one line, date, level and text, to the log file, and
  shows it on standard output unless silent, if the debug level lets the level through;
  otherwise it writes no text at all.\<close>

theorem writeLog_appends:
  assumes "settings_ok s" and "\<not> lg_denied s (log_path s)" and "SIMPLOG_INFO \<le> loglvl"
    and "vformat str args = Inr body" and "length body < length str + 4146"
    and "\<not> lineWrap s \<or> SIMPLOG_VERBOSE < loglvl
         \<or> length (getDateString (lg_time s)) + length body + 10 \<le> 80"
  shows "writeLog loglvl str args s =
    Inr (case level_name loglvl (dbgLevel s) of
           None \<Rightarrow> not_logged s
         | Some (col, name, wrap) \<Rightarrow> logged s col (log_line s name body))"
  using assms by (rule writeLog_level)

theorem writeLog_appends_witness:
  "writeLog SIMPLOG_DEBUG ''file %s'' [FStr ''a.txt''] sample_logger =
    Inr (case level_name SIMPLOG_DEBUG (dbgLevel sample_logger) of
           None \<Rightarrow> not_logged sample_logger
         | Some (col, name, wrap) \<Rightarrow>
             logged sample_logger col (log_line sample_logger name ''file a.txt''))"
  by (rule writeLog_appends) (simp_all add: sample_date)

text \<open>An error or a fatal message is written only when nothing has gone wrong: with
  \<open>errno\<close> set, or a log file that cannot be opened, the blanks put before the name of the
  error are not terminated and \<open>sprintf\<close> reads past them.\<close>

lemma writeLog_errno_faults_iff:
  assumes "settings_ok s" and "loglvl = SIMPLOG_FATAL \<or> loglvl = SIMPLOG_ERROR"
    and "vformat str args = Inr body" and "length body < length str + 4146"
    and "\<not> lineWrap s \<or> length (getDateString (lg_time s)) + length body + 10 \<le> 80"
  shows "writeLog loglvl str args s = Inl OutOfBounds \<longleftrightarrow> lg_errno s \<noteq> 0 \<or> lg_denied s (log_path s)"
proof -
  let ?date = "getDateString (lg_time s)"
  have path: "read_str (logFile s) = Inr (log_path s)"
    using assms(1) by (simp add: settings_ok_def read_str_def log_path_def)
  have tx: "take (length str + 4146 - 1) body = body"
    using assms(4) by simp
  obtain log s1 where o: "open_log (log_path s) s = (log, s1)"
    by fastforce
  have s1: "lg_time s1 = lg_time s" "lineWrap s1 = lineWrap s" "dbgLevel s1 = dbgLevel s"
      "lg_errno s1 = 0 \<longleftrightarrow> lg_errno s = 0 \<and> \<not> lg_denied s (log_path s)"
    using o by (auto simp: open_log_def EACCES_def split: if_splits)
  obtain col name where l: "level_name loglvl (dbgLevel s) = Some (col, name, True)" "length name = 8"
    using assms(2) by (auto simp: level_name_def)
  have comp: "compose s1 size ?date name body True = Inr (?date @ [TAB] @ name @ body @ [NL])"
    if "length ?date + length body + 10 < size" for size
    using assms(5) compose_line [OF l(2) refl that, of s1 True] s1(2) by simp
  have "loglvl < SIMPLOG_INFO"
    using assms(2) by auto
  then show ?thesis
    using assms(4) s1(4)
    unfolding writeLog_def writeLog_once_def assms(3) path rbind.simps Let_def tx o prod.case emit_def
      s1(1,3) l(1) option.case append_errno_cases
    by (simp add: comp)
qed

end
