(* ===== verification/LogConfig.thy ===== *)
theory LogConfig
  imports Logger
begin

text \<open>
  The logger's configuration file, \<open>loadConfig\<close> in \<^verbatim>\<open>c/simplog.c\<close>: lines \<open>name=value\<close>
  that set the five settings, which are applied at the end.
\<close>

section \<open>Reading the file\<close>

text \<open>
  The first \<open>read\<close> takes at most 1024 bytes. The next one adds the number of bytes to the
  descriptor instead of the buffer, and asks a descriptor nobody has opened: it fails, and
  the loop ends. A buffer filled to the last byte is doubled by \<open>realloc\<close>; what follows
  the text is then not set, and \<open>strlen\<close> reads it.
\<close>

definition SETTINGS_BUFSIZE :: nat where
  "SETTINGS_BUFSIZE = 1024"

definition settings_text :: "char list \<Rightarrow> string result" where
  "settings_text bs =
     (let d = take SETTINGS_BUFSIZE bs
      in if length d = SETTINGS_BUFSIZE \<and> no_nul d then Inl Uninitialised else Inr (cstr d))"

section \<open>Parsing\<close>

record log_settings =
  silentSetting :: bool
  lineWrapSetting :: bool
  flushSetting :: bool
  debugLevelSetting :: int
  logfileSetting :: "char list"

text \<open>\<open>strncpy\<close> with an \<open>int\<close> for its count: a negative one becomes nearly \<open>2 ^ 64\<close>.\<close>

definition strncpy_int :: "char list \<Rightarrow> string \<Rightarrow> int \<Rightarrow> char list result" where
  "strncpy_int b s n = (if n < 0 then Inl OutOfBounds else strncpy b 0 s (nat n))"

text \<open>
  What a line does. \<open>boolVal\<close> is not set by a value that is no boolean; the calls of
  \<open>strcmp\<close>, \<open>atoi\<close> and \<open>strcpy\<close> need strings in the two buffers.
\<close>

definition apply_setting :: "string \<Rightarrow> string \<Rightarrow> log_settings \<Rightarrow> log_settings result" where
  "apply_setting var val c =
     (let boolVal = (if val = ''true'' then Some True else if val = ''false'' then Some False else None)
      in if var = ''silent'' then
           (case boolVal of None \<Rightarrow> Inl Uninitialised | Some b \<Rightarrow> Inr (c\<lparr>silentSetting := b\<rparr>))
         else if var = ''flush'' then
           (case boolVal of None \<Rightarrow> Inl Uninitialised | Some b \<Rightarrow> Inr (c\<lparr>flushSetting := b\<rparr>))
         else if var = ''wrap'' then
           (case boolVal of None \<Rightarrow> Inl Uninitialised | Some b \<Rightarrow> Inr (c\<lparr>lineWrapSetting := b\<rparr>))
         else if var = ''debug'' then Inr (c\<lparr>debugLevelSetting := sint (atoi val)\<rparr>)
         else if var = ''logfile'' then
           rbind (strcpy (logfileSetting c) 0 val) (\<lambda>b. Inr (c\<lparr>logfileSetting := b\<rparr>))
         else Inr c)"

definition parse_line :: "string \<Rightarrow> nat \<Rightarrow> nat \<Rightarrow> nat \<Rightarrow> log_settings \<Rightarrow> log_settings result" where
  "parse_line settingsBuffer startL splitL endL c =
     rbind (strncpy_int (replicate 255 NUL) (drop startL settingsBuffer) (int splitL - int startL - 1)) (\<lambda>var.
     rbind (strncpy_int (replicate 255 NUL) (drop splitL settingsBuffer) (int endL - int splitL)) (\<lambda>val.
     rbind (read_str var) (\<lambda>var.
     rbind (read_str val) (\<lambda>val.
       apply_setting var val c))))"

text \<open>The loop: \<open>rest\<close> is the text from \<open>i\<close> on.\<close>

fun parse_config ::
  "string \<Rightarrow> string \<Rightarrow> nat \<Rightarrow> nat \<Rightarrow> nat \<Rightarrow> log_settings \<Rightarrow> log_settings result" where
  "parse_config settingsBuffer [] i startL splitL c = Inr c"
| "parse_config settingsBuffer (x # rest) i startL splitL c =
     (if x = CHR ''='' then parse_config settingsBuffer rest (Suc i) startL (Suc i) c
      else if x = NL then
        rbind (parse_line settingsBuffer startL splitL i c)
          (parse_config settingsBuffer rest (Suc i) (Suc i) splitL)
      else parse_config settingsBuffer rest (Suc i) startL splitL c)"

section \<open>loadConfig\<close>

definition apply_settings :: "log_settings \<Rightarrow> logger \<Rightarrow> logger result" where
  "apply_settings c s =
     rbind (read_str (logfileSetting c)) (\<lambda>name.
     rbind (if silentSetting c then set_logFile name s else setLogFile name s) (\<lambda>s.
     rbind (if flushSetting c then flushLog s else Inr s) (\<lambda>s.
     rbind (setLogSilentMode (silentSetting c) s) (\<lambda>s.
     rbind (setLineWrap (lineWrapSetting c) s) (\<lambda>s.
       setLogDebugLevel (debugLevelSetting c) s)))))"

definition current_settings :: "logger \<Rightarrow> char list \<Rightarrow> log_settings" where
  "current_settings s file = \<lparr>silentSetting = silentMode s, lineWrapSetting = lineWrap s,
     flushSetting = False, debugLevelSetting = dbgLevel s, logfileSetting = file\<rparr>"

definition load_from :: "log_settings \<Rightarrow> char list \<Rightarrow> logger \<Rightarrow> logger result" where
  "load_from c bs s =
     rbind (settings_text bs) (\<lambda>txt.
     rbind (parse_config txt txt 0 0 0 c) (\<lambda>c.
       apply_settings c s))"

definition loadConfig :: "string \<Rightarrow> logger \<Rightarrow> logger result" where
  "loadConfig config s =
     rbind (read_str (logFile s)) (\<lambda>name.
     rbind (strcpy (replicate 255 NUL) 0 name) (\<lambda>file.
       let c = current_settings s file
       in case (if lg_denied s config then None else lg_files s config) of
            None \<Rightarrow>
              rbind (writeLog SIMPLOG_LOGGER
                       (''Unable to open config file: '' @ [CHR 0x27] @ ''%s'' @ [CHR 0x27]) [FStr config]
                       (s\<lparr>lg_errno := (if lg_denied s config then EACCES else ENOENT)\<rparr>))
                (\<lambda>s. Inr (s\<lparr>lg_errno := 0\<rparr>))
          | Some bs \<Rightarrow> load_from c bs (if bs = [] then s else s\<lparr>lg_errno := EBADF\<rparr>)))"

section \<open>What the parser computes\<close>

text \<open>The file as lines of names and values, and what they say in order.\<close>

definition config_line :: "string \<times> string \<Rightarrow> string" where
  "config_line = (\<lambda>(k, v). k @ CHR ''='' # v @ [NL])"

definition config_text :: "(string \<times> string) list \<Rightarrow> string" where
  "config_text ls = concat (map config_line ls)"

fun apply_lines :: "(string \<times> string) list \<Rightarrow> log_settings \<Rightarrow> log_settings result" where
  "apply_lines [] c = Inr c"
| "apply_lines ((k, v) # ls) c = rbind (apply_setting k v c) (apply_lines ls)"

definition plain :: "string \<Rightarrow> bool" where
  "plain s \<longleftrightarrow> CHR ''='' \<notin> set s \<and> NL \<notin> set s \<and> no_nul s"

definition line_ok :: "string \<times> string \<Rightarrow> bool" where
  "line_ok = (\<lambda>(k, v). plain k \<and> plain v \<and> length k < 255 \<and> length v < 255)"

lemma parse_config_plain:
  "CHR ''='' \<notin> set w \<Longrightarrow> NL \<notin> set w \<Longrightarrow>
     parse_config b (w @ rest) i st sp c = parse_config b rest (i + length w) st sp c"
  by (induction w arbitrary: i) auto

lemma strncpy_front:
  assumes "length s < 255" and "no_nul s"
  shows "strncpy_int (replicate 255 NUL) (s @ r) (int (length s)) = Inr (s @ replicate (255 - length s) NUL)"
    and "read_str (s @ replicate (255 - length s) NUL) = Inr s"
  using assms by (simp_all add: strncpy_int_def strncpy_def put_def read_str_def cbuf)

lemma parse_line_ok:
  assumes "line_ok (k, v)"
  shows "parse_line (pre @ k @ CHR ''='' # v @ NL # post) (length pre) (length pre + Suc (length k))
     (length pre + Suc (length k) + length v) c = apply_setting k v c"
proof -
  let ?b = "pre @ k @ CHR ''='' # v @ NL # post"
  have k: "length k < 255" "no_nul k" and v: "length v < 255" "no_nul v"
    using assms by (simp_all add: line_ok_def plain_def)
  have d: "drop (length pre) ?b = k @ CHR ''='' # v @ NL # post"
      "drop (length pre + Suc (length k)) ?b = v @ NL # post"
    by simp_all
  have n: "int (length pre + Suc (length k)) - int (length pre) - 1 = int (length k)"
      "int (length pre + Suc (length k) + length v) - int (length pre + Suc (length k)) = int (length v)"
    by simp_all
  show ?thesis
    unfolding parse_line_def d n
    by (simp only: strncpy_front [OF k] strncpy_front [OF v] rbind.simps)
qed

lemma parse_config_line:
  assumes "line_ok (k, v)"
  shows "parse_config (pre @ k @ CHR ''='' # v @ NL # post) (k @ CHR ''='' # v @ NL # post)
      (length pre) (length pre) sp c =
    rbind (apply_setting k v c)
      (parse_config ((pre @ config_line (k, v)) @ post) post (length (pre @ config_line (k, v)))
        (length (pre @ config_line (k, v))) (length pre + Suc (length k)))"
proof -
  have "plain k" "plain v"
    using assms by (simp_all add: line_ok_def)
  then show ?thesis
    using parse_line_ok [OF assms, of pre post c]
    by (simp add: parse_config_plain plain_def config_line_def add.assoc)
qed

lemma parse_config_lines:
  "list_all line_ok ls \<Longrightarrow> \<exists>sp' \<le> length pre + length (config_text ls).
     parse_config (pre @ config_text ls @ post) (config_text ls @ post) (length pre) (length pre) sp c =
     rbind (apply_lines ls c)
       (parse_config (pre @ config_text ls @ post) post (length pre + length (config_text ls))
         (length pre + length (config_text ls)) sp')" if "sp \<le> length pre"
  using that
proof (induction ls arbitrary: pre sp c)
  case Nil
  then show ?case
    by (auto simp: config_text_def)
next
  case (Cons l ls)
  obtain k v where l: "l = (k, v)"
    by (cases l)
  let ?pre = "pre @ config_line (k, v)" and ?sp = "length pre + Suc (length k)"
  have ok: "line_ok (k, v)" "list_all line_ok ls"
    using Cons.prems l by simp_all
  have "?sp \<le> length ?pre"
    by (simp add: config_line_def)
  show ?case
  proof (cases "apply_setting k v c")
    case (Inl e)
    then show ?thesis
      using parse_config_line [OF ok(1), of pre "config_text ls @ post" sp c] l
      by (auto simp: config_text_def config_line_def)
  next
    case (Inr c')
    obtain sp' where sp': "sp' \<le> length ?pre + length (config_text ls)"
      "parse_config (?pre @ config_text ls @ post) (config_text ls @ post) (length ?pre) (length ?pre) ?sp c' =
       rbind (apply_lines ls c')
         (parse_config (?pre @ config_text ls @ post) post (length ?pre + length (config_text ls))
           (length ?pre + length (config_text ls)) sp')"
      using Cons.IH [OF ok(2) \<open>?sp \<le> length ?pre\<close>] by blast
    then show ?thesis
      using parse_config_line [OF ok(1), of pre "config_text ls @ post" sp c] l Inr
      by (intro exI [of _ sp']) (simp add: config_text_def config_line_def add.assoc)
  qed
qed

lemma parse_config_no_line: "NL \<notin> set w \<Longrightarrow> parse_config b w i st sp c = Inr c"
  by (induction w arbitrary: i sp) auto

lemma parse_config_result:
  assumes "list_all line_ok ls" and "NL \<notin> set w"
  shows "parse_config (config_text ls @ w) (config_text ls @ w) 0 0 0 c = apply_lines ls c"
proof -
  obtain sp' where "parse_config (config_text ls @ w) (config_text ls @ w) 0 0 0 c =
     rbind (apply_lines ls c) (parse_config (config_text ls @ w) w (length (config_text ls))
         (length (config_text ls)) sp')"
    using parse_config_lines [OF _ assms(1), of 0 "[]" w c] by auto
  then show ?thesis
    using parse_config_no_line [OF assms(2)] by (cases "apply_lines ls c") simp_all
qed

section \<open>Every operation keeps the settings in order\<close>

lemma settings_ok_cong:
  "logFile t = logFile s \<Longrightarrow> dbgLevel t = dbgLevel s \<Longrightarrow> settings_ok t = settings_ok s"
  by (simp add: settings_ok_def)

lemma settings_ok_elsewhere:
  "settings_ok s \<Longrightarrow> settings_ok (s\<lparr>lg_errno := e, lg_files := fs, lg_time := tm\<rparr>)"
  by (simp add: settings_ok_def)

lemma writeLog_ok: "settings_ok s \<Longrightarrow> writeLog l f a s = Inr t \<Longrightarrow> settings_ok t"
  using settings_ok_cong writeLog_settings by blast

lemma set_logFile_ok:
  "settings_ok s \<Longrightarrow> set_logFile file s = Inr t \<Longrightarrow> settings_ok t"
  by (auto simp: set_logFile_def settings_ok_def rbind_eq_Inr memset_def strcpy_def put_def
      split: if_splits)

lemma setLogFile_ok: "settings_ok s \<Longrightarrow> setLogFile file s = Inr t \<Longrightarrow> settings_ok t"
  by (auto simp: setLogFile_def rbind_eq_Inr intro: writeLog_ok dest: set_logFile_ok)

lemma setLogSilentMode_ok: "settings_ok s \<Longrightarrow> setLogSilentMode b s = Inr t \<Longrightarrow> settings_ok t"
  unfolding setLogSilentMode_def by (rule writeLog_ok) (simp_all add: settings_ok_def)

lemma setLineWrap_ok: "settings_ok s \<Longrightarrow> setLineWrap b s = Inr t \<Longrightarrow> settings_ok t"
  unfolding setLineWrap_def by (rule writeLog_ok) (simp_all add: settings_ok_def)

lemma setLogDebugLevel_ok:
  assumes "settings_ok s" and "setLogDebugLevel level s = Inr t"
  shows "settings_ok t"
proof (cases "level \<ge> SIMPLOG_INFO \<and> level \<le> SIMPLOG_VERBOSE")
  case True
  then have "level \<in> {SIMPLOG_INFO, SIMPLOG_WARN, SIMPLOG_DEBUG, SIMPLOG_VERBOSE}"
    by auto
  then have "settings_ok (s\<lparr>dbgLevel := level\<rparr>)"
    using assms(1) by (simp add: settings_ok_def)
  then show ?thesis
    using True assms(2) writeLog_ok by (auto simp: setLogDebugLevel_def)
next
  case False
  have "settings_ok (s\<lparr>dbgLevel := SIMPLOG_DEBUG\<rparr>)"
    using assms(1) by (simp add: settings_ok_def)
  then show ?thesis
    using False assms(2) writeLog_ok by (auto simp: setLogDebugLevel_def Let_def rbind_eq_Inr)
qed

lemma clear_log_settings:
  "clear_log path s = Inr t \<Longrightarrow> logFile t = logFile s \<and> dbgLevel t = dbgLevel s"
  by (auto simp: clear_log_def rbind_eq_Inr Let_def out_def open_log_def split: if_splits)

lemma flushLog_ok: "settings_ok s \<Longrightarrow> flushLog s = Inr t \<Longrightarrow> settings_ok t"
  by (auto simp: flushLog_def rbind_eq_Inr dest!: clear_log_settings intro: writeLog_ok
      simp: settings_ok_def dest: writeLog_settings)

lemma apply_settings_ok:
  assumes "settings_ok s" and "apply_settings c s = Inr t"
  shows "settings_ok t"
proof -
  obtain name s1 s2 s3 s4 where
      s1: "(if silentSetting c then set_logFile name s else setLogFile name s) = Inr s1"
    and s2: "(if flushSetting c then flushLog s1 else Inr s1) = Inr s2"
    and s3: "setLogSilentMode (silentSetting c) s2 = Inr s3"
    and s4: "setLineWrap (lineWrapSetting c) s3 = Inr s4"
    and t: "setLogDebugLevel (debugLevelSetting c) s4 = Inr t"
    using assms(2) unfolding apply_settings_def rbind_eq_Inr by (elim exE conjE) (rule that)
  have "settings_ok s1"
    using s1 set_logFile_ok [OF assms(1)] setLogFile_ok [OF assms(1)] by (simp split: if_splits)
  then have "settings_ok s2"
    using s2 flushLog_ok [of s1 s2] by (simp split: if_splits)
  then have "settings_ok s3"
    using s3 by (rule setLogSilentMode_ok)
  then have "settings_ok s4"
    using s4 by (rule setLineWrap_ok)
  then show ?thesis
    using t by (rule setLogDebugLevel_ok)
qed

lemma loadConfig_ok:
  assumes "settings_ok s" and "loadConfig config s = Inr t"
  shows "settings_ok t"
proof (cases "if lg_denied s config then None else lg_files s config")
  case None
  then obtain u e where "writeLog SIMPLOG_LOGGER
      (''Unable to open config file: '' @ [CHR 0x27] @ ''%s'' @ [CHR 0x27]) [FStr config]
      (s\<lparr>lg_errno := e\<rparr>) = Inr u" and t: "t = u\<lparr>lg_errno := 0\<rparr>"
    using assms(2) by (auto simp: loadConfig_def rbind_eq_Inr Let_def)
  moreover have "settings_ok (s\<lparr>lg_errno := e\<rparr>)"
    using assms(1) by (simp add: settings_ok_def)
  ultimately have "settings_ok u"
    using writeLog_ok by blast
  with t show ?thesis
    by (simp add: settings_ok_def)
next
  case (Some bs)
  then obtain c u where u: "load_from c bs u = Inr t" "u = s \<or> u = s\<lparr>lg_errno := EBADF\<rparr>"
    using assms(2) unfolding loadConfig_def rbind_eq_Inr Let_def by (cases "bs = []") auto
  then obtain c' where "apply_settings c' u = Inr t"
    by (auto simp: load_from_def rbind_eq_Inr)
  moreover have "settings_ok u"
    using assms(1) u(2) settings_ok_cong [of u s] by auto
  ultimately show ?thesis
    using apply_settings_ok by blast
qed

section \<open>When nothing stands in the way\<close>

text \<open>Every file can be opened and removed.\<close>

definition free_to_log :: "logger \<Rightarrow> bool" where
  "free_to_log s \<longleftrightarrow> settings_ok s \<and> (\<forall>p. \<not> lg_denied s p \<and> \<not> lg_kept s p)"

definition same_settings :: "logger \<Rightarrow> logger \<Rightarrow> bool" where
  "same_settings t s \<longleftrightarrow> logFile t = logFile s \<and> dbgLevel t = dbgLevel s \<and> silentMode t = silentMode s
     \<and> lineWrap t = lineWrap s"

lemma same_settings_trans: "same_settings u t \<Longrightarrow> same_settings t s \<Longrightarrow> same_settings u s"
  by (simp add: same_settings_def)

lemma not_logged_simps:
  "same_settings (not_logged s) s" "lg_denied (not_logged s) = lg_denied s" "lg_kept (not_logged s) = lg_kept s"
  by (simp_all add: not_logged_def err_def out_def open_file_def same_settings_def)

lemma writeLog_notice:
  assumes "free_to_log s" and "vformat str args = Inr body" and "length body < length str + 4146"
  shows "\<exists>t. writeLog SIMPLOG_LOGGER str args s = Inr t \<and> same_settings t s \<and> free_to_log t"
proof -
  have ok: "settings_ok s" and den: "\<not> lg_denied s (log_path s)"
    using assms(1) by (simp_all add: free_to_log_def)
  let ?t = "case level_name SIMPLOG_LOGGER (dbgLevel s) of
      None \<Rightarrow> not_logged s | Some (col, name, wrap) \<Rightarrow> logged s col (log_line s name body)"
  have w: "writeLog SIMPLOG_LOGGER str args s = Inr ?t"
    using assms(2,3) by (intro writeLog_level [OF ok den]) simp_all
  moreover have "same_settings ?t s" "lg_denied ?t = lg_denied s" "lg_kept ?t = lg_kept s"
    by (auto simp: not_logged_simps same_settings_def [of "logged _ _ _"] split: option.splits)
  ultimately show ?thesis
    using assms(1) writeLog_ok [OF ok w] by (auto simp: free_to_log_def)
qed

lemma set_logFile_result:
  assumes "settings_ok s" and "no_nul file" and "length file < 255"
  shows "set_logFile file s = Inr (s\<lparr>logFile := file @ replicate (255 - length file) NUL\<rparr>)"
proof -
  have "memset (logFile s) NUL 255 = Inr (replicate 255 NUL)"
    using assms(1) by (simp add: settings_ok_def memset_def put_def)
  moreover have "NUL # replicate (254 - length file) NUL = replicate (255 - length file) NUL"
    using assms(3) by (metis Suc_diff_Suc diff_Suc_Suc numeral_eq_Suc pred_numeral_simps(2,3) replicate_Suc
        semiring_norm(26,27,28) Suc_diff_le less_Suc_eq_le)
  ultimately show ?thesis
    using assms(3) by (simp add: set_logFile_def strcpy_fits)
qed

lemma free_to_logI:
  "free_to_log s \<Longrightarrow> settings_ok t \<Longrightarrow> lg_denied t = lg_denied s \<Longrightarrow> lg_kept t = lg_kept s \<Longrightarrow> free_to_log t"
  by (simp add: free_to_log_def)

lemma setLogFile_free:
  assumes "free_to_log s" and "no_nul file" and "length file < 255"
  shows "\<exists>t. setLogFile file s = Inr t
    \<and> same_settings t (s\<lparr>logFile := file @ replicate (255 - length file) NUL\<rparr>) \<and> free_to_log t"
proof -
  let ?u = "s\<lparr>logFile := file @ replicate (255 - length file) NUL\<rparr>"
  have "settings_ok s"
    using assms(1) by (simp add: free_to_log_def)
  note set = set_logFile_result [OF this assms(2,3)]
  have "free_to_log ?u"
    using assms(1) set_logFile_ok [OF \<open>settings_ok s\<close> set] by (simp add: free_to_log_def)
  moreover have "read_str (logFile ?u) = Inr file"
    using assms(2,3) by (simp add: read_str_def cbuf)
  moreover have "vformat (''Log file set to '' @ [CHR 0x27] @ ''%s'' @ [CHR 0x27]) [FStr file]
      = Inr (''Log file set to '' @ [CHR 0x27] @ file @ [CHR 0x27])"
    by simp
  ultimately show ?thesis
    using writeLog_notice [of ?u "''Log file set to '' @ [CHR 0x27] @ ''%s'' @ [CHR 0x27]" "[FStr file]"]
      assms(3) set by (simp add: setLogFile_def)
qed

lemma flushLog_free:
  assumes "free_to_log s"
  shows "\<exists>t. flushLog s = Inr t \<and> same_settings t s \<and> free_to_log t"
proof -
  have ok: "settings_ok s" and free: "\<not> lg_denied s (log_path s)" "\<not> lg_kept s (log_path s)"
    using assms by (simp_all add: free_to_log_def)
  obtain u where u: "clear_log (log_path s) s = Inr u" "same_settings u s"
      "lg_denied u = lg_denied s" "lg_kept u = lg_kept s"
    using clear_log_result [OF free] by (auto simp: same_settings_def)
  then have "free_to_log u"
    using assms ok settings_ok_cong [of u s] by (intro free_to_logI [OF assms]) (simp_all add: same_settings_def)
  moreover have "read_str (logFile s) = Inr (log_path s)" "length (log_path s) < 255"
    using ok length_cstr_less [of "logFile s"] by (simp_all add: settings_ok_def read_str_def log_path_def)
  moreover have "vformat (''Log file '' @ [CHR 0x27] @ ''%s'' @ [CHR 0x27] @ '' cleared'') [FStr (log_path s)]
      = Inr (''Log file '' @ [CHR 0x27] @ log_path s @ [CHR 0x27] @ '' cleared'')"
    by simp
  ultimately show ?thesis
    using writeLog_notice [of u "''Log file '' @ [CHR 0x27] @ ''%s'' @ [CHR 0x27] @ '' cleared''"
        "[FStr (log_path s)]"] u same_settings_trans by (fastforce simp: flushLog_def)
qed

lemma setLogSilentMode_free:
  assumes "free_to_log s"
  shows "\<exists>t. setLogSilentMode b s = Inr t \<and> same_settings t (s\<lparr>silentMode := b\<rparr>) \<and> free_to_log t"
proof -
  have "free_to_log (s\<lparr>silentMode := b\<rparr>)"
    using assms by (simp add: free_to_log_def settings_ok_def)
  then show ?thesis
    using writeLog_notice [of "s\<lparr>silentMode := b\<rparr>" "''Silent mode %s''"
        "[FStr (if b then ''enabled'' else ''disabled'')]"] by (simp add: setLogSilentMode_def)
qed

lemma setLineWrap_free:
  assumes "free_to_log s"
  shows "\<exists>t. setLineWrap b s = Inr t \<and> same_settings t (s\<lparr>lineWrap := b\<rparr>) \<and> free_to_log t"
proof -
  have "free_to_log (s\<lparr>lineWrap := b\<rparr>)"
    using assms by (simp add: free_to_log_def settings_ok_def)
  then show ?thesis
    using writeLog_notice [of "s\<lparr>lineWrap := b\<rparr>" "''Line wrapping %s''"
        "[FStr (if b then ''enabled'' else ''disabled'')]"] by (simp add: setLineWrap_def)
qed

lemma setLogDebugLevel_free:
  assumes "free_to_log s" and "n \<le> 3"
  shows "\<exists>t. setLogDebugLevel (int n) s = Inr t \<and> same_settings t (s\<lparr>dbgLevel := int n\<rparr>) \<and> free_to_log t"
proof -
  have "n \<in> {0, 1, 2, 3}"
    using assms(2) by auto
  then have "free_to_log (s\<lparr>dbgLevel := int n\<rparr>)"
    using assms by (auto simp: free_to_log_def settings_ok_def)
  moreover have "length (show_int (int n)) \<le> 1"
    using \<open>n \<in> {0, 1, 2, 3}\<close> by (auto simp: show_int_def show_nat_rec [of n])
  ultimately show ?thesis
    using writeLog_notice [of "s\<lparr>dbgLevel := int n\<rparr>" "''Debug level set to %d''" "[FInt (int n)]"] assms(2)
    by (auto simp: setLogDebugLevel_def)
qed

lemma apply_settings_free:
  assumes "free_to_log s" and "debugLevelSetting c = int n" and "n \<le> 3"
    and "read_str (logfileSetting c) = Inr file" and "no_nul file" and "length file < 255"
  shows "\<exists>t. apply_settings c s = Inr t \<and> silentMode t = silentSetting c \<and> lineWrap t = lineWrapSetting c
    \<and> dbgLevel t = int n \<and> log_path t = file \<and> free_to_log t"
proof -
  let ?f = "file @ replicate (255 - length file) NUL"
  note name = assms(4)
  have "\<exists>s1. (if silentSetting c then set_logFile file s else setLogFile file s) = Inr s1
      \<and> logFile s1 = ?f \<and> free_to_log s1"
  proof (cases "silentSetting c")
    case True
    have ok: "settings_ok s"
      using assms(1) by (simp add: free_to_log_def)
    note set = set_logFile_result [OF ok assms(5,6)]
    have "free_to_log (s\<lparr>logFile := ?f\<rparr>)"
      using set_logFile_ok [OF ok set] assms(1) by (simp add: free_to_log_def)
    with True set show ?thesis by simp
  next
    case False
    then show ?thesis
      using setLogFile_free [OF assms(1,5,6)] by (auto simp: same_settings_def)
  qed
  then obtain s1 where s1: "(if silentSetting c then set_logFile file s else setLogFile file s) = Inr s1"
      "logFile s1 = ?f" "free_to_log s1" by blast
  obtain s2 where s2: "(if flushSetting c then flushLog s1 else Inr s1) = Inr s2" "logFile s2 = ?f"
      "free_to_log s2"
    using flushLog_free [OF s1(3)] s1 by (cases "flushSetting c") (auto simp: same_settings_def)
  obtain s3 where s3: "setLogSilentMode (silentSetting c) s2 = Inr s3"
      "same_settings s3 (s2\<lparr>silentMode := silentSetting c\<rparr>)" "free_to_log s3"
    using setLogSilentMode_free [OF s2(3)] by blast
  obtain s4 where s4: "setLineWrap (lineWrapSetting c) s3 = Inr s4"
      "same_settings s4 (s3\<lparr>lineWrap := lineWrapSetting c\<rparr>)" "free_to_log s4"
    using setLineWrap_free [OF s3(3)] by blast
  obtain t where t: "setLogDebugLevel (int n) s4 = Inr t" "same_settings t (s4\<lparr>dbgLevel := int n\<rparr>)"
      "free_to_log t"
    using setLogDebugLevel_free [OF s4(3) assms(3)] by blast
  have "apply_settings c s = Inr t"
    using name s1(1) s2(1) s3(1) s4(1) t(1) assms(2) by (simp add: apply_settings_def)
  moreover have "cstr ?f = file"
    using assms(5) by (rule cstr_append_zeros)
  ultimately show ?thesis
    using s2(2) s3(2) s4(2) t(2,3) by (simp add: same_settings_def log_path_def)
qed

section \<open>Properties\<close>

text \<open>C31. The parser reads the lines \<open>name=value\<close> in order, each with the effect of its
  setting, and drops what follows the last newline: a last line that does not end in one is
  not read. Neither names nor values may hold an equals sign or take up a whole buffer.\<close>

theorem parse_config_refines:
  assumes "list_all line_ok ls" and "NL \<notin> set w"
  shows "parse_config (config_text ls @ w) (config_text ls @ w) 0 0 0 c = apply_lines ls c"
  using assms by (rule parse_config_result)

theorem parse_config_refines_witness:
  "parse_config (config_text [(''debug'', ''1''), (''wrap'', ''false'')] @ ''silent=true'')
     (config_text [(''debug'', ''1''), (''wrap'', ''false'')] @ ''silent=true'') 0 0 0
     (current_settings sample_logger (logFile sample_logger)) =
   apply_lines [(''debug'', ''1''), (''wrap'', ''false'')]
     (current_settings sample_logger (logFile sample_logger))"
  by (rule parse_config_refines) (simp_all add: line_ok_def plain_def no_nul_def)

text \<open>A line without an equals sign, an empty one or a comment, makes the number of
  characters of the name negative: \<open>strncpy\<close> is called for nearly \<open>2 ^ 64\<close> of them and
  writes past \<open>var\<close>, whatever the lines before it.\<close>

lemma parse_config_blank_faults:
  assumes "list_all line_ok ls" and "apply_lines ls c = Inr c'"
    and "CHR ''='' \<notin> set w" and "NL \<notin> set w"
  shows "parse_config (config_text ls @ w @ NL # post) (config_text ls @ w @ NL # post) 0 0 0 c
    = Inl OutOfBounds"
proof -
  let ?b = "config_text ls @ w @ NL # post" and ?n = "length (config_text ls)"
  obtain sp' where sp': "sp' \<le> ?n"
      "parse_config ?b ?b 0 0 0 c = parse_config ?b (w @ NL # post) ?n ?n sp' c'"
    using parse_config_lines [OF _ assms(1), of 0 "[]" "w @ NL # post" c] assms(2) by auto
  then have "parse_line ?b ?n sp' (?n + length w) c' = Inl OutOfBounds"
    by (simp add: parse_line_def strncpy_int_def)
  then show ?thesis
    using sp'(2) parse_config_plain [OF assms(3,4)] by simp
qed

lemma loadConfig_reads:
  assumes "settings_ok s" and "lg_files s config = Some bs" and "\<not> lg_denied s config"
  obtains name where "name = log_path s @ replicate (255 - length (log_path s)) NUL"
    "loadConfig config s = load_from (current_settings s name) bs (if bs = [] then s else s\<lparr>lg_errno := EBADF\<rparr>)"
proof -
  have name: "read_str (logFile s) = Inr (log_path s)" "length (log_path s) < 255"
    using assms(1) length_cstr_less [of "logFile s"]
    by (simp_all add: settings_ok_def read_str_def log_path_def)
  have "strcpy (replicate 255 NUL) 0 (log_path s)
      = Inr (log_path s @ replicate (255 - length (log_path s)) NUL)"
    using name(2) by (simp add: strcpy_fits Suc_diff_Suc flip: replicate_Suc)
  then show thesis
    using assms(2,3) name(1) by (intro that [OF refl]) (simp add: loadConfig_def)
qed

text \<open>A configuration file of 1024 bytes or more, with no zero byte among the first 1024,
  is not read in bounds: the block that is doubled holds no end of the text.\<close>

lemma loadConfig_large_faults:
  assumes "settings_ok s" and "lg_files s config = Some bs" and "\<not> lg_denied s config"
    and "1024 \<le> length bs" and "no_nul (take 1024 bs)"
  shows "loadConfig config s = Inl Uninitialised"
proof -
  have "settings_text bs = Inl Uninitialised"
    using assms(4,5) by (simp add: settings_text_def SETTINGS_BUFSIZE_def)
  then have "load_from c bs t = Inl Uninitialised" for c t
    by (simp add: load_from_def)
  then show ?thesis
    by (metis loadConfig_reads [OF assms(1-3)])
qed

text \<open>\<open>setLogFile\<close> does not look at the length of the name: it overflows \<open>logFile\<close>
  exactly for names of 255 characters or more.\<close>

lemma set_logFile_faults_iff:
  assumes "settings_ok s" and "no_nul name"
  shows "set_logFile name s = Inl OutOfBounds \<longleftrightarrow> 255 \<le> length name"
proof -
  have "memset (logFile s) NUL 255 = Inr (replicate 255 NUL)"
    using assms(1) by (simp add: settings_ok_def memset_def put_def)
  then show ?thesis
    using set_logFile_result [OF assms] by (cases "length name < 255") (simp_all add: set_logFile_def strcpy_overflow)
qed

lemma setLogFile_overflows: "settings_ok s \<Longrightarrow> no_nul name \<Longrightarrow> 255 \<le> length name
    \<Longrightarrow> setLogFile name s = Inl OutOfBounds"
  using set_logFile_faults_iff [of s name] by (simp add: setLogFile_def)

lemma setLogFile_faults_iff:
  assumes "free_to_log s" and "no_nul name"
  shows "setLogFile name s = Inl OutOfBounds \<longleftrightarrow> 255 \<le> length name"
proof
  assume "setLogFile name s = Inl OutOfBounds"
  then show "255 \<le> length name"
    using setLogFile_free [OF assms] by (cases "length name < 255") auto
next
  assume "255 \<le> length name"
  then show "setLogFile name s = Inl OutOfBounds"
    using assms by (intro setLogFile_overflows) (simp_all add: free_to_log_def)
qed

lemma sample_free: "free_to_log sample_logger"
  by (simp add: free_to_log_def)

text \<open>A configuration file that says all five settings.\<close>

definition show_bool :: "bool \<Rightarrow> string" where
  "show_bool b = (if b then ''true'' else ''false'')"

definition all_settings :: "bool \<Rightarrow> bool \<Rightarrow> bool \<Rightarrow> nat \<Rightarrow> string \<Rightarrow> (string \<times> string) list" where
  "all_settings silent wrap flush level name =
     [(''silent'', show_bool silent), (''wrap'', show_bool wrap), (''flush'', show_bool flush),
      (''debug'', show_nat level), (''logfile'', name)]"

lemma length_show_bool: "length (show_bool b) < 6"
  by (simp add: show_bool_def)

lemma show_bool_simps [simp]:
  "plain (show_bool b)" "show_bool b = ''true'' \<longleftrightarrow> b"
  "show_bool b = ''false'' \<longleftrightarrow> \<not> b"
  by (simp_all add: show_bool_def plain_def)

lemma plain_show_nat [simp]: "plain (show_nat n)"
  using show_nat_digits [of n] by (auto simp: plain_def no_nul_def list_all_iff is_digit_def)

lemma one_digit: "n \<le> 3 \<Longrightarrow> length (show_nat n) = 1"
  by (subst show_nat_rec) simp

lemma all_settings_ok:
  assumes "plain name" and "length name < 255" and "n \<le> 3"
  shows "list_all line_ok (all_settings silent wrap flush n name)"
    and "length (config_text (all_settings silent wrap flush n name)) < 400"
  using assms one_digit [of n] length_show_bool [of silent] length_show_bool [of wrap]
    length_show_bool [of flush]
  by (simp_all add: all_settings_def line_ok_def plain_def [of "_ # _"] config_text_def config_line_def)

lemma loadConfig_free:
  assumes "free_to_log s" and "lg_files s config = Some bs"
  shows "\<exists>old u. length old = 255 \<and> free_to_log u
    \<and> loadConfig config s = load_from (current_settings s old) bs u"
proof -
  let ?u = "if bs = [] then s else s\<lparr>lg_errno := EBADF\<rparr>"
  have s: "settings_ok s" "\<not> lg_denied s config"
    using assms(1) by (simp_all add: free_to_log_def)
  obtain old where old: "old = log_path s @ replicate (255 - length (log_path s)) NUL"
    and "loadConfig config s = load_from (current_settings s old) bs ?u"
    using loadConfig_reads [OF s(1) assms(2) s(2)] by metis
  moreover have "length old = 255"
    using s(1) length_cstr_le [of "logFile s"] by (simp add: old log_path_def settings_ok_def)
  moreover have "free_to_log ?u"
    using assms(1) by (simp add: free_to_log_def settings_ok_def)
  ultimately show ?thesis
    by blast
qed

lemma apply_all_settings:
  assumes "n \<le> 3" and "plain name" and "length name < 255" and "length (logfileSetting c) = 255"
  shows "\<exists>c'. apply_lines (all_settings silent wrap flush n name) c = Inr c' \<and> silentSetting c' = silent
    \<and> lineWrapSetting c' = wrap \<and> debugLevelSetting c' = int n \<and> read_str (logfileSetting c') = Inr name"
proof -
  have level: "sint (atoi (show_nat n)) = int n"
    using assms(1) atoi_show_int [of "int n"] by (simp add: show_int_def)
  have "read_str (name @ NUL # drop (Suc (length name)) (logfileSetting c)) = Inr name"
    using assms(2) by (simp add: read_str_def plain_def cbuf)
  then show ?thesis
    using assms(3,4) level by (simp add: all_settings_def apply_setting_def Let_def strcpy_fits)
qed

lemma settings_text_lines:
  assumes "list_all line_ok ls" and "length (config_text ls) < 400"
  shows "settings_text (config_text ls) = Inr (config_text ls)"
proof -
  have "no_nul (config_text ls)"
    using assms(1) by (induction ls) (auto simp: config_text_def config_line_def line_ok_def plain_def)
  then show ?thesis
    using assms(2) by (simp add: settings_text_def SETTINGS_BUFSIZE_def cbuf)
qed

lemma loadConfig_settings:
  assumes "free_to_log s" and "n \<le> 3" and "plain name" and "length name < 255"
    and "lg_files s config = Some (config_text (all_settings silent wrap flush n name))"
  shows "\<exists>t. loadConfig config s = Inr t \<and> silentMode t = silent \<and> lineWrap t = wrap
    \<and> dbgLevel t = int n \<and> log_path t = name \<and> free_to_log t"
proof -
  let ?ls = "all_settings silent wrap flush n name"
  let ?bs = "config_text ?ls"
  note ok = all_settings_ok [OF assms(3,4,2), of silent wrap flush]
  have s: "settings_ok s" "\<not> lg_denied s config"
    using assms(1) by (simp_all add: free_to_log_def)
  obtain old u where old: "length old = 255" and u: "free_to_log u"
    and load: "loadConfig config s = load_from (current_settings s old) ?bs u"
    using loadConfig_free [OF assms(1,5)] by blast
  obtain c where c: "apply_lines ?ls (current_settings s old) = Inr c" "silentSetting c = silent"
      "lineWrapSetting c = wrap" "debugLevelSetting c = int n" "read_str (logfileSetting c) = Inr name"
    using apply_all_settings [OF assms(2,3,4), of "current_settings s old" silent wrap flush] old
    unfolding current_settings_def by auto
  have "no_nul name"
    using assms(3) by (simp add: plain_def)
  obtain t where t: "apply_settings c u = Inr t" "silentMode t = silent" "lineWrap t = wrap"
      "dbgLevel t = int n" "log_path t = name" "free_to_log t"
    using apply_settings_free [OF u c(4) assms(2) c(5) \<open>no_nul name\<close> assms(4)] c(2,3) by auto
  have "load_from (current_settings s old) ?bs u = Inr t"
    using settings_text_lines [OF ok(1)] ok(2) parse_config_result [OF ok(1), of "[]"] c(1) t(1)
    by (simp add: load_from_def)
  then show ?thesis
    using load t by auto
qed

text \<open>C28. A configuration file with all five settings is read back as they were written: after
  \<open>loadConfig\<close> the logger has the silent mode, the wrapping, the level and the log file it
  names, if the files can be opened and removed.\<close>

theorem loadConfig_roundtrip:
  assumes "free_to_log s" and "n \<le> 3" and "plain name" and "length name < 255"
    and "lg_files s config = Some (config_text (all_settings silent wrap flush n name))"
  shows "\<exists>t. loadConfig config s = Inr t \<and> silentMode t = silent \<and> lineWrap t = wrap
    \<and> dbgLevel t = int n \<and> log_path t = name"
  using loadConfig_settings [OF assms] by blast

theorem loadConfig_roundtrip_witness:
  "\<exists>t. loadConfig ''log_config.conf''
        (sample_logger\<lparr>lg_files := (\<lambda>p. None)(''log_config.conf'' \<mapsto>
           config_text (all_settings True False True 1 ''client.log''))\<rparr>) = Inr t
     \<and> silentMode t = True \<and> lineWrap t = False \<and> dbgLevel t = int 1 \<and> log_path t = ''client.log''"
proof (rule loadConfig_roundtrip)
  show "free_to_log (sample_logger\<lparr>lg_files := (\<lambda>p. None)(''log_config.conf'' \<mapsto>
           config_text (all_settings True False True 1 ''client.log''))\<rparr>)"
    using sample_free by (simp add: free_to_log_def settings_ok_def)
  show "plain ''client.log''"
    by (simp add: plain_def no_nul_def)
qed simp_all

end
