(* ===== verification/StackTrace.thy ===== *)
theory StackTrace
  imports LogConfig
begin

text \<open>
  The logger's stack traces, \<open>writeStackTrace\<close> and \<open>getPrettyBacktrace\<close> in \<^verbatim>\<open>c/simplog.c\<close>.

  What the machine answers is a parameter: the addresses \<open>backtrace\<close> finds and the names
  \<open>backtrace_symbols\<close> gives them, whether \<open>addr2line\<close> is installed, the path of the
  executable, and the output of a command. \<open>bt_apple\<close> selects the branch compiled on
  Mac OS. The pipes left open by a missing \<open>pclose\<close> are counted.
\<close>

section \<open>The machine\<close>

record bt_env =
  bt_apple :: bool
  bt_has_tool :: bool
  bt_self :: "string option"
  bt_popen :: "string \<Rightarrow> char list option"
  bt_symbols :: "64 word list \<Rightarrow> string list"

text \<open>\<open>fgets(b, n, f)\<close>: a line with its newline, or its first \<open>n - 1\<close> characters.\<close>

definition fgets :: "nat \<Rightarrow> char list \<Rightarrow> char list option" where
  "fgets n st =
     (let l = takeWhile (\<lambda>c. c \<noteq> NL) st
      in if st = [] then None
         else Some (take (n - 1) (if length l < length st then l @ [NL] else l)))"

section \<open>getPrettyBacktrace\<close>

text \<open>The program the code asks for, and the path of the executable: its length is that
  returned by \<open>proc_pidpath\<close> or \<open>readlink\<close>, the errors included.\<close>

definition tool_name :: "bt_env \<Rightarrow> string" where
  "tool_name E = (if bt_apple E then ''gaddr2line'' else ''addr2line'')"

definition path_length :: "bt_env \<Rightarrow> int" where
  "path_length E =
     (case bt_self E of
        None \<Rightarrow> if bt_apple E then 0 else - 1
      | Some p \<Rightarrow> int (length (take 4096 p)))"

text \<open>
  The first half: the terminating zero is written at \<open>exe_path[path_length]\<close> even when
  there is no path. The result is the path, or none if an error occurred.
\<close>

definition pretty_setup :: "bt_env \<Rightarrow> logger \<Rightarrow> (string option \<times> logger) result" where
  "pretty_setup E s =
     (if bt_has_tool E then
        rbind (if path_length E \<le> 0
               then writeLog SIMPLOG_LOGGER
                      ''Unable to get execution path. Defaulting to standard backtrace.'' [] s
               else Inr s) (\<lambda>s.
        if path_length E < 0 \<or> 4096 \<le> path_length E then Inl OutOfBounds
        else Inr (if path_length E = 0 then None else map_option cstr (bt_self E), s))
      else
        rbind (writeLog SIMPLOG_LOGGER
                 (''Function '' @ [CHR 0x27] @ tool_name E @ [CHR 0x27]
                  @ '' unavailable. Defaulting to standard backtrace. Please install package ''
                  @ [CHR 0x27] @ ''binutils'' @ [CHR 0x27] @ '' for better stacktrace output.'') [] s)
          (\<lambda>s. Inr (None, s)))"

definition tool_command :: "bt_env \<Rightarrow> string" where
  "tool_command E = tool_name E @ '' -Cfispe''"

definition command_string :: "bt_env \<Rightarrow> string \<Rightarrow> 64 word \<Rightarrow> string result" where
  "command_string E exe_path a =
     sprintf_end (4096 + 255) []
       (tool_command E @ '' '' @ [CHR 0x22] @ exe_path @ [CHR 0x22] @ '' ''
        @ show_hex 65 (unat (ucast a :: 32 word)) [] @ '' 2>/dev/null'')"

text \<open>The last character of a line is dropped, whether it is a newline or not.\<close>

definition chop :: "string \<Rightarrow> string result" where
  "chop l = (if l = [] then Inl OutOfBounds else Inr (butlast l))"

text \<open>
  The loop over the addresses: the lines and whether one of them is an answer, or none
  after a command that failed; the logger; the pipes left open.
\<close>

fun pretty_loop ::
  "bt_env \<Rightarrow> string \<Rightarrow> 64 word list \<Rightarrow> string list \<Rightarrow> bool \<Rightarrow> logger
     \<Rightarrow> ((string list \<times> bool) option \<times> logger \<times> nat) result" where
  "pretty_loop E exe_path [] strings good s = Inr (Some (strings, good), s, 0)"
| "pretty_loop E exe_path (a # as) strings good s =
     rbind (command_string E exe_path a) (\<lambda>cmd.
       case bt_popen E cmd of
         None \<Rightarrow>
           rbind (writeLog SIMPLOG_LOGGER
                    (''Failed to execute command: '' @ [CHR 0x27] @ ''%s'' @ [CHR 0x27]
                     @ ''. Defaulting to standard backtrace.'') [FStr (tool_command E)] s)
             (\<lambda>s. Inr (None, s, 0))
       | Some output \<Rightarrow>
           (case fgets 255 output of
              None \<Rightarrow>
                rbind (writeLog SIMPLOG_LOGGER
                         ''Failed to get pretty backtrace strings. Defaulting to standard backtrace.'' [] s)
                  (\<lambda>s. Inr (None, s, 1))
            | Some line \<Rightarrow>
                rbind (chop (cstr line)) (\<lambda>l.
                  pretty_loop E exe_path as (strings @ [l])
                    (good \<or> (l \<noteq> ''??'' \<and> l \<noteq> ''?? ??:0'')) s)))"

definition getPrettyBacktrace ::
  "bt_env \<Rightarrow> 64 word list \<Rightarrow> logger \<Rightarrow> (string list option \<times> logger \<times> nat) result" where
  "getPrettyBacktrace E addresses s =
     rbind (pretty_setup E s) (\<lambda>(path, s).
       case path of
         None \<Rightarrow> Inr (None, s, 0)
       | Some exe_path \<Rightarrow>
           rbind (pretty_loop E exe_path addresses [] False s) (\<lambda>(r, s, pipes).
             case r of
               None \<Rightarrow> Inr (None, s, pipes)
             | Some (strings, good) \<Rightarrow>
                 if good then Inr (Some strings, s, pipes)
                 else rbind (writeLog SIMPLOG_LOGGER
                               (''Command '' @ [CHR 0x27] @ ''%s'' @ [CHR 0x27]
                                @ '' failed to evaluate addresses. Defaulting to standard backtrace.'')
                               [FStr (tool_command E)] s)
                        (\<lambda>s. Inr (None, s, pipes))))"

section \<open>writeStackTrace\<close>

text \<open>\<open>sizeof(backtrace_strings) * 255\<close>, with the size of a pointer.\<close>

definition max_message_size :: nat where
  "max_message_size = 8 * 255"

definition trace_head :: string where
  "trace_head = ''StackTrace - Most recent calls appear first:'' @ [NL] @ indentedLineSpacing"

definition truncation_notice :: string where
  "truncation_notice = '' [backtrace truncated]''"

text \<open>
  The composition of the message, on the strings still to come: the block and the offset
  at the end. The notice is put at the offset, which does not move.
\<close>

fun trace_loop :: "string list \<Rightarrow> char list \<Rightarrow> nat \<Rightarrow> (char list \<times> nat) result" where
  "trace_loop [] message offset = Inr (message, offset)"
| "trace_loop (x # xs) message offset =
     (if offset + length x - length trace_head > max_message_size then
        (if offset + 22 < max_message_size
         then rbind (strncpy message offset truncation_notice 22) (\<lambda>m. Inr (m, offset))
         else Inr (message, offset))
      else
        rbind (strncpy message offset x (length x)) (\<lambda>m.
          if xs = [] then Inr (m, offset + length x)
          else rbind (put m (offset + length x) [NL]) (\<lambda>m.
               rbind (strncpy m (offset + length x + 1) indentedLineSpacing (length indentedLineSpacing)) (\<lambda>m.
                 trace_loop xs m (offset + length x + 1 + length indentedLineSpacing)))))"

text \<open>The terminating zero, and the string there is then.\<close>

definition trace_finish :: "char list \<times> nat \<Rightarrow> string result" where
  "trace_finish = (\<lambda>(message, offset).
     rbind (put message (if offset \<ge> max_message_size - 1 then max_message_size - 1 else offset) [NUL])
       read_str)"

text \<open>\<open>junk\<close> is what the block holds when \<open>malloc\<close> returns it.\<close>

definition trace_message :: "char list \<Rightarrow> string list \<Rightarrow> string result" where
  "trace_message junk backtrace_strings =
     rbind (strcpy junk 0 trace_head) (\<lambda>m.
     rbind (trace_loop (tl backtrace_strings) m (length trace_head)) trace_finish)"

definition max_backtrace_size :: nat where
  "max_backtrace_size = 15"

definition writeStackTrace ::
  "bt_env \<Rightarrow> char list \<Rightarrow> 64 word list \<Rightarrow> logger \<Rightarrow> (logger \<times> nat) result" where
  "writeStackTrace E junk frames s =
     (let addresses = take max_backtrace_size frames
      in rbind (getPrettyBacktrace E addresses s) (\<lambda>(pretty, s, pipes).
           let backtrace_strings = (case pretty of None \<Rightarrow> bt_symbols E addresses | Some strings \<Rightarrow> strings);
               s = s\<lparr>lg_errno := 0\<rparr>
           in rbind (trace_message junk backtrace_strings) (\<lambda>message.
              rbind (writeLog SIMPLOG_TRACE ''%s'' [FStr message] s) (\<lambda>s. Inr (s, pipes)))))"

section \<open>The message\<close>

text \<open>The strings with a newline and the indentation after each.\<close>

definition separated :: "string list \<Rightarrow> string" where
  "separated xs = concat (map (\<lambda>x. x @ NL # indentedLineSpacing) xs)"

definition trace_text :: "string list \<Rightarrow> string" where
  "trace_text xs = trace_head @ (if xs = [] then [] else separated (butlast xs) @ last xs)"

lemma separated_simps [simp]:
  "separated [] = []" "separated (x # xs) = x @ NL # indentedLineSpacing @ separated xs"
  by (simp_all add: separated_def)

lemma length_trace_head [simp]: "length trace_head = 76"
  by (simp add: trace_head_def)

lemma no_nul_trace_head [simp]: "no_nul trace_head"
  by (simp add: trace_head_def)

lemma no_nul_separated: "list_all no_nul xs \<Longrightarrow> no_nul (separated xs)"
  by (induction xs) simp_all

lemma put_tail: "length xs \<le> length r \<Longrightarrow> put (t @ r) (length t) xs = Inr (t @ xs @ drop (length xs) r)"
  by (simp add: put_def)

lemma strncpy_tail:
  "length x \<le> length r \<Longrightarrow> strncpy (t @ r) (length t) x (length x) = Inr (t @ x @ drop (length x) r)"
  by (simp add: strncpy_def put_tail)

lemma trace_loop_step:
  assumes "76 \<le> length t" and "length (t @ r) = max_message_size" and "xs \<noteq> []"
    and "length x + 32 \<le> length r"
  shows "trace_loop (x # xs) (t @ r) (length t) =
    trace_loop xs ((t @ x @ NL # indentedLineSpacing) @ drop (length x + 32) r)
      (length (t @ x @ NL # indentedLineSpacing))"
proof -
  have c: "\<not> length t + length x - length trace_head > max_message_size"
    using assms(1,2,4) by simp
  have x: "strncpy (t @ r) (length t) x (length x) = Inr ((t @ x) @ drop (length x) r)"
    using assms(4) by (simp add: strncpy_tail)
  have nl: "put ((t @ x) @ drop (length x) r) (length t + length x) [NL]
      = Inr ((t @ x @ [NL]) @ drop (length x + 1) r)"
    using assms(4) put_tail [of "[NL]" "drop (length x) r" "t @ x"] by (simp add: add.commute)
  have ind: "strncpy ((t @ x @ [NL]) @ drop (length x + 1) r) (length t + length x + 1)
        indentedLineSpacing (length indentedLineSpacing)
      = Inr ((t @ x @ [NL] @ indentedLineSpacing) @ drop (length x + 32) r)"
    using assms(4) strncpy_tail [of indentedLineSpacing "drop (length x + 1) r" "t @ x @ [NL]"]
    by (simp add: add.commute)
  have n: "length t + length x + 1 + length indentedLineSpacing = length (t @ x @ NL # indentedLineSpacing)"
    by simp
  show ?thesis
    unfolding trace_loop.simps(2) x nl ind n rbind.simps using c assms(3) by simp
qed

lemma trace_loop_prefix:
  assumes "76 \<le> length t" and "length (t @ r) = max_message_size" and "ys \<noteq> []"
    and "length (separated xs) \<le> length r"
  shows "trace_loop (xs @ ys) (t @ r) (length t) =
    trace_loop ys ((t @ separated xs) @ drop (length (separated xs)) r) (length (t @ separated xs))"
  using assms
proof (induction xs arbitrary: t r)
  case Nil
  then show ?case by simp
next
  case (Cons x xs)
  let ?t = "t @ x @ NL # indentedLineSpacing" and ?r = "drop (length x + 32) r"
  have "trace_loop ((x # xs) @ ys) (t @ r) (length t) = trace_loop (xs @ ys) (?t @ ?r) (length ?t)"
    using trace_loop_step [of t r "xs @ ys" x] Cons.prems by simp
  also have "\<dots> = trace_loop ys ((?t @ separated xs) @ drop (length (separated xs)) ?r)
      (length (?t @ separated xs))"
    using Cons.prems by (intro Cons.IH) simp_all
  finally show ?case
    by (simp add: add.commute add.left_commute)
qed

lemma trace_loop_fits:
  assumes "76 \<le> length t" and "length (t @ r) = max_message_size"
    and "length (separated xs @ x) \<le> length r"
  shows "trace_loop (xs @ [x]) (t @ r) (length t) =
    Inr ((t @ separated xs @ x) @ drop (length (separated xs @ x)) r, length (t @ separated xs @ x))"
proof -
  let ?t = "t @ separated xs" and ?r = "drop (length (separated xs)) r"
  have "\<not> length ?t + length x - length trace_head > max_message_size"
    using assms by simp
  moreover have "strncpy (?t @ ?r) (length ?t) x (length x) = Inr (?t @ x @ drop (length x) ?r)"
    using assms by (intro strncpy_tail) simp
  ultimately have "trace_loop [x] (?t @ ?r) (length ?t) = Inr (?t @ x @ drop (length x) ?r, length ?t + length x)"
    unfolding trace_loop.simps(2) by (simp del: append_assoc length_append)
  then show ?thesis
    using assms trace_loop_prefix [of t r "[x]" xs] by (simp add: add.commute)
qed

lemma trace_end:
  assumes "no_nul t" and "length (t @ r) = max_message_size" and "length t < max_message_size"
  shows "trace_finish (t @ r, length t) = Inr t"
proof -
  have "(if length t \<ge> max_message_size - 1 then max_message_size - 1 else length t) = length t"
    using assms(3) by auto
  moreover have "put (t @ r) (length t) [NUL] = Inr (t @ NUL # drop 1 r)"
    using assms(2,3) put_tail [of "[NUL]" r t] by simp
  ultimately show ?thesis
    using assms(1) by (simp add: trace_finish_def read_str_def cbuf)
qed

lemma trace_start:
  assumes "length junk = max_message_size"
  shows "strcpy junk 0 trace_head = Inr (trace_head @ NUL # drop 77 junk)"
  using assms by (simp add: strcpy_fits max_message_size_def)

lemma trace_message_prefix:
  assumes "length junk = max_message_size" and "ys \<noteq> []"
    and "length (trace_head @ separated xs) \<le> max_message_size"
  shows "\<exists>r. length ((trace_head @ separated xs) @ r) = max_message_size
    \<and> trace_message junk (f # xs @ ys) =
      rbind (trace_loop ys ((trace_head @ separated xs) @ r) (length (trace_head @ separated xs))) trace_finish"
proof -
  let ?r = "NUL # drop 77 junk"
  have len: "length (trace_head @ ?r) = max_message_size"
    using assms(1) by (simp add: max_message_size_def)
  have fits: "length (separated xs) \<le> length ?r"
    using assms(1,3) by (simp add: max_message_size_def)
  have "trace_loop (xs @ ys) (trace_head @ ?r) (length trace_head) =
      trace_loop ys ((trace_head @ separated xs) @ drop (length (separated xs)) ?r)
        (length (trace_head @ separated xs))"
    using fits by (intro trace_loop_prefix [OF _ len assms(2)]) simp_all
  then have "trace_message junk (f # xs @ ys) =
      rbind (trace_loop ys ((trace_head @ separated xs) @ drop (length (separated xs)) ?r)
        (length (trace_head @ separated xs))) trace_finish"
    by (simp only: trace_message_def trace_start [OF assms(1)] rbind.simps list.sel)
  moreover have "length ((trace_head @ separated xs) @ drop (length (separated xs)) ?r) = max_message_size"
    using len fits by simp
  ultimately show ?thesis
    by blast
qed

lemma trace_message_fits:
  assumes "length junk = max_message_size" and "list_all no_nul xs"
    and "length (trace_text xs) < max_message_size"
  shows "trace_message junk (f # xs) = Inr (trace_text xs)"
proof (cases xs rule: rev_cases)
  case Nil
  have "length (trace_head @ NUL # drop 77 junk) = max_message_size"
    using assms(1) by (simp add: max_message_size_def)
  then have "trace_finish (trace_head @ NUL # drop 77 junk, length trace_head) = Inr trace_head"
    by (intro trace_end) (simp_all add: max_message_size_def)
  then show ?thesis
    using Nil trace_start [OF assms(1)]
    by (simp only: trace_message_def rbind.simps list.sel trace_loop.simps) (simp add: trace_text_def)
next
  case (snoc xs' x)
  let ?t = "trace_head @ separated xs'"
  have len: "length (?t @ x) < max_message_size" and nul: "no_nul (?t @ x)"
    using assms(2,3) snoc no_nul_separated [of xs'] by (simp_all add: trace_text_def)
  obtain r where r: "length (?t @ r) = max_message_size"
    and eq: "trace_message junk (f # xs' @ [x]) = rbind (trace_loop [x] (?t @ r) (length ?t)) trace_finish"
    using trace_message_prefix [OF assms(1), of "[x]" xs' f] len by auto
  have fit: "trace_loop [x] (?t @ r) (length ?t) = Inr ((?t @ x) @ drop (length x) r, length (?t @ x))"
    using trace_loop_fits [of ?t r "[]" x] r len by simp
  have "length ((?t @ x) @ drop (length x) r) = max_message_size"
    using r len by simp
  note trace_end [OF nul this len]
  then show ?thesis
    unfolding snoc eq fit by (simp add: trace_text_def)
qed

section \<open>The strings\<close>

text \<open>
  A machine on which every address has its line: \<open>line\<close> gives it, without the newline that
  ends it.
\<close>

definition answers :: "bt_env \<Rightarrow> string \<Rightarrow> (64 word \<Rightarrow> string) \<Rightarrow> 64 word list \<Rightarrow> bool" where
  "answers E path line addrs \<longleftrightarrow> (\<forall>a\<in>set addrs. no_nul (line a) \<and> NL \<notin> set (line a) \<and> length (line a) < 254
     \<and> (\<exists>cmd rest. command_string E path a = Inr cmd \<and> bt_popen E cmd = Some (line a @ NL # rest)))"

definition known :: "string \<Rightarrow> bool" where
  "known l \<longleftrightarrow> l \<noteq> ''??'' \<and> l \<noteq> ''?? ??:0''"

lemma fgets_line:
  assumes "NL \<notin> set l" and "length l < 254"
  shows "fgets 255 (l @ NL # rest) = Some (l @ [NL])"
proof -
  have "takeWhile (\<lambda>c. c \<noteq> NL) (l @ NL # rest) = l"
    using assms(1) by (induction l) auto
  then show ?thesis
    using assms(2) by (simp add: fgets_def Let_def)
qed

lemma pretty_loop_answers:
  "answers E path line addrs \<Longrightarrow> pretty_loop E path addrs strings good s =
     Inr (Some (strings @ map line addrs, good \<or> list_ex (known \<circ> line) addrs), s, 0)"
proof (induction addrs arbitrary: strings good)
  case Nil
  then show ?case by simp
next
  case (Cons a addrs)
  then obtain cmd rest where a: "command_string E path a = Inr cmd" "bt_popen E cmd = Some (line a @ NL # rest)"
      "no_nul (line a)" "NL \<notin> set (line a)" "length (line a) < 254" "answers E path line addrs"
    by (auto simp: answers_def)
  have "chop (cstr (line a @ [NL])) = Inr (line a)"
    using a(3) by (simp add: chop_def cbuf)
  then show ?case
    using a Cons.IH fgets_line by (simp add: known_def disj_assoc)
qed

lemma pretty_setup_path:
  assumes "bt_has_tool E" and "bt_self E = Some path" and "no_nul path" and "path \<noteq> []" and "length path < 4096"
  shows "pretty_setup E s = Inr (Some path, s)"
  using assms by (simp add: pretty_setup_def path_length_def cbuf)

lemma getPrettyBacktrace_answers:
  assumes "bt_has_tool E" and "bt_self E = Some path" and "no_nul path" and "path \<noteq> []" and "length path < 4096"
    and "answers E path line addrs" and "list_ex (known \<circ> line) addrs"
  shows "getPrettyBacktrace E addrs s = Inr (Some (map line addrs), s, 0)"
  using assms(7) unfolding getPrettyBacktrace_def pretty_setup_path [OF assms(1-5)] rbind.simps prod.case
    option.case pretty_loop_answers [OF assms(6)] by simp

section \<open>Properties\<close>

text \<open>A machine for the witnesses.\<close>

definition sample_env :: bt_env where
  "sample_env = \<lparr>bt_apple = False, bt_has_tool = True, bt_self = Some ''/bin/serv'',
     bt_popen = (\<lambda>cmd. Some (''main at file_serv.c:29'' @ [NL])),
     bt_symbols = map (\<lambda>a. ''./serv'')\<rparr>"

lemma command_string_ok:
  assumes "length path < 4096"
  shows "\<exists>cmd. command_string E path a = Inr cmd"
proof -
  have "unat (ucast a :: 32 word) < 2 ^ 32"
    using unsigned_less [of "ucast a :: 32 word"] by simp
  note length_show_hex [OF this, of 65]
  then show ?thesis
    using assms by (simp add: command_string_def sprintf_end_def tool_command_def tool_name_def)
qed

lemma sample_answers: "answers sample_env ''/bin/serv'' (\<lambda>a. ''main at file_serv.c:29'') addrs"
  using command_string_ok [of "''/bin/serv''" sample_env]
  by (auto simp: answers_def no_nul_def) (simp add: sample_env_def)

text \<open>C32. Where \<open>addr2line\<close> has a line for every address, and one that names its function,
  \<open>writeStackTrace\<close> logs exactly one message, the lines of the last calls but the call
  itself, indented below each other, clears \<open>errno\<close> and leaves no pipe open.\<close>

theorem writeStackTrace_logs:
  assumes "free_to_log s" and "SIMPLOG_DEBUG \<le> dbgLevel s" and "length junk = max_message_size"
    and "bt_has_tool E" and "bt_self E = Some path" and "no_nul path" and "path \<noteq> []" and "length path < 4096"
    and "answers E path line (take max_backtrace_size frames)"
    and "list_ex (known \<circ> line) (take max_backtrace_size frames)"
    and "length (trace_text (map line (tl (take max_backtrace_size frames)))) < max_message_size"
  shows "writeStackTrace E junk frames s =
    Inr ((logged s COL_TRACE (log_line s ''TRACE : ''
           (trace_text (map line (tl (take max_backtrace_size frames))))))\<lparr>lg_errno := 0\<rparr>, 0)"
proof -
  let ?addrs = "take max_backtrace_size frames" and ?s = "s\<lparr>lg_errno := 0\<rparr>"
  let ?text = "trace_text (map line (tl ?addrs))"
  obtain f addrs where f: "?addrs = f # addrs"
    using assms(10) by (cases ?addrs) simp_all
  have "list_all no_nul (map line (tl ?addrs))"
    using assms(9) f by (simp add: answers_def list_all_iff)
  then have "trace_message junk (map line ?addrs) = Inr ?text"
    using trace_message_fits [OF assms(3) _ assms(11), of "line f"] f by simp
  then have eq: "writeStackTrace E junk frames s =
      rbind (writeLog SIMPLOG_TRACE ''%s'' [FStr ?text] ?s) (\<lambda>s. Inr (s, 0))"
    unfolding writeStackTrace_def Let_def getPrettyBacktrace_answers [OF assms(4-10)] by simp
  have "settings_ok ?s" "\<not> lg_denied ?s (log_path ?s)"
    using assms(1) by (simp_all add: free_to_log_def settings_ok_def)
  moreover have "length ?text < length ''%s'' + 4146"
    using assms(11) by (simp add: max_message_size_def)
  ultimately have "writeLog SIMPLOG_TRACE ''%s'' [FStr ?text] ?s =
      Inr (case level_name SIMPLOG_TRACE (dbgLevel ?s) of None \<Rightarrow> not_logged ?s
         | Some (col, name, wrap) \<Rightarrow> logged ?s col (log_line ?s name ?text))"
    by (intro writeLog_level) simp_all
  moreover have "level_name SIMPLOG_TRACE (dbgLevel ?s) = Some (COL_TRACE, ''TRACE : '', False)"
    using assms(2) by (simp add: level_name_def)
  ultimately show ?thesis
    unfolding eq by (simp add: logged_def log_line_def log_path_def log_bytes_def)
qed

theorem writeStackTrace_logs_witness:
  "writeStackTrace sample_env (replicate max_message_size NUL) [1, 2, 3] sample_logger =
    Inr ((logged sample_logger COL_TRACE (log_line sample_logger ''TRACE : ''
           (trace_text (map (\<lambda>a. ''main at file_serv.c:29'')
              (tl (take max_backtrace_size [1, 2, 3 :: 64 word]))))))\<lparr>lg_errno := 0\<rparr>, 0)"
proof (rule writeStackTrace_logs [OF sample_free])
  show "answers sample_env ''/bin/serv'' (\<lambda>a. ''main at file_serv.c:29'') (take max_backtrace_size [1, 2, 3])"
    by (rule sample_answers)
  show "bt_has_tool sample_env" "bt_self sample_env = Some ''/bin/serv''"
    by (simp_all add: sample_env_def)
qed (simp_all add: no_nul_def known_def max_backtrace_size_def max_message_size_def trace_text_def)

text \<open>When the lines do not fit, the message ends before the first that does not, and says
  nothing of it: the notice of the truncation is put where the terminating zero goes.\<close>

lemma trace_notice_lost:
  assumes "length junk = max_message_size" and "list_all no_nul xs"
    and "length (trace_head @ separated xs) < max_message_size"
    and "max_message_size + length trace_head < length (trace_head @ separated xs) + length y"
  shows "trace_message junk (f # xs @ y # ys) = Inr (trace_head @ separated xs)"
proof -
  let ?t = "trace_head @ separated xs"
  obtain r where r: "length (?t @ r) = max_message_size"
    and eq: "trace_message junk (f # xs @ y # ys) = rbind (trace_loop (y # ys) (?t @ r) (length ?t)) trace_finish"
    using trace_message_prefix [OF assms(1), of "y # ys" xs f] assms(3) by auto
  have nul: "no_nul ?t"
    using assms(2) no_nul_separated by simp
  have big: "length ?t + length y - length trace_head > max_message_size"
    using assms(4) by linarith
  show ?thesis
  proof (cases "length ?t + 22 < max_message_size")
    case True
    have len: "length truncation_notice = 22"
      by (simp add: truncation_notice_def)
    have "strncpy (?t @ r) (length ?t) truncation_notice 22 = Inr (?t @ truncation_notice @ drop 22 r)"
      using r True strncpy_tail [of truncation_notice r ?t] unfolding len by simp
    moreover have "trace_finish (?t @ truncation_notice @ drop 22 r, length ?t) = Inr ?t"
      using True r len by (intro trace_end [OF nul]) simp_all
    ultimately show ?thesis
      unfolding eq using big True by (simp del: append_assoc)
  next
    case False
    then show ?thesis
      unfolding eq using big trace_end [OF nul r assms(3)] by (simp del: append_assoc)
  qed
qed

text \<open>The check for the end of the block forgets the 76 characters the message begins
  with: a line that ends up to 76 characters past the end is copied.\<close>

lemma trace_overflow:
  assumes "length junk = max_message_size"
    and "length (trace_head @ separated xs) \<le> max_message_size"
    and "max_message_size < length (trace_head @ separated xs) + length y"
    and "length (trace_head @ separated xs) + length y \<le> max_message_size + length trace_head"
  shows "trace_message junk (f # xs @ y # ys) = Inl OutOfBounds"
proof -
  let ?t = "trace_head @ separated xs"
  obtain r where r: "length (?t @ r) = max_message_size"
    and eq: "trace_message junk (f # xs @ y # ys) = rbind (trace_loop (y # ys) (?t @ r) (length ?t)) trace_finish"
    using trace_message_prefix [OF assms(1) _ assms(2), of "y # ys" f] by auto
  have "strncpy (?t @ r) (length ?t) y (length y) = Inl OutOfBounds"
    using r assms(3) by (simp add: strncpy_def put_def)
  moreover have "\<not> length ?t + length y - length trace_head > max_message_size"
    using assms(4) by linarith
  ultimately show ?thesis
    unfolding eq by (simp del: append_assoc)
qed

text \<open>If the link to the executable cannot be read, no stack trace is written: a zero is
  put before the buffer of its path.\<close>

lemma writeStackTrace_no_path_faults:
  assumes "free_to_log s" and "\<not> bt_apple E" and "bt_has_tool E" and "bt_self E = None"
  shows "writeStackTrace E junk frames s = Inl OutOfBounds"
proof -
  obtain t where "writeLog SIMPLOG_LOGGER
      ''Unable to get execution path. Defaulting to standard backtrace.'' [] s = Inr t"
    using writeLog_notice [OF assms(1), of "''Unable to get execution path. Defaulting to standard backtrace.''" "[]"]
    by auto
  then show ?thesis
    using assms(2-4) by (simp add: writeStackTrace_def getPrettyBacktrace_def pretty_setup_def path_length_def)
qed

end
