(* ===== verification/Simplog.thy ===== *)
theory Simplog
  imports StackTrace
begin

text \<open>
  The interface of the logger, \<open>simplog_namespace\<close> in \<^verbatim>\<open>c/simplog.h\<close>: the eight operations
  the programs can reach, as one function of a call, and what every history of calls keeps.
\<close>

section \<open>The interface\<close>

datatype simplog_call =
    WriteLog int string "farg list"
  | WriteStackTrace bt_env "char list" "64 word list"
  | SetLogDebugLevel int
  | SetLogFile string
  | SetLogSilentMode bool
  | SetLineWrap bool
  | FlushLog
  | LoadConfig string

text \<open>A stack trace depends on what the machine answers and finds on the stack.\<close>

fun simplog :: "simplog_call \<Rightarrow> logger \<Rightarrow> logger result" where
  "simplog (WriteLog loglvl str args) s = writeLog loglvl str args s"
| "simplog (WriteStackTrace E junk frames) s = rbind (writeStackTrace E junk frames s) (\<lambda>(s, pipes). Inr s)"
| "simplog (SetLogDebugLevel level) s = setLogDebugLevel level s"
| "simplog (SetLogFile name) s = setLogFile name s"
| "simplog (SetLogSilentMode silent) s = setLogSilentMode silent s"
| "simplog (SetLineWrap wrap) s = setLineWrap wrap s"
| "simplog FlushLog s = flushLog s"
| "simplog (LoadConfig config) s = loadConfig config s"

text \<open>A step is any call, with whatever comes of it: a call that faults ends the run in its fault.
  Between two calls the program changes \<open>errno\<close>, other programs change files, and time
  passes.\<close>

inductive logger_step :: "logger result \<Rightarrow> logger result \<Rightarrow> bool" where
  call: "logger_step (Inr s) (simplog c s)"
| elsewhere: "logger_step (Inr s) (Inr (s\<lparr>lg_errno := e, lg_files := fs, lg_time := tm\<rparr>))"

inductive_cases logger_stepE: "logger_step (Inr s) r"

text \<open>What a state keeps so long as no call has faulted.\<close>

fun kept_settings :: "logger result \<Rightarrow> bool" where
  "kept_settings (Inr s) \<longleftrightarrow> settings_ok s"
| "kept_settings (Inl e) \<longleftrightarrow> True"

section \<open>What every call keeps\<close>

lemma pretty_setup_ok:
  "settings_ok s \<Longrightarrow> pretty_setup E s = Inr (path, t) \<Longrightarrow> settings_ok t"
  by (auto simp: pretty_setup_def rbind_eq_Inr intro: writeLog_ok split: if_splits)

lemma pretty_loop_ok:
  "settings_ok s \<Longrightarrow> pretty_loop E exe_path as strings good s = Inr (r, t, pipes) \<Longrightarrow> settings_ok t"
proof (induction as arbitrary: strings good)
  case (Cons a as)
  then obtain cmd where cmd: "command_string E exe_path a = Inr cmd"
    by (auto simp: rbind_eq_Inr)
  show ?case
  proof (cases "case bt_popen E cmd of None \<Rightarrow> None | Some output \<Rightarrow> fgets 255 output")
    case None
    then show ?thesis
      using Cons.prems cmd by (cases "bt_popen E cmd") (auto simp: rbind_eq_Inr intro: writeLog_ok)
  next
    case (Some line)
    then obtain out where "bt_popen E cmd = Some out" "fgets 255 out = Some line"
      by (cases "bt_popen E cmd") auto
    then show ?thesis
      using Cons.prems cmd Cons.IH by (auto simp: rbind_eq_Inr)
  qed
qed simp

lemma getPrettyBacktrace_ok:
  assumes "settings_ok s" and "getPrettyBacktrace E addresses s = Inr (r, t, pipes)"
  shows "settings_ok t"
proof -
  obtain path u where u: "pretty_setup E s = Inr (path, u)"
    using assms(2) by (auto simp: getPrettyBacktrace_def rbind_eq_Inr)
  then have "settings_ok u"
    using pretty_setup_ok assms(1) by blast
  show ?thesis
  proof (cases path)
    case None
    then show ?thesis
      using assms(2) u \<open>settings_ok u\<close> by (simp add: getPrettyBacktrace_def)
  next
    case (Some exe_path)
    then obtain x v n where v: "pretty_loop E exe_path addresses [] False u = Inr (x, v, n)"
      using assms(2) u by (auto simp: getPrettyBacktrace_def rbind_eq_Inr)
    then have "settings_ok v"
      using pretty_loop_ok \<open>settings_ok u\<close> by blast
    then show ?thesis
      using assms(2) u v Some
      by (cases x) (auto simp: getPrettyBacktrace_def rbind_eq_Inr intro: writeLog_ok split: if_splits)
  qed
qed

lemma writeStackTrace_ok:
  assumes "settings_ok s" and "writeStackTrace E junk frames s = Inr (t, pipes)"
  shows "settings_ok t"
proof -
  obtain r u where u: "getPrettyBacktrace E (take max_backtrace_size frames) s = Inr (r, u, pipes)"
    and t: "\<exists>m. writeLog SIMPLOG_TRACE ''%s'' [FStr m] (u\<lparr>lg_errno := 0\<rparr>) = Inr t"
    using assms(2) by (auto simp: writeStackTrace_def rbind_eq_Inr Let_def)
  have "settings_ok (u\<lparr>lg_errno := 0\<rparr>)"
    using getPrettyBacktrace_ok [OF assms(1) u] by (simp add: settings_ok_def)
  then show ?thesis
    using t writeLog_ok by blast
qed

lemma simplog_ok: "settings_ok s \<Longrightarrow> simplog c s = Inr t \<Longrightarrow> settings_ok t"
  by (cases c) (auto simp: rbind_eq_Inr intro: writeLog_ok writeStackTrace_ok setLogDebugLevel_ok setLogFile_ok
      setLogSilentMode_ok setLineWrap_ok flushLog_ok loadConfig_ok)

lemma logger_start_ok: "settings_ok (logger_start fs denied kept t)"
  by (simp add: logger_start_def settings_ok_def)

lemma logger_step_kept: "logger_step r r' \<Longrightarrow> kept_settings r \<Longrightarrow> kept_settings r'"
proof (induction rule: logger_step.induct)
  case (call s c)
  then show ?case
    by (cases "simplog c s") (auto intro: simplog_ok)
qed (auto intro: settings_ok_elsewhere)

interpretation logging: transition_system
    "\<lambda>r. \<exists>fs denied kept t. r = Inr (logger_start fs denied kept t)" logger_step kept_settings
  by unfold_locales (auto intro: logger_start_ok logger_step_kept)

lemma simplog_run_ok: "logger_step\<^sup>*\<^sup>* (Inr (logger_start fs denied kept t)) (Inr s) \<Longrightarrow> settings_ok s"
  using logging.reach_inv [of "Inr (logger_start fs denied kept t)" "Inr s"] by auto

section \<open>Properties\<close>

text \<open>C29. Whatever is done through the logger's interface, in any order and with any
  arguments, the log file's name stays a string in its buffer and the debug level one of
  the four, as long as no call faults; and a call of \<open>setLogFile\<close> faults, its copy leaving the
  buffer, for every name of 255 characters or more, which nothing checks, and its copy stays in
  the buffer for all shorter ones.\<close>

theorem logger_settings_invariant:
  assumes "logger_step\<^sup>*\<^sup>* (Inr (logger_start fs denied kept t)) (Inr s)" and "no_nul name"
  shows "settings_ok s
    \<and> (set_logFile name s = Inl OutOfBounds \<longleftrightarrow> 255 \<le> length name)
    \<and> (length name < 255 \<or> simplog (SetLogFile name) s = Inl OutOfBounds)"
proof -
  have "settings_ok s"
    by (rule simplog_run_ok [OF assms(1)])
  then show ?thesis
    using set_logFile_faults_iff [OF _ assms(2)] setLogFile_overflows [OF _ assms(2)]
    by (cases "length name < 255") simp_all
qed

theorem logger_settings_invariant_witness:
  "settings_ok (logged sample_logger COL_DEBUG (log_line sample_logger ''DEBUG : '' ''done.''))
   \<and> simplog (SetLogFile (replicate 300 CHR ''x''))
       (logged sample_logger COL_DEBUG (log_line sample_logger ''DEBUG : '' ''done.'')) = Inl OutOfBounds"
proof -
  let ?s = "logged sample_logger COL_DEBUG (log_line sample_logger ''DEBUG : '' ''done.'')"
  have "writeLog SIMPLOG_DEBUG ''done.'' [] sample_logger = Inr ?s"
    by (subst writeLog_level [where body = "''done.''"]) (simp_all add: sample_date level_name_def)
  then have "logger_step (Inr sample_logger) (Inr ?s)"
    using logger_step.call [of sample_logger "WriteLog SIMPLOG_DEBUG ''done.'' []"] by simp
  then have "logger_step\<^sup>*\<^sup>* (Inr (logger_start (\<lambda>p. None) (\<lambda>p. False) (\<lambda>p. False) sample_time)) (Inr ?s)"
    unfolding sample_logger_def by (rule r_into_rtranclp)
  then show ?thesis
    using logger_settings_invariant [of _ _ _ _ ?s "replicate 300 CHR ''x''"] by auto
qed

end
