(* ===== verification/Inet.thy ===== *)
theory Inet
  imports Decimal
begin

text \<open>
  The addresses the programs bind and connect to: \<open>htons\<close> and \<open>inet_aton\<close> of the C
  library, and the \<open>struct sockaddr_in\<close> the two \<open>main\<close> functions fill in. A value in
  network order is the list of its bytes.
\<close>

section \<open>Numbers of any base\<close>

definition digit_of :: "char \<Rightarrow> nat" where
  "digit_of c =
     (let n = of_char c
      in if 48 \<le> n \<and> n \<le> 57 then n - 48
         else if 65 \<le> n \<and> n \<le> 70 then n - 55
         else if 97 \<le> n \<and> n \<le> 102 then n - 87
         else 16)"

fun radix :: "nat \<Rightarrow> nat \<Rightarrow> string \<Rightarrow> nat \<times> string" where
  "radix b v [] = (v, [])"
| "radix b v (c # cs) = (if digit_of c < b then radix b (b * v + digit_of c) cs else (v, c # cs))"

text \<open>\<open>strtoul\<close> with base 0, on a string that begins with a digit; \<open>0x\<close> counts only before
  a digit.\<close>

definition strtoul0 :: "string \<Rightarrow> nat \<times> string" where
  "strtoul0 s =
     (case s of
        c # x # d # cs \<Rightarrow>
          if c = CHR ''0'' \<and> (x = CHR ''x'' \<or> x = CHR ''X'') \<and> digit_of d < 16 then radix 16 0 (d # cs)
          else if c = CHR ''0'' then radix 8 0 s
          else radix 10 0 s
      | c # cs \<Rightarrow> if c = CHR ''0'' then radix 8 0 s else radix 10 0 s
      | [] \<Rightarrow> (0, []))"

lemma radix_length: "length (snd (radix b v s)) \<le> length s"
  by (induction b v s rule: radix.induct) (simp_all add: le_SucI)

lemma strtoul0_length: "length (snd (strtoul0 s)) \<le> length s"
  using radix_length [of 16 0 "drop 2 s"] radix_length [of 8 0 s] radix_length [of 10 0 s]
  by (auto simp: strtoul0_def split: list.splits simp del: radix.simps)

section \<open>Addresses\<close>

definition be_bytes :: "nat \<Rightarrow> nat \<Rightarrow> char list" where
  "be_bytes k v = rev (le_bytes k v)"

definition htons :: "16 word \<Rightarrow> char list" where
  "htons p = be_bytes 2 (unat p)"

text \<open>One to four numbers with dots between them; the last fills the bytes that are left.\<close>

function inet_parts :: "char list \<Rightarrow> string \<Rightarrow> char list option" where
  "inet_parts parts s =
     (if s = [] \<or> \<not> is_digit (hd s) then None
      else
        let v = fst (strtoul0 s); r = snd (strtoul0 s)
        in if v \<ge> 2 ^ 32 then None
           else if r \<noteq> [] \<and> hd r = CHR ''.'' then
             (if 2 < length parts \<or> 255 < v then None else inet_parts (parts @ [char_of v]) (tl r))
           else if r \<noteq> [] \<and> \<not> is_space (hd r) then None
           else if 256 ^ (4 - length parts) \<le> v then None
           else Some (parts @ be_bytes (4 - length parts) v))"
  by pat_completeness auto
termination
proof (relation "measure (\<lambda>(parts, s). length s)")
  fix parts s v r
  assume "\<not> (s = [] \<or> \<not> is_digit (hd s))" and r: "r = snd (strtoul0 s)" "r \<noteq> [] \<and> hd r = CHR ''.''"
  then have "length (tl r) < length r"
    by (cases r) simp_all
  also have "\<dots> \<le> length s"
    using strtoul0_length r by blast
  finally show "((parts @ [char_of v], tl r), parts, s) \<in> measure (\<lambda>(parts, s). length s)"
    by simp
qed simp

declare inet_parts.simps [simp del]

definition inet_aton :: "string \<Rightarrow> char list option" where
  "inet_aton cp = inet_parts [] cp"

definition AF_INET :: nat where
  "AF_INET = 2"

record sockaddr_in =
  sin_family :: nat
  sin_port :: "char list"
  sin_addr :: "char list"

section \<open>Dotted decimals\<close>

definition dotted :: "nat \<Rightarrow> nat \<Rightarrow> nat \<Rightarrow> nat \<Rightarrow> string" where
  "dotted a b c d = show_nat a @ ''.'' @ show_nat b @ ''.'' @ show_nat c @ ''.'' @ show_nat d"

lemma digit_of_digit: "is_digit c \<Longrightarrow> digit_of c = digit_value c \<and> digit_of c < 10"
  by (auto simp: is_digit_def digit_of_def digit_value_def Let_def)

lemma radix_digits:
  "list_all is_digit s \<Longrightarrow> r = [] \<or> 10 \<le> digit_of (hd r) \<Longrightarrow>
     radix 10 v (s @ r) = (digits_value v s, r)"
proof (induction s arbitrary: v)
  case Nil
  then show ?case by (cases r) simp_all
next
  case (Cons c s)
  then show ?case
    using digit_of_digit [of c] by simp
qed

lemma show_nat_head: "0 < n \<Longrightarrow> hd (show_nat n) \<noteq> CHR ''0''"
proof (induction n rule: less_induct)
  case (less n)
  show ?case
  proof (cases "n < 10")
    case True
    then have "digit_value (char_of (48 + n)) = n" and "show_nat n = [char_of (48 + n)]"
      by (simp_all add: digit_char show_nat_rec [of n])
    moreover have "digit_value CHR ''0'' = 0"
      by (simp add: digit_value_def)
    ultimately show ?thesis
      using less.prems by auto
  next
    case False
    then have "hd (show_nat (n div 10)) \<noteq> CHR ''0''"
      by (intro less.IH) simp_all
    with False show ?thesis
      by (subst show_nat_rec) simp
  qed
qed

lemma strtoul0_nat:
  assumes "r = [] \<or> hd r = CHR ''.''"
  shows "strtoul0 (show_nat n @ r) = (n, r)"
proof (cases "n = 0")
  case True
  have "show_nat 0 = ''0''"
    by code_simp
  then show ?thesis
    using True assms by (cases r) (auto simp: strtoul0_def digit_of_def split: list.splits)
next
  case False
  obtain c cs where s: "show_nat n = c # cs" "c \<noteq> CHR ''0''"
    using show_nat_head [of n] False by (cases "show_nat n") auto
  then have "strtoul0 (show_nat n @ r) = radix 10 0 (show_nat n @ r)"
    by (simp add: strtoul0_def split: list.splits)
  moreover have "r = [] \<or> 10 \<le> digit_of (hd r)"
    using assms by (auto simp: digit_of_def)
  ultimately show ?thesis
    using radix_digits [OF show_nat_digits, of r 0 n] digits_value_show_nat by simp
qed

lemma inet_parts_dot:
  assumes "n < 256" and "length parts \<le> 2"
  shows "inet_parts parts (show_nat n @ CHR ''.'' # r) = inet_parts (parts @ [char_of n]) r"
proof -
  have "is_digit (hd (show_nat n @ CHR ''.'' # r))"
    using show_nat_digits [of n] by (cases "show_nat n") simp_all
  then show ?thesis
    using assms strtoul0_nat [of "CHR ''.'' # r" n]
    by (subst inet_parts.simps) (simp add: Let_def)
qed

lemma inet_parts_last:
  assumes "n < 256 ^ (4 - length parts)"
  shows "inet_parts parts (show_nat n) = Some (parts @ be_bytes (4 - length parts) n)"
proof -
  have "is_digit (hd (show_nat n))"
    using show_nat_digits [of n] by (cases "show_nat n") simp_all
  moreover have "(256::nat) ^ (4 - length parts) \<le> 256 ^ 4"
    by (rule power_increasing) simp_all
  then have "n < 2 ^ 32"
    using assms by simp
  ultimately show ?thesis
    using assms strtoul0_nat [of "[]" n]
    by (subst inet_parts.simps) (simp add: Let_def)
qed

lemma inet_aton_dotted:
  assumes "a < 256" and "b < 256" and "c < 256" and "d < 256"
  shows "inet_aton (dotted a b c d) = Some (map char_of [a, b, c, d])"
  using assms by (simp add: inet_aton_def dotted_def inet_parts_dot inet_parts_last be_bytes_def)

lemma inet_aton_name: "h = [] \<or> \<not> is_digit (hd h) \<Longrightarrow> inet_aton h = None"
  unfolding inet_aton_def by (subst inet_parts.simps) auto

end
