(* ===== verification/Programs.thy ===== *)
theory Programs
  imports Server Client LogConfig Inet
begin

text \<open>
  The \<open>main\<close> functions of \<^verbatim>\<open>c/file_serv.c\<close> and \<^verbatim>\<open>c/file_client.c\<close>: the logger, the
  command line and the address put together, up to the event loop. Whether libevent can
  make its base, bind, connect and add the signal event is a parameter. The result is the
  value \<open>main\<close> returns, the logger, and what the loop was started on, or none where it
  was not started; what the loop then does is the subject of the session theories.
\<close>

section \<open>The programs\<close>

record net_env =
  nv_base :: bool
  nv_bind :: "sockaddr_in \<Rightarrow> bool"
  nv_signal :: bool
  nv_add :: bool
  nv_connect :: "sockaddr_in \<Rightarrow> bool"

text \<open>The address is zeroed, and what \<open>inet_aton\<close> cannot read is left zero.\<close>

definition para_address :: "parameter \<Rightarrow> sockaddr_in result" where
  "para_address para =
     rbind (read_str (host para)) (\<lambda>h.
       Inr \<lparr>sin_family = AF_INET, sin_port = htons (port para),
            sin_addr = (case inet_aton h of None \<Rightarrow> replicate 4 NUL | Some b \<Rightarrow> b)\<rparr>)"

definition server_main ::
  "net_env \<Rightarrow> string list \<Rightarrow> logger \<Rightarrow> (int \<times> logger \<times> sockaddr_in option) result" where
  "server_main N argv s =
     rbind (loadConfig ''log_config.conf'' s) (\<lambda>s.
     rbind (setLogFile ''server.log'' s) (\<lambda>s.
     rbind (parse_commandline zero_parameter argv) (\<lambda>(para, ret).
       if ret \<noteq> 0 then rbind (writeLog SIMPLOG_FATAL ''configure ERROR!'' [] s) (\<lambda>s. Inr (1, s, None))
       else if \<not> nv_base N then Inl AssertFailed
       else rbind (para_address para) (\<lambda>myAddr.
              if \<not> nv_bind N myAddr then Inl AssertFailed
              else if \<not> (nv_signal N \<and> nv_add N) then Inl AssertFailed
              else Inr (0, s, Some myAddr)))))"

text \<open>The two debug messages of the client are in Chinese, in UTF-8.\<close>

definition set_read_event_msg :: string where
  "set_read_event_msg = [CHR 0xE8, CHR 0xAE, CHR 0xBE, CHR 0xE7, CHR 0xBD, CHR 0xAE, CHR 0xE8, CHR 0xAF, CHR 0xBB,
      CHR 0xE4, CHR 0xBA, CHR 0x8B, CHR 0xE4, CHR 0xBB, CHR 0xB6] @ ''...''"

definition start_loop_msg :: string where
  "start_loop_msg = [CHR 0xE5, CHR 0xBC, CHR 0x80, CHR 0xE5, CHR 0x90, CHR 0xAF, CHR 0xE4, CHR 0xBA, CHR 0x8B,
      CHR 0xE4, CHR 0xBB, CHR 0xB6, CHR 0xE5, CHR 0xBE, CHR 0xAA, CHR 0xE7, CHR 0x8E, CHR 0xAF]
     @ ''...''"

text \<open>Without memory for the bufferevent its null pointer is passed on.\<close>

definition client_main ::
  "('e, 'b) libevent \<Rightarrow> net_env \<Rightarrow> string list \<Rightarrow> logger
     \<Rightarrow> (int \<times> logger \<times> (sockaddr_in \<times> parameter \<times> 'b) option) result" where
  "client_main L N argv s =
     rbind (parse_commandline zero_parameter argv) (\<lambda>(para, ret).
       if ret \<noteq> 0 then rbind (writeLog SIMPLOG_FATAL ''parameter ERROR!'' [] s) (\<lambda>s. Inr (1, s, None))
       else if \<not> nv_base N then Inl AssertFailed
       else rbind (para_address para) (\<lambda>sAddr.
         case bev_socket_new L (- 1) of
           None \<Rightarrow> Inl NullPointer
         | Some bev \<Rightarrow>
             if \<not> nv_connect N sAddr then Inr (1, err (''Connection Refused.'' @ [NL]) s, None)
             else rbind (writeLog SIMPLOG_DEBUG set_read_event_msg [] s) (\<lambda>s.
                    let bev = cli_setup L bev
                    in rbind (writeLog SIMPLOG_DEBUG start_loop_msg [] s) (\<lambda>s.
                         Inr (0, s, Some (sAddr, para, bev))))))"

section \<open>An error number stays\<close>

text \<open>No operation of the logger but an unsuccessful \<open>loadConfig\<close> clears \<open>errno\<close>.\<close>

lemma open_log_errno: "open_log path s = (opened, t) \<Longrightarrow> lg_errno s \<noteq> 0 \<Longrightarrow> lg_errno t \<noteq> 0"
  by (auto simp: open_log_def EACCES_def split: if_splits)

lemma emit_errno: "emit l opened path date va n s = Inr t \<Longrightarrow> lg_errno s \<noteq> 0 \<Longrightarrow> lg_errno t \<noteq> 0"
  by (auto simp: emit_def rbind_eq_Inr Let_def err_def out_def write_log_def EBADF_def
      split: if_splits option.splits)

lemma writeLog_once_errno:
  assumes "writeLog_once l str args s = Inr (t, n, m)" and "lg_errno s \<noteq> 0"
  shows "lg_errno t \<noteq> 0"
proof -
  obtain body path where b: "vformat str args = Inr body" and p: "read_str (logFile s) = Inr path"
    using assms by (auto simp: writeLog_once_def rbind_eq_Inr)
  obtain opened s1 where o: "open_log path s = (opened, s1)"
    by fastforce
  obtain u k va where "emit l opened path (getDateString (lg_time s1)) va k s1 = Inr u"
      and "t = close_log opened (err COL_NORM (out COL_NORM u))"
    using assms unfolding writeLog_once_def b p rbind.simps o Let_def prod.case by (auto simp: rbind_eq_Inr)
  then show ?thesis
    using emit_errno open_log_errno [OF o assms(2)] by (auto simp: err_def out_def close_log_def EBADF_def)
qed

lemma writeLog_errno: "writeLog l str args s = Inr t \<Longrightarrow> lg_errno s \<noteq> 0 \<Longrightarrow> lg_errno t \<noteq> 0"
  by (auto simp: writeLog_def rbind_eq_Inr split: if_splits dest!: writeLog_once_errno)

lemma clear_log_errno: "clear_log path s = Inr t \<Longrightarrow> lg_errno s \<noteq> 0 \<Longrightarrow> lg_errno t \<noteq> 0"
  by (auto simp: clear_log_def close_log_def rbind_eq_Inr Let_def out_def open_log_def ENOENT_def EBADF_def EACCES_def
      split: if_splits)

lemma set_logFile_errno: "set_logFile name s = Inr t \<Longrightarrow> lg_errno t = lg_errno s"
  by (auto simp: set_logFile_def rbind_eq_Inr)

lemma setLogFile_errno: "setLogFile name s = Inr t \<Longrightarrow> lg_errno s \<noteq> 0 \<Longrightarrow> lg_errno t \<noteq> 0"
  by (auto simp: setLogFile_def rbind_eq_Inr dest!: set_logFile_errno writeLog_errno)

lemma flushLog_errno: "flushLog s = Inr t \<Longrightarrow> lg_errno s \<noteq> 0 \<Longrightarrow> lg_errno t \<noteq> 0"
  by (auto simp: flushLog_def rbind_eq_Inr dest!: clear_log_errno writeLog_errno)

lemma setLogDebugLevel_errno: "setLogDebugLevel level s = Inr t \<Longrightarrow> lg_errno s \<noteq> 0 \<Longrightarrow> lg_errno t \<noteq> 0"
  by (auto simp: setLogDebugLevel_def rbind_eq_Inr Let_def dest!: writeLog_errno split: if_splits)

lemma apply_settings_errno:
  assumes "apply_settings c s = Inr t" and "lg_errno s \<noteq> 0"
  shows "lg_errno t \<noteq> 0"
proof -
  obtain name s1 s2 s3 s4 where
      s1: "(if silentSetting c then set_logFile name s else setLogFile name s) = Inr s1"
    and s2: "(if flushSetting c then flushLog s1 else Inr s1) = Inr s2"
    and s3: "setLogSilentMode (silentSetting c) s2 = Inr s3"
    and s4: "setLineWrap (lineWrapSetting c) s3 = Inr s4"
    and t: "setLogDebugLevel (debugLevelSetting c) s4 = Inr t"
    using assms(1) unfolding apply_settings_def rbind_eq_Inr by (elim exE conjE) (rule that)
  have "lg_errno s1 \<noteq> 0"
    using s1 assms(2) set_logFile_errno setLogFile_errno by (fastforce split: if_splits)
  then have "lg_errno s2 \<noteq> 0"
    using s2 flushLog_errno by (auto split: if_splits)
  then have "lg_errno s3 \<noteq> 0"
    using s3 writeLog_errno by (fastforce simp: setLogSilentMode_def)
  then have "lg_errno s4 \<noteq> 0"
    using s4 writeLog_errno by (fastforce simp: setLineWrap_def)
  then show ?thesis
    using t setLogDebugLevel_errno by blast
qed

lemma loadConfig_errno:
  assumes "loadConfig config s = Inr t" and "lg_files s config = Some bs" and "\<not> lg_denied s config" and "bs \<noteq> []"
  shows "lg_errno t \<noteq> 0"
proof -
  obtain c where "load_from c bs (s\<lparr>lg_errno := EBADF\<rparr>) = Inr t"
    using assms unfolding loadConfig_def rbind_eq_Inr Let_def by auto
  then obtain c' where "apply_settings c' (s\<lparr>lg_errno := EBADF\<rparr>) = Inr t"
    by (auto simp: load_from_def rbind_eq_Inr)
  then show ?thesis
    using apply_settings_errno by (fastforce simp: EBADF_def)
qed

lemma failed_rbind: "failed (rbind m (\<lambda>x. Inl e))"
  by (cases m) simp_all

lemma emit_errno_fails:
  assumes "l < SIMPLOG_INFO" and "lg_errno s \<noteq> 0"
  shows "failed (emit l opened path date va n s)"
  using assms by (auto simp: emit_def append_errno_cases failed_rbind split: option.splits)

lemma writeLog_errno_fails:
  assumes "l < SIMPLOG_INFO" and "lg_errno s \<noteq> 0"
  shows "failed (writeLog l str args s)"
proof (rule ccontr)
  assume "\<not> failed (writeLog l str args s)"
  then obtain t n m where once: "writeLog_once l str args s = Inr (t, n, m)"
    by (fastforce simp: not_failed_iff writeLog_def rbind_eq_Inr)
  then obtain body path where b: "vformat str args = Inr body" and p: "read_str (logFile s) = Inr path"
    by (auto simp: writeLog_once_def rbind_eq_Inr)
  obtain opened s1 where o: "open_log path s = (opened, s1)"
    by fastforce
  obtain u k va where "emit l opened path (getDateString (lg_time s1)) va k s1 = Inr u"
    using once unfolding writeLog_once_def b p rbind.simps o Let_def prod.case by (auto simp: rbind_eq_Inr)
  then show False
    using emit_errno_fails [OF assms(1) open_log_errno [OF o assms(2)]] by (metis failed.simps(2))
qed

section \<open>The command line of a server\<close>

lemma parse_host_port:
  assumes "no_nul h" and "h \<noteq> []" and "length h < 50" and "n < 65536"
  shows "\<exists>p. parse_commandline zero_parameter [prog, ''-h'' @ h, ''-p'' @ show_nat n] = Inr (p, 0)
    \<and> read_str (host p) = Inr h \<and> unat (port p) = n"
proof -
  have res: "getopt_results (tl [prog, ''-h'' @ h, ''-p'' @ show_nat n])
      = [Opt CHR ''h'' (Some h), Opt CHR ''p'' (Some (show_nat n))]"
    using assms(2) by (cases h; cases "show_nat n") (simp_all add: optional_arg_def)
  obtain b where b: "strcpy (host zero_parameter) 0 HOST = Inr b" "length b = 50"
    using ok_start [OF zero_parameter_ok] by (auto simp: ok_state_def wf_parameter_def)
  obtain b' where b': "snprintf_s b 50 h = Inr b'" "NUL \<in> set b'" "cstr b' = take 49 h"
    using snprintf_string [OF b(2) _ assms(1)] by auto
  have "unat (ucast (atoi (show_nat n)) :: 16 word) = n"
    using assms(4) by (simp add: atoi_show_nat unsigned_ucast_eq unsigned_of_nat take_bit_eq_mod)
  then show ?thesis
    using res b(1) b' assms(3) by (simp add: parse_commandline_def read_str_def)
qed

lemma length_show_byte: "n < 256 \<Longrightarrow> length (show_nat n) \<le> 3"
  by (subst show_nat_rec, subst show_nat_rec, subst show_nat_rec) simp

lemma dotted_string:
  assumes "a < 256" and "b < 256" and "c < 256" and "d < 256"
  shows "no_nul (dotted a b c d)" and "dotted a b c d \<noteq> []" and "length (dotted a b c d) < 50"
  using assms [THEN length_show_byte] by (simp_all add: dotted_def)

text \<open>The logger the server starts with: the settings of the file, but for the log file.\<close>

lemma server_logger:
  assumes "free_to_log s" and "n \<le> 3" and "plain name" and "length name < 255"
    and "lg_files s ''log_config.conf'' = Some (config_text (all_settings silent wrap flush n name))"
  shows "\<exists>t. rbind (loadConfig ''log_config.conf'' s) (setLogFile ''server.log'') = Inr t
    \<and> log_path t = ''server.log'' \<and> silentMode t = silent \<and> lineWrap t = wrap \<and> dbgLevel t = int n"
proof -
  obtain u where u: "loadConfig ''log_config.conf'' s = Inr u" "silentMode u = silent" "lineWrap u = wrap"
      "dbgLevel u = int n" "free_to_log u"
    using loadConfig_settings [OF assms] by blast
  have "no_nul ''server.log''"
    by simp
  then obtain t where "setLogFile ''server.log'' u = Inr t"
      "same_settings t (u\<lparr>logFile := ''server.log'' @ replicate (255 - length ''server.log'') NUL\<rparr>)"
    using setLogFile_free [OF u(5), of "''server.log''"] by auto
  then show ?thesis
    using u cstr_append_zeros [OF \<open>no_nul ''server.log''\<close>] by (simp add: same_settings_def log_path_def)
qed

lemma server_main_start:
  assumes "rbind (loadConfig ''log_config.conf'' s) (setLogFile ''server.log'') = Inr t"
    and "parse_commandline zero_parameter argv = Inr (p, 0)" and "read_str (host p) = Inr h"
    and "nv_base N" and "nv_bind N \<lparr>sin_family = AF_INET, sin_port = htons (port p),
       sin_addr = (case inet_aton h of None \<Rightarrow> replicate 4 NUL | Some b \<Rightarrow> b)\<rparr>" and "nv_signal N" and "nv_add N"
  shows "server_main N argv s = Inr (0, t, Some \<lparr>sin_family = AF_INET, sin_port = htons (port p),
       sin_addr = (case inet_aton h of None \<Rightarrow> replicate 4 NUL | Some b \<Rightarrow> b)\<rparr>)"
  using assms by (auto simp: server_main_def para_address_def rbind_eq_Inr)

text \<open>A short message, on a day of the years 1000 to 9999, always goes through.\<close>

lemma writeLog_short:
  assumes "free_to_log s" and "length (getDateString (lg_time s)) = 21" and "SIMPLOG_INFO \<le> l"
    and "vformat str [] = Inr body" and "length body \<le> 40"
  shows "\<exists>t. writeLog l str [] s = Inr t \<and> free_to_log t \<and> lg_time t = lg_time s"
proof -
  have ok: "settings_ok s" and free: "\<not> lg_denied s (log_path s)"
    using assms(1) by (simp_all add: free_to_log_def)
  let ?t = "case level_name l (dbgLevel s) of None \<Rightarrow> not_logged s
     | Some (col, name, wrap) \<Rightarrow> logged s col (log_line s name body)"
  have w: "writeLog l str [] s = Inr ?t"
    using assms(2-5) by (intro writeLog_level [OF ok free]) simp_all
  moreover have "lg_denied ?t = lg_denied s" "lg_kept ?t = lg_kept s" "lg_time ?t = lg_time s"
    by (auto simp: not_logged_simps split: option.splits)
      (simp add: not_logged_def err_def out_def)
  ultimately show ?thesis
    using assms(1) writeLog_ok [OF ok w] by (auto simp: free_to_log_def)
qed

lemma client_messages:
  "vformat set_read_event_msg [] = Inr set_read_event_msg" "length set_read_event_msg \<le> 40"
  "vformat start_loop_msg [] = Inr start_loop_msg" "length start_loop_msg \<le> 40"
  by (simp_all add: set_read_event_msg_def start_loop_msg_def)

lemma client_logs:
  assumes "free_to_log s" and "length (getDateString (lg_time s)) = 21"
  shows "\<exists>t u. writeLog SIMPLOG_DEBUG set_read_event_msg [] s = Inr t
    \<and> writeLog SIMPLOG_DEBUG start_loop_msg [] t = Inr u"
  using writeLog_short [OF assms _ client_messages(1,2), of SIMPLOG_DEBUG]
    writeLog_short [OF _ _ _ client_messages(3,4), of _ SIMPLOG_DEBUG] assms(2) by fastforce

section \<open>Properties\<close>

definition can_serve :: "net_env \<Rightarrow> bool" where
  "can_serve N \<longleftrightarrow> nv_base N \<and> nv_bind N = (\<lambda>a. True) \<and> nv_signal N \<and> nv_add N"

definition sample_net :: net_env where
  "sample_net = \<lparr>nv_base = True, nv_bind = (\<lambda>a. True), nv_signal = True, nv_add = True, nv_connect = (\<lambda>a. True)\<rparr>"

definition config_logger :: "(string \<times> string) list \<Rightarrow> logger" where
  "config_logger ls = sample_logger\<lparr>lg_files := (\<lambda>p. None)(''log_config.conf'' \<mapsto> config_text ls)\<rparr>"

lemma config_logger_free: "free_to_log (config_logger ls)"
  using sample_free by (simp add: free_to_log_def settings_ok_def config_logger_def)

text \<open>C27. Given a dotted address, a port and a configuration file, the server listens on
  exactly that address and port, in network order, with the logger as the file says, except
  that it logs to \<open>server.log\<close>: the file's \<open>logfile\<close> is overridden.\<close>

theorem server_main_listens:
  assumes "free_to_log s" and "n \<le> 3" and "plain name" and "length name < 255"
    and "lg_files s ''log_config.conf'' = Some (config_text (all_settings silent wrap flush n name))"
    and "can_serve N" and "a < 256" and "b < 256" and "c < 256" and "d < 256" and "p < 65536"
  shows "\<exists>t. server_main N [prog, ''-h'' @ dotted a b c d, ''-p'' @ show_nat p] s =
      Inr (0, t, Some \<lparr>sin_family = AF_INET, sin_port = be_bytes 2 p, sin_addr = map char_of [a, b, c, d]\<rparr>)
    \<and> log_path t = ''server.log'' \<and> silentMode t = silent \<and> lineWrap t = wrap \<and> dbgLevel t = int n"
proof -
  obtain t where t: "rbind (loadConfig ''log_config.conf'' s) (setLogFile ''server.log'') = Inr t"
      "log_path t = ''server.log''" "silentMode t = silent" "lineWrap t = wrap" "dbgLevel t = int n"
    using server_logger [OF assms(1-5)] by blast
  obtain para where para: "parse_commandline zero_parameter
        [prog, ''-h'' @ dotted a b c d, ''-p'' @ show_nat p] = Inr (para, 0)"
      "read_str (host para) = Inr (dotted a b c d)" "unat (port para) = p"
    using parse_host_port [OF dotted_string [OF assms(7-10)] assms(11)] by blast
  then show ?thesis
    using server_main_start [OF t(1) para(1,2), of N] assms(6) t(2-5) inet_aton_dotted [OF assms(7-10)]
    by (simp add: can_serve_def htons_def)
qed

theorem server_main_listens_witness:
  "\<exists>t. server_main sample_net [''fileserv'', ''-h'' @ dotted 127 0 0 1, ''-p'' @ show_nat 9000]
      (config_logger (all_settings False True True 0 ''history.log'')) =
      Inr (0, t, Some \<lparr>sin_family = AF_INET, sin_port = be_bytes 2 9000, sin_addr = map char_of [127, 0, 0, 1 :: nat]\<rparr>)
    \<and> log_path t = ''server.log'' \<and> silentMode t = False \<and> lineWrap t = True \<and> dbgLevel t = int 0"
proof (rule server_main_listens [OF config_logger_free])
  show "plain ''history.log''"
    by (simp add: plain_def)
qed (simp_all add: config_logger_def can_serve_def sample_net_def)

text \<open>A host that is no address, such as the \<open>localhost\<close> of the README, is not refused:
  the result of \<open>inet_aton\<close> is dropped and the server listens on 0.0.0.0, every interface.\<close>

lemma server_main_name_binds_all:
  assumes "free_to_log s" and "n \<le> 3" and "plain name" and "length name < 255"
    and "lg_files s ''log_config.conf'' = Some (config_text (all_settings silent wrap flush n name))"
    and "can_serve N" and "no_nul h" and "h \<noteq> []" and "length h < 50" and "\<not> is_digit (hd h)" and "p < 65536"
  shows "\<exists>t. server_main N [prog, ''-h'' @ h, ''-p'' @ show_nat p] s =
      Inr (0, t, Some \<lparr>sin_family = AF_INET, sin_port = be_bytes 2 p, sin_addr = replicate 4 NUL\<rparr>)"
proof -
  obtain t where t: "rbind (loadConfig ''log_config.conf'' s) (setLogFile ''server.log'') = Inr t"
    using server_logger [OF assms(1-5)] by blast
  obtain para where para: "parse_commandline zero_parameter [prog, ''-h'' @ h, ''-p'' @ show_nat p] = Inr (para, 0)"
      "read_str (host para) = Inr h" "unat (port para) = p"
    using parse_host_port [OF assms(7-9,11)] by blast
  then show ?thesis
    using server_main_start [OF t para(1,2), of N] assms(6,10) inet_aton_name [of h]
    by (simp add: can_serve_def htons_def)
qed

text \<open>When there is a configuration file, a wrong command line is never reported:
  reading the file leaves \<open>errno\<close> set, and the message of the error, the first that prints
  it, is built from blanks without an end.\<close>

lemma server_main_usage_faults:
  assumes "lg_files s ''log_config.conf'' = Some bs" and "\<not> lg_denied s ''log_config.conf''" and "bs \<noteq> []"
    and "parse_commandline zero_parameter argv = Inr (p, 1)"
  shows "failed (server_main N argv s)"
proof (rule ccontr)
  assume ok: "\<not> failed (server_main N argv s)"
  then obtain t u v where t: "loadConfig ''log_config.conf'' s = Inr t" and u: "setLogFile ''server.log'' t = Inr u"
      and v: "writeLog SIMPLOG_FATAL ''configure ERROR!'' [] u = Inr v"
    using assms(4) by (auto simp: server_main_def not_failed_iff rbind_eq_Inr)
  have "lg_errno u \<noteq> 0"
    using setLogFile_errno [OF u loadConfig_errno [OF t assms(1-3)]] .
  then show False
    using writeLog_errno_fails [of SIMPLOG_FATAL u] v by (metis failed.simps(2) less_numeral_extra(3)
        neg_less_0_iff_less zero_less_numeral)
qed

text \<open>The client asks for a connection to the address and port it is given and starts its
  loop reading, with the parameters the command line sets and nothing sent; if it is refused
  it returns 1.\<close>

lemma client_main_connects:
  assumes "libevent_ok L" and "bev_socket_new L (- 1) = Some bev" and "free_to_log s"
    and "length (getDateString (lg_time s)) = 21" and "nv_base N"
    and "a < 256" and "b < 256" and "c < 256" and "d < 256" and "p < 65536"
  shows "let A = \<lparr>sin_family = AF_INET, sin_port = be_bytes 2 p, sin_addr = map char_of [a, b, c, d]\<rparr>
     in case client_main L N [prog, ''-h'' @ dotted a b c d, ''-p'' @ show_nat p] s of
          Inl e \<Rightarrow> False
        | Inr (code, t, Some (addr, para, bev')) \<Rightarrow> code = 0 \<and> nv_connect N A \<and> addr = A
            \<and> unat (port para) = p \<and> in_bytes L bev' = [] \<and> out_bytes L bev' = []
            \<and> bev_enabled L bev' EV_READ
        | Inr (code, t, None) \<Rightarrow> code = 1 \<and> \<not> nv_connect N A"
proof -
  obtain para where para: "parse_commandline zero_parameter
        [prog, ''-h'' @ dotted a b c d, ''-p'' @ show_nat p] = Inr (para, 0)"
      "read_str (host para) = Inr (dotted a b c d)" "unat (port para) = p"
    using parse_host_port [OF dotted_string [OF assms(6-9)] assms(10)] by blast
  let ?A = "\<lparr>sin_family = AF_INET, sin_port = be_bytes 2 p, sin_addr = map char_of [a, b, c, d]\<rparr>"
  have addr: "para_address para = Inr ?A"
    using para inet_aton_dotted [OF assms(6-9)] by (simp add: para_address_def htons_def)
  obtain t u where w: "writeLog SIMPLOG_DEBUG set_read_event_msg [] s = Inr t"
      "writeLog SIMPLOG_DEBUG start_loop_msg [] t = Inr u"
    using client_logs [OF assms(3,4)] by blast
  have bev: "in_bytes L (cli_setup L bev) = []" "out_bytes L (cli_setup L bev) = []"
      "bev_enabled L (cli_setup L bev) EV_READ"
    using assms(2) bufferevent_setup_laws [OF assms(1)] bufferevent_flags_laws(1) [OF assms(1)]
    by (simp_all add: cli_setup_def)
  show ?thesis
    using assms(2,5) para addr w bev by (simp add: client_main_def Let_def)
qed

end
