(* ===== verification/Messages.thy ===== *)
theory Messages
  imports Server Client LogConfig
begin

text \<open>
  What the transfer programs log, as calls of \<open>simplog.writeLog\<close>: each event of a world is a
  level, a format string and its arguments, as the sources have them. Replaying the events of
  a run through the logger gives what the run leaves in its log file, or the fault the logger
  runs into, which ends the program at that point.
\<close>

section \<open>The format strings\<close>

text \<open>Most are in Chinese, in UTF-8.\<close>

definition digest_byte_msg :: string where
  "digest_byte_msg = ''[%d]---'' @ [CHR 0xE5, CHR 0x8E, CHR 0x9F, CHR 0xE5, CHR 0xA7, CHR 0x8B] @ '':%2x,'' @
      [CHR 0xE5, CHR 0xA4, CHR 0x8D, CHR 0xE5, CHR 0x8E, CHR 0x9F] @ '':%x''"

definition bind_events_msg :: string where
  "bind_events_msg = [CHR 0xE7, CHR 0xBB, CHR 0x91, CHR 0xE5, CHR 0xAE, CHR 0x9A, CHR 0xE4, CHR 0xBA, CHR 0x8B,
      CHR 0xE4, CHR 0xBB, CHR 0xB6] @ ''.''"

definition recv_size_msg :: string where
  "recv_size_msg = [CHR 0xE6, CHR 0x8E, CHR 0xA5, CHR 0xE6, CHR 0x94, CHR 0xB6, CHR 0xE6, CHR 0x95, CHR 0xB0,
      CHR 0xE6, CHR 0x8D, CHR 0xAE, CHR 0xE5, CHR 0xA4, CHR 0xA7, CHR 0xE5, CHR 0xB0, CHR 0x8F]
      @ '':%lu'' @ [NL]"

definition recv_info_msg :: string where
  "recv_info_msg = [CHR 0xE6, CHR 0x96, CHR 0x87, CHR 0xE4, CHR 0xBB, CHR 0xB6, CHR 0xE5, CHR 0x90, CHR 0x8D] @
      '':%s,'' @ [CHR 0xE5, CHR 0xA4, CHR 0xA7, CHR 0xE5, CHR 0xB0, CHR 0x8F] @ '':%lu'' @ [NL]"

definition recv_file_msg :: string where
  "recv_file_msg = [CHR 0xE6, CHR 0x8E, CHR 0xA5, CHR 0xE6, CHR 0x94, CHR 0xB6, CHR 0xE6, CHR 0x96, CHR 0x87,
      CHR 0xE4, CHR 0xBB, CHR 0xB6] @ ''...''"

definition prepare_write_msg :: string where
  "prepare_write_msg = [CHR 0xE5, CHR 0x87, CHR 0x86, CHR 0xE5, CHR 0xA4, CHR 0x87, CHR 0xE5, CHR 0x86, CHR 0x99,
      CHR 0xE5, CHR 0x85, CHR 0xA5, CHR 0xE6, CHR 0x96, CHR 0x87, CHR 0xE4, CHR 0xBB, CHR 0xB6]
      @ ''...''"

definition write_result_msg :: string where
  "write_result_msg = [CHR 0xE5, CHR 0x86, CHR 0x99, CHR 0xE5, CHR 0x85, CHR 0xA5, CHR 0xE7, CHR 0xBB, CHR 0x93,
      CHR 0xE6, CHR 0x9E, CHR 0x9C] @ '':%ld''"

definition transfer_error_msg :: string where
  "transfer_error_msg = [CHR 0xE6, CHR 0x96, CHR 0x87, CHR 0xE4, CHR 0xBB, CHR 0xB6, CHR 0xE4, CHR 0xBC, CHR 0xA0,
      CHR 0xE8, CHR 0xBE, CHR 0x93, CHR 0xE9, CHR 0x94, CHR 0x99, CHR 0xE8, CHR 0xAF, CHR 0xAF]
      @ ''!''"

definition write_done_msg :: string where
  "write_done_msg = [CHR 0xE6, CHR 0x96, CHR 0x87, CHR 0xE4, CHR 0xBB, CHR 0xB6, CHR 0xE5, CHR 0x86, CHR 0x99,
      CHR 0xE5, CHR 0x85, CHR 0xA5, CHR 0xE5, CHR 0xAE, CHR 0x8C, CHR 0xE6, CHR 0x88, CHR 0x90]
      @ ''.''"

definition disconnected_msg :: string where
  "disconnected_msg = ''[%d] '' @ [CHR 0xE6, CHR 0x96, CHR 0xAD, CHR 0xE5, CHR 0xBC, CHR 0x80, CHR 0xE8, CHR 0xBF,
      CHR 0x9E, CHR 0xE6, CHR 0x8E, CHR 0xA5] @ ''!''"

definition request_line_msg :: string where
  "request_line_msg = [CHR 0xE6, CHR 0x8E, CHR 0xA5, CHR 0xE6, CHR 0x94, CHR 0xB6, CHR 0xE8, CHR 0xAF, CHR 0xB7,
      CHR 0xE6, CHR 0xB1, CHR 0x82] @ '':%s''"

definition send_info_msg :: string where
  "send_info_msg = [CHR 0xE4, CHR 0xBC, CHR 0xA0, CHR 0xE8, CHR 0xBE, CHR 0x93, CHR 0xE4, CHR 0xBF, CHR 0xA1,
      CHR 0xE6, CHR 0x81, CHR 0xAF] @ ''...''"

definition sent_info_msg :: string where
  "sent_info_msg = [CHR 0xE6, CHR 0x96, CHR 0x87, CHR 0xE4, CHR 0xBB, CHR 0xB6, CHR 0xE5, CHR 0x90, CHR 0x8D] @
      '':%s,'' @ [CHR 0xE6, CHR 0x96, CHR 0x87, CHR 0xE4, CHR 0xBB, CHR 0xB6, CHR 0xE5, CHR
      0xA4, CHR 0xA7, CHR 0xE5, CHR 0xB0, CHR 0x8F] @ '':%lu''"

definition check_size_msg :: string where
  "check_size_msg = [CHR 0xE6, CHR 0xA0, CHR 0xA1, CHR 0xE9, CHR 0xAA, CHR 0x8C, CHR 0xE4, CHR 0xBF, CHR 0xA1,
      CHR 0xE6, CHR 0x81, CHR 0xAF, CHR 0xE5, CHR 0xA4, CHR 0xA7, CHR 0xE5, CHR 0xB0, CHR 0x8F]
      @ '':%lu''"

definition send_file_msg :: string where
  "send_file_msg = [CHR 0xE4, CHR 0xBC, CHR 0xA0, CHR 0xE8, CHR 0xBE, CHR 0x93, CHR 0xE6, CHR 0x96, CHR 0x87,
      CHR 0xE4, CHR 0xBB, CHR 0xB6] @ ''...''"

definition file_length_msg :: string where
  "file_length_msg = [CHR 0xE6, CHR 0x96, CHR 0x87, CHR 0xE4, CHR 0xBB, CHR 0xB6, CHR 0xE9, CHR 0x95, CHR 0xBF,
      CHR 0xE5, CHR 0xBA, CHR 0xA6] @ '':%lu''"

lemmas message_defs = digest_byte_msg_def bind_events_msg_def recv_size_msg_def recv_info_msg_def recv_file_msg_def prepare_write_msg_def write_result_msg_def transfer_error_msg_def write_done_msg_def disconnected_msg_def request_line_msg_def send_info_msg_def sent_info_msg_def check_size_msg_def send_file_msg_def file_length_msg_def

section \<open>The calls\<close>

type_synonym message = "int \<times> string \<times> farg list"

text \<open>\<open>writefile\<close>; its bytes are unsigned.\<close>

fun worker_message :: "log_event \<Rightarrow> message option" where
  "worker_message WriteFileError = Some (SIMPLOG_FATAL, ''file write ERROR!'', [])"
| "worker_message ContentIncorrect = Some (SIMPLOG_FATAL, ''file content INCORRECT!'', [])"
| "worker_message (DigestByte i a b) =
     Some (SIMPLOG_DEBUG, digest_byte_msg, [FInt (int i), FInt (of_char a), FInt (of_char b)])"
| "worker_message _ = None"

text \<open>The callbacks of the server. \<open>errno\<close> is an argument of one of the messages.\<close>

fun server_message :: "nat \<Rightarrow> log_event \<Rightarrow> message option" where
  "server_message errno BindEvents = Some (SIMPLOG_INFO, bind_events_msg, [])"
| "server_message errno (RecvSize n) = Some (SIMPLOG_DEBUG, recv_size_msg, [FNat n])"
| "server_message errno (RecvInfo name len) =
     Some (SIMPLOG_DEBUG, recv_info_msg, [FStr name, FNat (unat len)])"
| "server_message errno RecvFile = Some (SIMPLOG_DEBUG, recv_file_msg, [])"
| "server_message errno PrepareWrite = Some (SIMPLOG_DEBUG, prepare_write_msg, [])"
| "server_message errno (WriteResult r) = Some (SIMPLOG_DEBUG, write_result_msg, [FInt r])"
| "server_message errno TransferError = Some (SIMPLOG_FATAL, transfer_error_msg, [])"
| "server_message errno WriteDone = Some (SIMPLOG_DEBUG, write_done_msg, [])"
| "server_message errno (SrvConnected fd) = Some (SIMPLOG_INFO, ''[%d]connected.'' @ [NL], [FInt (int fd)])"
| "server_message errno SrvConnError =
     Some (SIMPLOG_FATAL, ''Got an error on the connection: %s'', [FStr (strerror errno)])"
| "server_message errno (Disconnected fd) = Some (SIMPLOG_DEBUG, disconnected_msg, [FInt (int fd)])"
| "server_message errno ServerExit = Some (SIMPLOG_INFO, ''exit...'', [])"
| "server_message errno _ = None"

text \<open>The callbacks of the client.\<close>

fun client_message :: "nat \<Rightarrow> log_event \<Rightarrow> message option" where
  "client_message errno (RequestLine name) = Some (SIMPLOG_DEBUG, request_line_msg, [FStr name])"
| "client_message errno SendInfo = Some (SIMPLOG_DEBUG, send_info_msg, [])"
| "client_message errno (SentInfo name len) =
     Some (SIMPLOG_DEBUG, sent_info_msg, [FStr name, FNat (unat len)])"
| "client_message errno (CheckSize n) = Some (SIMPLOG_DEBUG, check_size_msg, [FNat n])"
| "client_message errno SendFile = Some (SIMPLOG_DEBUG, send_file_msg, [])"
| "client_message errno (FileLength n) = Some (SIMPLOG_DEBUG, file_length_msg, [FNat n])"
| "client_message errno (CliConnected fd) = Some (SIMPLOG_INFO, ''[%d]connected.'' @ [NL], [FInt (int fd)])"
| "client_message errno CliConnError =
     Some (SIMPLOG_FATAL, ''Got an error on the connection: %s'', [FStr (strerror errno)])"
| "client_message errno ConnClosed = Some (SIMPLOG_INFO, ''connection closed.'', [])"
| "client_message errno _ = None"

definition message_of :: "nat \<Rightarrow> log_event \<Rightarrow> message" where
  "message_of errno e =
     the (case worker_message e of
        Some m \<Rightarrow> Some m
      | None \<Rightarrow> (case server_message errno e of
                   Some m \<Rightarrow> Some m
                 | None \<Rightarrow> client_message errno e))"

definition say :: "log_event \<Rightarrow> logger \<Rightarrow> logger result" where
  "say e g = (case message_of (lg_errno g) e of (level, fmt, args) \<Rightarrow> writeLog level fmt args g)"

text \<open>Each call finds the time it is made at.\<close>

fun say_all :: "(log_time \<times> log_event) list \<Rightarrow> logger \<Rightarrow> logger result" where
  "say_all [] g = Inr g"
| "say_all ((t, e) # es) g = rbind (say e (g\<lparr>lg_time := t\<rparr>)) (say_all es)"

text \<open>Every event is one of these calls, and every format string has its arguments.\<close>

lemma message_of_simps [simp]:
  "worker_message e = Some m \<Longrightarrow> message_of n e = m"
  "worker_message e = None \<Longrightarrow> server_message n e = Some m \<Longrightarrow> message_of n e = m"
  "worker_message e = None \<Longrightarrow> server_message n e = None \<Longrightarrow> client_message n e = Some m \<Longrightarrow> message_of n e = m"
  by (simp_all add: message_of_def)

lemma event_message:
  "worker_message e \<noteq> None \<or> server_message n e \<noteq> None \<or> client_message n e \<noteq> None"
  by (cases e) simp_all

lemma message_formats:
  assumes "message_of n e = (level, fmt, args)"
  shows "\<exists>body. vformat fmt args = Inr body"
  using assms by (cases e) (auto simp: message_defs)

lemma message_level:
  assumes "message_of n e = (level, fmt, args)"
  shows "level \<in> {SIMPLOG_FATAL, SIMPLOG_INFO, SIMPLOG_DEBUG}"
  using assms by (cases e) auto

section \<open>The log as a list of lines\<close>

text \<open>
  What a log should be: one line for each event the debug level lets through, in order, and
  nothing else. An event can be written when its text fits its block, needs no wrapping, and
  is not an error that finds \<open>errno\<close> set.
\<close>

definition event_line :: "int \<Rightarrow> nat \<Rightarrow> log_time \<times> log_event \<Rightarrow> string" where
  "event_line dbg errno = (\<lambda>(t, e).
     case message_of errno e of (level, fmt, args) \<Rightarrow>
       case (level_name level dbg, vformat fmt args) of
         (Some (col, name, wrap), Inr body) \<Rightarrow> getDateString t @ [TAB] @ name @ body @ [NL]
       | _ \<Rightarrow> [])"

definition event_fits :: "bool \<Rightarrow> nat \<Rightarrow> log_time \<times> log_event \<Rightarrow> bool" where
  "event_fits wrap errno = (\<lambda>(t, e).
     case message_of errno e of (level, fmt, args) \<Rightarrow>
       case vformat fmt args of
         Inl _ \<Rightarrow> False
       | Inr body \<Rightarrow> length body < length fmt + 4146
           \<and> (wrap \<longrightarrow> length (getDateString t) + length body + 10 \<le> 80)
           \<and> (errno = 0 \<or> SIMPLOG_INFO \<le> level))"

definition log_ready :: "logger \<Rightarrow> bool" where
  "log_ready g \<longleftrightarrow> settings_ok g \<and> \<not> lg_denied g (log_path g)"

definition said :: "logger \<Rightarrow> string \<Rightarrow> logger \<Rightarrow> bool" where
  "said g bs u \<longleftrightarrow> log_ready u \<and> same_settings u g \<and> lg_errno u = lg_errno g
     \<and> log_bytes u = log_bytes g @ bs"

lemma log_bytes_open_file: "log_bytes (not_logged g) = log_bytes g" "lg_errno (not_logged g) = lg_errno g"
  by (simp_all add: not_logged_def open_file_def err_def out_def log_bytes_def log_path_def)

lemma saidI:
  "log_ready g \<Longrightarrow> same_settings u g \<Longrightarrow> lg_denied u = lg_denied g \<Longrightarrow> lg_errno u = lg_errno g
     \<Longrightarrow> log_bytes u = log_bytes g @ bs \<Longrightarrow> said g bs u"
  by (auto simp: said_def log_ready_def same_settings_def settings_ok_def log_path_def)

lemma same_settings_logged [simp]: "same_settings (logged s c l) s" "same_settings (reported s c l) s"
  by (simp_all add: same_settings_def)

lemma writeLog_said:
  assumes "log_ready g" and "vformat fmt args = Inr body" and "length body < length fmt + 4146"
    and "lineWrap g \<longrightarrow> length (getDateString (lg_time g)) + length body + 10 \<le> 80"
    and "lg_errno g = 0 \<or> SIMPLOG_INFO \<le> level" and "level \<in> {SIMPLOG_FATAL, SIMPLOG_INFO, SIMPLOG_DEBUG}"
  shows "\<exists>u. writeLog level fmt args g = Inr u \<and> said g
    (case level_name level (dbgLevel g) of
       None \<Rightarrow> [] | Some (col, name, wrap) \<Rightarrow> log_line g name body) u"
proof -
  have ok: "settings_ok g" "\<not> lg_denied g (log_path g)"
    using assms(1) by (simp_all add: log_ready_def)
  show ?thesis
  proof (cases "SIMPLOG_INFO \<le> level")
    case True
    then have "writeLog level fmt args g = Inr (case level_name level (dbgLevel g) of
         None \<Rightarrow> not_logged g | Some (col, name, wrap) \<Rightarrow> logged g col (log_line g name body))"
      using assms(4) by (intro writeLog_level [OF ok _ assms(2,3)]) auto
    then show ?thesis
      using assms(1) not_logged_simps [of g] log_bytes_open_file [of g]
      by (auto split: option.splits intro!: saidI)
  next
    case False
    then have lev: "level < SIMPLOG_INFO" "lg_errno g = 0"
        "level_name level (dbgLevel g) = Some (COL_FATAL, ''FATAL : '', True)"
      using assms(5,6) by (auto simp: level_name_def)
    show ?thesis
      using writeLog_error [OF ok lev assms(2,3)] assms(1,4) lev(3) by (auto intro!: saidI)
  qed
qed

lemma log_ready_time [simp]:
  "log_ready (g\<lparr>lg_time := t\<rparr>) = log_ready g" "said (g\<lparr>lg_time := t\<rparr>) bs u = said g bs u"
  by (simp_all add: log_ready_def settings_ok_def log_path_def said_def same_settings_def log_bytes_def)

lemma say_said:
  assumes "log_ready g" and "event_fits (lineWrap g) (lg_errno g) (t, e)"
  shows "\<exists>u. say e (g\<lparr>lg_time := t\<rparr>) = Inr u \<and> said g (event_line (dbgLevel g) (lg_errno g) (t, e)) u"
proof -
  obtain level fmt args where m: "message_of (lg_errno g) e = (level, fmt, args)"
    by (rule prod_cases3)
  then obtain body where b: "vformat fmt args = Inr body"
    using message_formats by blast
  have fits: "length body < length fmt + 4146" "lg_errno g = 0 \<or> SIMPLOG_INFO \<le> level"
      "lineWrap g \<longrightarrow> length (getDateString t) + length body + 10 \<le> 80"
    using assms(2) m b by (simp_all add: event_fits_def)
  have "event_line (dbgLevel g) (lg_errno g) (t, e) = (case level_name level (dbgLevel g) of
       None \<Rightarrow> [] | Some (col, name, wrap) \<Rightarrow> log_line (g\<lparr>lg_time := t\<rparr>) name body)"
    using m b by (auto simp: event_line_def log_line_def split: option.splits)
  then show ?thesis
    using writeLog_said [of "g\<lparr>lg_time := t\<rparr>" fmt args body level] assms(1) m b fits message_level [OF m]
    by (simp add: say_def)
qed

lemma said_trans: "said g as u \<Longrightarrow> said u bs v \<Longrightarrow> said g (as @ bs) v"
  by (auto simp: said_def same_settings_def)

lemma say_all_said:
  assumes "log_ready g" and "list_all (event_fits (lineWrap g) (lg_errno g)) es"
  shows "\<exists>u. say_all es g = Inr u \<and> said g (concat (map (event_line (dbgLevel g) (lg_errno g)) es)) u"
  using assms
proof (induction es arbitrary: g)
  case Nil
  then show ?case
    by (simp add: said_def same_settings_def)
next
  case (Cons x es)
  obtain t e where x: "x = (t, e)"
    by fastforce
  obtain u where u: "say e (g\<lparr>lg_time := t\<rparr>) = Inr u" "said g (event_line (dbgLevel g) (lg_errno g) x) u"
    using say_said [OF Cons.prems(1)] Cons.prems(2) x by fastforce
  then have keep: "log_ready u" "lineWrap u = lineWrap g" "lg_errno u = lg_errno g" "dbgLevel u = dbgLevel g"
    by (simp_all add: said_def same_settings_def)
  then obtain v where "say_all es u = Inr v"
      "said u (concat (map (event_line (dbgLevel g) (lg_errno g)) es)) v"
    using Cons.IH [of u] Cons.prems(2) by auto
  then show ?case
    using u said_trans x by fastforce
qed

end
