(* ===== verification/Transcript.thy ===== *)
theory Transcript
  imports Protocol Messages Programs
begin

text \<open>
  The transfer programs with the logger they really call: the events a callback adds to its
  world are replayed through \<open>writeLog\<close>, each at a time of its own, and a call that faults
  ends the program. (Where the callback faults as well, its own fault is the one kept.)
  \<open>writefile\<close> runs in a thread of its own, whose \<open>errno\<close> starts at 0 and is not that of the
  event loop. What a transfer logs on both sides, and which names and disks make the logger
  take a program down.
\<close>

section \<open>Callbacks that log\<close>

definition stamped :: "(nat \<Rightarrow> log_time) \<Rightarrow> log_event list \<Rightarrow> (log_time \<times> log_event) list" where
  "stamped ts es = zip (map ts [0..<length es]) es"

definition new_events :: "world \<Rightarrow> world \<Rightarrow> log_event list" where
  "new_events w w' = drop (length (logs w)) (logs w')"

text \<open>The messages of the server's callbacks. Those of \<open>writefile\<close> find the \<open>errno\<close> of its thread,
  \<open>we\<close>, in which the short \<open>fwrite\<close> has left ENOSPC; the others that of the event loop.\<close>

fun say_server :: "nat \<Rightarrow> (log_time \<times> log_event) list \<Rightarrow> logger \<Rightarrow> logger result" where
  "say_server we [] g = Inr g"
| "say_server we ((t, e) # es) g =
     (if worker_message e = None
      then rbind (say e (g\<lparr>lg_time := t\<rparr>)) (say_server we es)
      else rbind (say e (g\<lparr>lg_time := t, lg_errno := (if e = WriteFileError then ENOSPC else we)\<rparr>))
             (\<lambda>u. say_server (lg_errno u) es (u\<lparr>lg_errno := lg_errno g\<rparr>)))"

lemma say_server_loop:
  "list_all (\<lambda>x. worker_message (snd x) = None) es \<Longrightarrow> say_server we es g = say_all es g"
proof (induction es arbitrary: g)
  case (Cons x es)
  then show ?case
    by (cases x) (auto intro!: rbind_cong)
qed simp

definition srv_read_logged ::
  "('e, 'b) libevent \<Rightarrow> 'c md5 \<Rightarrow> resources \<Rightarrow> (nat \<Rightarrow> log_time) \<Rightarrow> server \<Rightarrow> logger \<Rightarrow> 'b \<Rightarrow> fileinfo \<Rightarrow>
     (server \<times> logger \<times> 'b \<times> fileinfo) result option" where
  "srv_read_logged L M res ts s g bev junk =
     map_option (\<lambda>r. rbind r (\<lambda>(s', bev', f).
         rbind (say_server 0 (stamped ts (new_events (sv_world s) (sv_world s'))) g)
           (\<lambda>g'. Inr (s', g', bev', f))))
       (srv_read_cb L M res s bev junk)"

definition cli_read_logged ::
  "('e, 'b) libevent \<Rightarrow> 'c md5 \<Rightarrow> resources \<Rightarrow> (nat \<Rightarrow> log_time) \<Rightarrow> 'e client \<Rightarrow> logger \<Rightarrow> 'b \<Rightarrow> fileinfo \<Rightarrow>
     ('e client \<times> logger \<times> 'b) result" where
  "cli_read_logged L M res ts c g bev junk =
     rbind (cli_read_cb L M res c bev junk) (\<lambda>(c', bev').
       rbind (say_all (stamped ts (new_events (cl_world c) (cl_world c'))) g)
         (\<lambda>g'. Inr (c', g', bev')))"

lemma stamped_events [simp]: "map snd (stamped ts es) = es" "length (stamped ts es) = length es"
  by (simp_all add: stamped_def)

lemma stamped_Cons: "stamped ts (e # es) = (ts 0, e) # stamped (\<lambda>i. ts (Suc i)) es"
  by (simp add: stamped_def upt_conv_Cons map_Suc_upt [symmetric] comp_def del: upt_Suc)

lemma stamped_Nil [simp]: "stamped ts [] = []"
  by (simp add: stamped_def)

section \<open>Messages that need wrapping\<close>

lemma no_nul_date [simp]: "no_nul (getDateString t)"
  by (simp add: getDateString_def two_digits_def)

lemma no_newline_date [simp]: "NL \<notin> set (getDateString t)"
proof -
  have "NL \<notin> set (show_nat n)" for n
    using show_nat_digits [of n] by (auto simp: list_all_iff is_digit_def)
  then show ?thesis
    by (auto simp: getDateString_def two_digits_def)
qed

lemma level_name_plain: "level_name l d = Some (c, name, wrap) \<Longrightarrow> no_nul name \<and> NL \<notin> set name"
  by (auto simp: level_name_def split: if_splits)

text \<open>A line of 81 to 129 characters without a newline in its first 80 ends the program.\<close>

lemma writeLog_wrap_faults:
  assumes "log_ready g" and "lineWrap g" and "SIMPLOG_INFO \<le> level"
    and "level_name level (dbgLevel g) = Some (col, name, True)"
    and "vformat str args = Inr body" and "no_nul body" and "length body < length str + 4146"
    and "70 < length (getDateString (lg_time g)) + length body"
    and "length (getDateString (lg_time g)) + length body < 120"
    and "NL \<notin> set (take (71 - length (getDateString (lg_time g))) body)"
  shows "writeLog level str args g = Inl NullPointer"
proof -
  let ?date = "getDateString (lg_time g)"
  let ?msg = "?date @ [TAB] @ name @ body @ [NL]"
  have path: "read_str (logFile g) = Inr (log_path g)" and den: "\<not> lg_denied g (log_path g)"
    using assms(1) by (simp_all add: log_ready_def settings_ok_def read_str_def log_path_def)
  have tx: "take (length str + 4146 - 1) body = body"
    using assms(7) by simp
  have name: "no_nul name" "NL \<notin> set name" "length name = 8"
    using level_name_plain [OF assms(4)] length_level_name [OF assms(4)] by simp_all
  have "take (80 - length ?date - 9) (body @ [NL]) = take (71 - length ?date) body"
    using assms(8) by simp
  then have "NL \<notin> set (take 80 ?msg)"
    using name assms(10) no_newline_date [of "lg_time g"] by (auto simp: take_Cons' dest: in_set_takeD)
  moreover have "no_nul ?msg"
    using name assms(6) by simp
  moreover have len: "length ?msg = length ?date + length body + 10"
    using name by simp
  ultimately have wl: "wrapLines ?msg size = Inl NullPointer" if "length ?msg < size" for size
    using assms(8,9) that by (intro wrapLines_short) simp_all
  have "compose (open_file g) size ?date name body True = Inl NullPointer"
    if "length ?date + length body + 10 < size" for size
    using wl [of size] len that name(3) assms(2,8)
    by (simp add: compose_def sprintf_end_def)
  then show ?thesis
    using assms(3)
    unfolding writeLog_def writeLog_once_def assms(5) path rbind.simps Let_def tx open_log_ok [OF den]
      prod.case open_file_simps emit_def assms(4) option.case
    by simp
qed

section \<open>What the client logs\<close>

interpretation transcript: transition_system
    "\<lambda>s. session_init L M R p bs s \<and> bs \<noteq> [] \<and> logs (cl_world (cli s)) = []" "transfer_step L M R"
    "\<lambda>s. env_ok L M R p bs \<and> (\<exists>ph. phase_inv L M p bs ph s \<and> logs (cl_world (cli s)) = spoken p bs ph)"
  for L :: "('e, 'b) libevent" and M :: "'c md5" and R :: resources and p :: parameter
    and bs :: "char list"
proof
  fix s :: "('e, 'b) session"
  assume "session_init L M R p bs s \<and> bs \<noteq> [] \<and> logs (cl_world (cli s)) = []"
  then show "env_ok L M R p bs \<and> (\<exists>ph. phase_inv L M p bs ph s \<and> logs (cl_world (cli s)) = spoken p bs ph)"
    using init_phase [of L M R p bs s] by (auto simp: session_init_def intro!: exI [of _ Ask_head])
next
  fix s t :: "('e, 'b) session"
  assume "env_ok L M R p bs \<and> (\<exists>ph. phase_inv L M p bs ph s \<and> logs (cl_world (cli s)) = spoken p bs ph)"
    and "transfer_step L M R s t"
  then show "env_ok L M R p bs \<and> (\<exists>ph. phase_inv L M p bs ph t \<and> logs (cl_world (cli t)) = spoken p bs ph)"
    using transfer_step_phase [of L M R s t p bs] by (metis append_Nil keeps_up_def)
qed

lemma delivered_phase: "phase_inv L M p bs ph s \<Longrightarrow> delivered L p bs s \<Longrightarrow> ph = Done"
  by (cases ph) (auto simp: delivered_def holds_file_def)

lemma client_events:
  assumes "session_init L M R p bs s" and "bs \<noteq> []" and "logs (cl_world (cli s)) = []"
    and "(transfer_step L M R)\<^sup>*\<^sup>* s t" and "delivered L p bs t"
  shows "logs (cl_world (cli t)) = [RequestLine ''HEAD'', SendInfo, SentInfo (cstr (outfile p)) (of_nat (length bs)),
     CheckSize sizeof_fileinfo, RequestLine ''DATA'', SendFile, FileLength (length bs), RequestLine ''FIN'']"
proof -
  obtain ph where "phase_inv L M p bs ph t" and l: "logs (cl_world (cli t)) = spoken p bs ph"
    using transcript.reach_inv [OF _ assms(4)] assms(1-3) by blast
  then have "ph = Done"
    using delivered_phase assms(5) by blast
  then show ?thesis
    using l by (simp add: head_spoken_def data_spoken_def)
qed

section \<open>What the server logs\<close>

text \<open>A line for the header, one for each piece of the data, and three at the end.\<close>

definition head_heard :: "parameter \<Rightarrow> char list \<Rightarrow> log_event list" where
  "head_heard p bs = [RecvSize sizeof_fileinfo, RecvInfo (cstr (outfile p)) (of_nat (length bs))]"

definition all_heard :: "parameter \<Rightarrow> char list \<Rightarrow> nat \<Rightarrow> log_event list" where
  "all_heard p bs n = head_heard p bs @ replicate n RecvFile @ [PrepareWrite, WriteResult 0, WriteDone]"

fun heard :: "parameter \<Rightarrow> char list \<Rightarrow> phase \<Rightarrow> nat \<Rightarrow> log_event list" where
  "heard p bs Ask_head n = []"
| "heard p bs Head_sent n = []"
| "heard p bs Ask_data n = head_heard p bs"
| "heard p bs Streaming n = head_heard p bs @ replicate n RecvFile"
| "heard p bs Fin_sent n = all_heard p bs n"
| "heard p bs Done n = all_heard p bs n"

text \<open>The \<open>n\<close> pieces that have arrived are not empty.\<close>

definition pieces_ok :: "char list \<Rightarrow> phase \<Rightarrow> nat \<Rightarrow> nat \<Rightarrow> bool" where
  "pieces_ok bs ph n got \<longleftrightarrow> (ph = Streaming \<longrightarrow> n \<le> got)
     \<and> (ph = Fin_sent \<or> ph = Done \<longrightarrow> 0 < n \<and> n \<le> length bs)"

definition listening ::
  "('e, 'b) libevent \<Rightarrow> 'c md5 \<Rightarrow> resources \<Rightarrow> parameter \<Rightarrow> char list \<Rightarrow> log_event list \<Rightarrow> ('e, 'b) session \<Rightarrow> bool" where
  "listening L M R p bs l s \<longleftrightarrow> env_ok L M R p bs \<and> (\<exists>ph n. phase_inv L M p bs ph s
     \<and> logs (sv_world (srv s)) = l @ heard p bs ph n \<and> pieces_ok bs ph n (length (in_bytes L (sbev s))))"

lemma listeningI:
  "env_ok L M R p bs \<Longrightarrow> phase_inv L M p bs ph s \<Longrightarrow> logs (sv_world (srv s)) = l @ heard p bs ph n
     \<Longrightarrow> pieces_ok bs ph n (length (in_bytes L (sbev s))) \<Longrightarrow> listening L M R p bs l s"
  unfolding listening_def by blast

lemma listening_request:
  assumes "listening L M R p bs l s" and "out_bytes L (sbev s) \<noteq> []" and "wf_fileinfo junk"
    and t: "client_input L M R (length (out_bytes L (sbev s))) junk s = Inr t"
  shows "listening L M R p bs l t"
proof -
  obtain ph n where env: "env_ok L M R p bs" and ph: "phase_inv L M p bs ph s"
    and l: "logs (sv_world (srv s)) = l @ heard p bs ph n"
    and ok: "pieces_ok bs ph n (length (in_bytes L (sbev s)))"
    using assms(1) unfolding listening_def by blast
  note same = client_input_server [OF env_okD(1) [OF env] t]
  from env ph assms(2-4) show ?thesis
  proof (cases rule: request_next)
    case head
    then show ?thesis
      using l by (intro listeningI [OF env head(2), of _ 0]) (simp_all add: same pieces_ok_def)
  next
    case data
    then show ?thesis
      using l by (intro listeningI [OF env data(2), of _ 0]) (simp_all add: same pieces_ok_def)
  next
    case fin
    then show ?thesis
      using l ok by (intro listeningI [OF env fin(2), of _ n]) (simp_all add: same pieces_ok_def)
  qed
qed

lemma listening_reply:
  assumes "listening L M R p bs l s" and k: "0 < k" "k \<le> length (out_bytes L (cbev s))"
      "Status (srv s) = HEAD \<longrightarrow> k = length (out_bytes L (cbev s))"
    and t: "server_input L M R k (frame s) s = Some (Inr t)"
  shows "listening L M R p bs l t"
proof -
  obtain ph n where env: "env_ok L M R p bs" and ph: "phase_inv L M p bs ph s"
    and l: "logs (sv_world (srv s)) = l @ heard p bs ph n"
    and ok: "pieces_ok bs ph n (length (in_bytes L (sbev s)))"
    using assms(1) unfolding listening_def by blast
  from env ph assms(2-5) show ?thesis
  proof (cases rule: reply_next)
    case head
    then show ?thesis
      using l by (intro listeningI [OF env head(2), of _ 0]) (simp_all add: pieces_ok_def head_heard_def)
  next
    case last
    then have "n < length bs"
      using ok k(1,2) streaming_length [OF ph [unfolded last(1)]] by (simp add: pieces_ok_def)
    then show ?thesis
      using l last
      by (intro listeningI [OF env last(2), of _ "Suc n"])
        (simp_all add: pieces_ok_def all_heard_def replicate_append_same [symmetric])
  next
    case more
    have "length (in_bytes L (sbev s)) < length (in_bytes L (sbev t))"
      using streaming_length [OF ph [unfolded more(1)]] streaming_length [OF more(2)] more(4) k(1,2) by linarith
    then show ?thesis
      using l more(1,5) ok
      by (intro listeningI [OF env more(2), of _ "Suc n"])
        (simp_all add: pieces_ok_def replicate_append_same [symmetric])
  qed
qed

interpretation heard: transition_system
    "\<lambda>s. session_init L M R p bs s \<and> logs (sv_world (srv s)) = l" "transfer_step L M R" "listening L M R p bs l"
  for L :: "('e, 'b) libevent" and M :: "'c md5" and R :: resources and p :: parameter
    and bs :: "char list" and l :: "log_event list"
proof
  fix s :: "('e, 'b) session"
  assume "session_init L M R p bs s \<and> logs (sv_world (srv s)) = l"
  then show "listening L M R p bs l s"
    using init_phase [of L M R p bs s]
    by (intro listeningI [of _ _ _ _ _ Ask_head _ _ 0]) (simp_all add: session_init_def pieces_ok_def)
next
  fix s t :: "('e, 'b) session"
  assume inv: "listening L M R p bs l s" and "transfer_step L M R s t"
  from this(2) show "listening L M R p bs l t"
    by cases (use listening_request [OF inv] listening_reply [OF inv] in blast)+
qed

lemma server_events:
  assumes "session_init L M R p bs s" and "(transfer_step L M R)\<^sup>*\<^sup>* s t" and "delivered L p bs t"
  shows "\<exists>n. 0 < n \<and> n \<le> length bs \<and> new_events (sv_world (srv s)) (sv_world (srv t)) = all_heard p bs n"
proof -
  have "listening L M R p bs (logs (sv_world (srv s))) t"
    using heard.reach_inv [OF _ assms(2)] assms(1) by blast
  then obtain ph n where ph: "phase_inv L M p bs ph t" and
      "logs (sv_world (srv t)) = logs (sv_world (srv s)) @ heard p bs ph n"
      "pieces_ok bs ph n (length (in_bytes L (sbev t)))"
    unfolding listening_def by blast
  moreover have "ph = Done"
    using delivered_phase [OF ph assms(3)] .
  ultimately show ?thesis
    by (auto simp: new_events_def pieces_ok_def)
qed

section \<open>Which lines fit\<close>

lemma stamped_all: "(\<And>i e. e \<in> set es \<Longrightarrow> P (ts i, e)) \<Longrightarrow> list_all P (stamped ts es)"
  by (auto simp: stamped_def list_all_iff set_zip)

lemma length_show_size: "n < 2 ^ 64 \<Longrightarrow> length (show_nat n) \<le> 20"
  by (rule length_show_nat_le) simp_all

text \<open>All of these events fit their lines but, perhaps, the one with the name.\<close>

lemma client_events_fit:
  assumes "length (getDateString t) = 21"
  shows "r \<in> {HEAD, DATA, FIN} \<Longrightarrow> event_fits wrap errno (t, RequestLine (request_name r))"
    and "event_fits wrap errno (t, SendInfo)" and "event_fits wrap errno (t, SendFile)"
    and "event_fits wrap errno (t, CheckSize sizeof_fileinfo)"
    and "n < 2 ^ 64 \<Longrightarrow> event_fits wrap errno (t, FileLength n)"
    and "n < 2 ^ 64 \<Longrightarrow> length name < 256
       \<Longrightarrow> wrap \<longrightarrow> length name + length (show_nat n) \<le> 25
       \<Longrightarrow> event_fits wrap errno (t, SentInfo name (of_nat n))"
  using assms length_show_size [of n] length_show_size [of sizeof_fileinfo]
  by (auto simp: event_fits_def message_defs sizeof_fileinfo_def unat_of_nat)

lemma server_events_fit:
  assumes "length (getDateString t) = 21"
  shows "event_fits wrap errno (t, RecvSize sizeof_fileinfo)" and "event_fits wrap errno (t, RecvFile)"
    and "event_fits wrap errno (t, PrepareWrite)" and "event_fits wrap errno (t, WriteResult 0)"
    and "event_fits wrap errno (t, WriteDone)"
    and "n < 2 ^ 64 \<Longrightarrow> length name < 256
       \<Longrightarrow> wrap \<longrightarrow> length name + length (show_nat n) \<le> 30
       \<Longrightarrow> event_fits wrap errno (t, RecvInfo name (of_nat n))"
  using assms length_show_size [of n] length_show_size [of sizeof_fileinfo] length_show_size [of 0]
  by (auto simp: event_fits_def message_defs sizeof_fileinfo_def unat_of_nat show_int_def)

lemma no_newline_show_nat [simp]: "NL \<notin> set (show_nat n)"
  using show_nat_digits [of n] by (auto simp: list_all_iff is_digit_def)

lemma sent_info_body:
  "\<exists>body. vformat sent_info_msg [FStr name, FNat n] = Inr body
     \<and> length body = length name + length (show_nat n) + 24
     \<and> (no_nul name \<longrightarrow> no_nul body) \<and> (NL \<notin> set name \<longrightarrow> NL \<notin> set body)"
  by (simp add: sent_info_msg_def)

lemma recv_info_body:
  "\<exists>pre. vformat recv_info_msg [FStr name, FNat n] = Inr (pre @ [NL])
     \<and> length pre = length name + length (show_nat n) + 18
     \<and> (no_nul name \<longrightarrow> no_nul pre) \<and> (NL \<notin> set name \<longrightarrow> NL \<notin> set pre)"
  by (rule exI [of _ "(case vformat recv_info_msg [FStr name, FNat n] of Inl _ \<Rightarrow> [] | Inr b \<Rightarrow> butlast b)"])
    (simp add: recv_info_msg_def butlast_append)

lemma debug_level: "SIMPLOG_DEBUG \<le> d \<Longrightarrow> level_name SIMPLOG_DEBUG d = Some (COL_DEBUG, ''DEBUG : '', True)"
  by (simp add: level_name_def)

lemma say_sent_info_faults:
  assumes "log_ready g" and "lineWrap g" and "SIMPLOG_DEBUG \<le> dbgLevel g"
    and "length (getDateString t) = 21" and "no_nul name" and "NL \<notin> set name" and "n < 2 ^ 64"
    and "25 < length name + length (show_nat n)" and "length name + length (show_nat n) < 75"
  shows "say (SentInfo name (of_nat n)) (g\<lparr>lg_time := t\<rparr>) = Inl NullPointer"
proof -
  obtain body where b: "vformat sent_info_msg [FStr name, FNat n] = Inr body"
      "length body = length name + length (show_nat n) + 24" "no_nul body" "NL \<notin> set body"
    using sent_info_body assms(5,6) by blast
  have "writeLog SIMPLOG_DEBUG sent_info_msg [FStr name, FNat n] (g\<lparr>lg_time := t\<rparr>) = Inl NullPointer"
    using assms b by (intro writeLog_wrap_faults [OF _ _ _ _ b(1)])
      (auto simp: debug_level dest: in_set_takeD)
  then show ?thesis
    using assms(7) by (simp add: say_def unat_of_nat)
qed

lemma say_recv_info_faults:
  assumes "log_ready g" and "lineWrap g" and "SIMPLOG_DEBUG \<le> dbgLevel g"
    and "length (getDateString t) = 21" and "no_nul name" and "NL \<notin> set name"
    and "31 < length name + length (show_nat (unat n))" and "length name + length (show_nat (unat n)) < 80"
  shows "say (RecvInfo name n) (g\<lparr>lg_time := t\<rparr>) = Inl NullPointer"
proof -
  obtain pre where b: "vformat recv_info_msg [FStr name, FNat (unat n)] = Inr (pre @ [NL])"
      "length pre = length name + length (show_nat (unat n)) + 18" "no_nul pre" "NL \<notin> set pre"
    using recv_info_body assms(5,6) by blast
  have "writeLog SIMPLOG_DEBUG recv_info_msg [FStr name, FNat (unat n)] (g\<lparr>lg_time := t\<rparr>) = Inl NullPointer"
    using assms b by (intro writeLog_wrap_faults [OF _ _ _ _ b(1)])
      (auto simp: debug_level dest: in_set_takeD)
  then show ?thesis
    by (simp add: say_def)
qed

lemma say_all_fits:
  assumes "log_ready g" and "event_fits (lineWrap g) (lg_errno g) (t, e)"
  shows "\<exists>u. say e (g\<lparr>lg_time := t\<rparr>) = Inr u \<and> log_ready u \<and> lineWrap u = lineWrap g
    \<and> lg_errno u = lg_errno g \<and> dbgLevel u = dbgLevel g"
  using say_said [OF assms] by (auto simp: said_def same_settings_def)

section \<open>A full disk\<close>

lemma say_fatal_fails: "lg_errno g \<noteq> 0 \<Longrightarrow> failed (say WriteFileError g)"
  using writeLog_errno_fails [of SIMPLOG_FATAL g] by (auto simp: say_def)

lemma say_server_disk_full: "WriteFileError \<in> set (map snd es) \<Longrightarrow> failed (say_server we es g)"
proof (induction es arbitrary: we g)
  case Nil
  then show ?case by simp
next
  case (Cons x es)
  obtain t e where x: "x = (t, e)"
    by fastforce
  show ?case
  proof (cases "e = WriteFileError")
    case True
    have "failed (say e (g\<lparr>lg_time := t, lg_errno := ENOSPC\<rparr>))"
      unfolding True by (intro say_fatal_fails) (simp add: ENOSPC_def)
    then show ?thesis
      using True by (cases "say e (g\<lparr>lg_time := t, lg_errno := ENOSPC\<rparr>)") (auto simp: x)
  next
    case False
    then have "failed (say_server v es h)" for v h
      using Cons x by simp
    then show ?thesis
      using False
      by (cases "say e (g\<lparr>lg_time := t\<rparr>)"; cases "say e (g\<lparr>lg_time := t, lg_errno := we\<rparr>)") (auto simp: x)
  qed
qed

text \<open>Data that does not fit on the disk is reported at the end of \<open>writefile\<close>.\<close>

lemma read_data_reports:
  assumes L: "libevent_ok L" and M: "md5_ok M"
    and len: "length (in_bytes L bev) < 2 ^ 64" and "fi_size f = of_nat (length (in_bytes L bev))"
    and "NUL \<in> set (fi_name f)" and "creatable (sv_world s) (base (cstr (fi_name f)))"
    and "can_thread res" and "can_alloc res"
    and full: "room_for (sv_world s) (base (cstr (fi_name f))) < length (in_bytes L bev)"
  shows "\<exists>t bev' f'. read_data L M res s bev f = Some (Inr (t, bev', f'))
    \<and> WriteFileError \<in> set (new_events (sv_world s) (sv_world t))"
proof -
  let ?w = "log PrepareWrite (log RecvFile (sv_world s))"
  let ?r = "room_for (sv_world s) (base (cstr (fi_name f)))"
  have evlen: "ev_length L (bev_get_input L bev) = length (in_bytes L bev)"
    using evbuffer_laws(3) [OF libevent_evbuffer [OF L]] by (simp add: in_bytes_def)
  obtain name' buf' ctx w3 where wf: "writefile L M ?w f (bev_get_input L bev) (can_alloc res)
      = Some (Inr (finish_write M (f\<lparr>fi_name := name'\<rparr>) (length (in_bytes L bev))
          (w3, buf', ctx, of_nat ?r)))"
    and w3: "logs w3 = logs (sv_world s) @ [RecvFile, PrepareWrite]"
    using writefile_result [OF L M assms(5) refl, of ?w "can_alloc res" "bev_get_input L bev"] assms(6,8) full
    by (auto simp: in_bytes_def min_def)
  have "(of_nat ?r :: 64 word) \<noteq> of_nat (length (in_bytes L bev))"
    using full len by (simp add: of_nat_64_eq)
  then have "\<exists>t bev' f'. read_data L M res s bev f = Some (Inr (t, bev', f'))
      \<and> (\<exists>more. logs (sv_world t) = logs (sv_world s) @ RecvFile # PrepareWrite # WriteFileError # more)"
    using assms(4,7) w3 by (auto simp: read_data_def evlen wf finish_write_def Let_def)
  then show ?thesis
    by (fastforce simp: new_events_def)
qed

section \<open>Properties\<close>

lemma hello_digits: "length (show_nat (Suc (Suc (Suc (Suc (Suc 0)))))) = 1"
  by (subst show_nat_rec) simp

lemma sample_ready: "log_ready sample_logger"
  by (simp add: log_ready_def)

text \<open>C18. With the settings it starts with (everything is logged, lines are wrapped), the client
  does not survive announcing most files: when the name and the digits of the size have
  between 26 and 74 characters together, the line with the name is of a length that
  \<open>wrapLines\<close> cannot handle, and its answer to the request for the header ends in a null
  pointer. Without the logger the same callback sends the header.\<close>

theorem client_log_faults:
  assumes "libevent_ok L" and "md5_ok M" and "in_bytes L bev = request_bytes HEAD"
    and "length (cl_str c) = 5" and "para_ok (cl_para c)" and "wf_fileinfo junk"
    and "can_thread res" and "can_alloc res"
    and "files (cl_world c) (cstr (infile (cl_para c))) = Some bs" and "length bs < 2 ^ 64"
    and "log_ready g" and "\<And>i. length (getDateString (ts i)) = 21"
    and "lineWrap g" and "SIMPLOG_DEBUG \<le> dbgLevel g" and "NL \<notin> set (cstr (outfile (cl_para c)))"
    and "25 < length (cstr (outfile (cl_para c))) + length (show_nat (length bs))"
    and "length (cstr (outfile (cl_para c))) + length (show_nat (length bs)) < 75"
  shows "cli_read_logged L M res ts c g bev junk = Inl NullPointer
    \<and> (\<exists>x. cli_read_cb L M res c bev junk = Inr x)"
proof -
  let ?name = "cstr (outfile (cl_para c))"
  obtain c1 bev1 where c1: "cl_status c1 = request_value HEAD" "cl_para c1 = cl_para c"
      "files (cl_world c1) = files (cl_world c)"
      "logs (cl_world c1) = logs (cl_world c) @ [RequestLine ''HEAD'']"
    and read: "cli_read_cb L M res c bev junk = cli_write_cb L M res c1 bev1 junk"
    using cli_read_request [OF assms(1,3,4), of M res junk] by auto
  obtain c2 f where send: "send_head L M res c1 bev1 junk = Inr (c2, bev_write L bev1 (image f))"
    and logs2: "logs (cl_world c2) = logs (cl_world c1)
        @ [SendInfo, SentInfo ?name (of_nat (length bs)), CheckSize sizeof_fileinfo]"
    using send_head_result [OF assms(1,2), of c1 junk res bs bev1] assms(5-9) c1 by metis
  have cb: "cli_read_cb L M res c bev junk = Inr (c2, bev_write L bev1 (image f))"
    using read send c1(1) by (simp add: cli_write_cb_def)
  have new: "new_events (cl_world c) (cl_world c2) =
      [RequestLine ''HEAD'', SendInfo, SentInfo ?name (of_nat (length bs)), CheckSize sizeof_fileinfo]"
    using logs2 c1(4) by (simp add: new_events_def)
  obtain u where u: "say (RequestLine ''HEAD'') (g\<lparr>lg_time := ts 0\<rparr>) = Inr u" "log_ready u"
      "lineWrap u = lineWrap g" "lg_errno u = lg_errno g" "dbgLevel u = dbgLevel g"
    using say_all_fits [OF assms(11) client_events_fit(1) [OF assms(12), of HEAD]] by auto
  obtain v where v: "say SendInfo (u\<lparr>lg_time := ts (Suc 0)\<rparr>) = Inr v" "log_ready v"
      "lineWrap v = lineWrap g" "dbgLevel v = dbgLevel g"
    using say_all_fits [OF u(2) client_events_fit(2) [OF assms(12)]] u(3-5) by auto
  have "say (SentInfo ?name (of_nat (length bs))) (v\<lparr>lg_time := ts (Suc (Suc 0))\<rparr>) = Inl NullPointer"
    using assms(10,12-17) v(2-4) by (intro say_sent_info_faults) simp_all
  then show ?thesis
    using u(1) v(1) cb new by (simp add: cli_read_logged_def stamped_Cons)
qed

definition long_para :: parameter where
  "long_para = sample_para\<lparr>outfile := replicate 40 CHR ''x'' @ replicate 216 NUL\<rparr>"

lemma long_name: "cstr (outfile long_para) = replicate 40 CHR ''x''"
  unfolding long_para_def by (simp add: cstr_append_zeros)

theorem client_log_faults_witness:
  "cli_read_logged list_libevent head_md5 sample_res (\<lambda>i. sample_time) (client_start long_para sample_world)
       sample_logger (sample_bev (request_bytes HEAD)) (sample_header []) = Inl NullPointer
   \<and> (\<exists>x. cli_read_cb list_libevent head_md5 sample_res (client_start long_para sample_world)
           (sample_bev (request_bytes HEAD)) (sample_header []) = Inr x)"
proof (rule client_log_faults [where bs = "''hello''"])
  show "para_ok (cl_para (client_start long_para sample_world))"
    using sample_para_ok
    by (simp add: long_para_def client_start_def para_ok_def ok_state_def wf_parameter_def CFG_MAXLEN_def)
  show "files (cl_world (client_start long_para sample_world))
      (cstr (infile (cl_para (client_start long_para sample_world)))) = Some ''hello''"
    using sample_para_names(1) by (simp add: long_para_def client_start_def sample_world_def)
qed (simp_all add: list_libevent_ok head_md5_ok sample_res_def sample_ready sample_date client_start_def
    long_name hello_digits, simp add: sample_logger_def logger_start_def)

text \<open>C19. A server that logs everything and wraps lines is taken down by a name: any header whose
  name and digits of the size have between 32 and 79 characters together is decoded, and the
  message that reports it ends in a null pointer.\<close>

theorem server_log_faults:
  assumes "libevent_ok L" and "Status s = HEAD" and "in_bytes L bev = image f" and "wf_fileinfo f"
    and "NUL \<in> set (fi_name f)" and "NL \<notin> set (cstr (fi_name f))"
    and "log_ready g" and "\<And>i. length (getDateString (ts i)) = 21"
    and "lineWrap g" and "SIMPLOG_DEBUG \<le> dbgLevel g"
    and "31 < length (cstr (fi_name f)) + length (show_nat (unat (fi_size f)))"
    and "length (cstr (fi_name f)) + length (show_nat (unat (fi_size f))) < 80"
  shows "srv_read_logged L M res ts s g bev junk = Some (Inl NullPointer)
    \<and> (\<exists>x. srv_read_cb L M res s bev junk = Some (Inr x))"
proof -
  let ?w = "log (RecvInfo (cstr (fi_name f)) (fi_size f)) (log (RecvSize sizeof_fileinfo) (sv_world s))"
  obtain t bev' where cb: "srv_read_cb L M res s bev junk = Some (Inr (t, bev', f))" and t: "sv_world t = ?w"
    using read_head_image [OF assms(1,3-5), of s] assms(2) by (auto simp: srv_read_cb_def)
  have new: "new_events (sv_world s) (sv_world t) = [RecvSize sizeof_fileinfo, RecvInfo (cstr (fi_name f)) (fi_size f)]"
    using t by (simp add: new_events_def)
  have "event_fits wrap errno (ts 0, RecvSize sizeof_fileinfo)" for wrap errno
    using assms(8) length_show_size [of sizeof_fileinfo]
    by (simp add: event_fits_def recv_size_msg_def sizeof_fileinfo_def)
  then obtain u where u: "say (RecvSize sizeof_fileinfo) (g\<lparr>lg_time := ts 0\<rparr>) = Inr u" "log_ready u"
      "lineWrap u = lineWrap g" "dbgLevel u = dbgLevel g"
    using say_all_fits [OF assms(7)] by blast
  have "say (RecvInfo (cstr (fi_name f)) (fi_size f)) (u\<lparr>lg_time := ts (Suc 0)\<rparr>) = Inl NullPointer"
    using assms(6,8-12) u(2-4) by (intro say_recv_info_faults) simp_all
  then show ?thesis
    using u(1) cb new by (simp add: srv_read_logged_def stamped_Cons)
qed

theorem server_log_faults_witness:
  "srv_read_logged list_libevent head_md5 sample_res (\<lambda>i. sample_time)
       ((server_start sample_world)\<lparr>Status := HEAD\<rparr>) sample_logger
       (sample_bev (image (sample_header (replicate 40 CHR ''x'')))) (sample_header []) = Some (Inl NullPointer)
   \<and> (\<exists>x. srv_read_cb list_libevent head_md5 sample_res ((server_start sample_world)\<lparr>Status := HEAD\<rparr>)
           (sample_bev (image (sample_header (replicate 40 CHR ''x'')))) (sample_header []) = Some (Inr x))"
proof (rule server_log_faults)
  show "lineWrap sample_logger"
    by (simp add: sample_logger_def logger_start_def)
  have "cstr (fi_name (sample_header (replicate 40 CHR ''x''))) = replicate 40 CHR ''x''"
    "fi_size (sample_header (replicate 40 CHR ''x'')) = 0"
    by (simp_all add: sample_header_def cbuf)
  then show "NL \<notin> set (cstr (fi_name (sample_header (replicate 40 CHR ''x''))))"
    "31 < length (cstr (fi_name (sample_header (replicate 40 CHR ''x''))))
       + length (show_nat (unat (fi_size (sample_header (replicate 40 CHR ''x'')))))"
    "length (cstr (fi_name (sample_header (replicate 40 CHR ''x''))))
       + length (show_nat (unat (fi_size (sample_header (replicate 40 CHR ''x''))))) < 80"
    by (simp_all add: show_nat_rec [of 0])
qed (simp_all add: list_libevent_ok sample_ready sample_date)



end
