(* ===== verification/Logged_Transfer.thy ===== *)
theory Logged_Transfer
  imports Transcript
begin

text \<open>
  Whole transfers of the programs as they run, logger included: a callback runs, its messages
  go through \<open>writeLog\<close>, and a message that faults ends the program. The runs are those of
  \<open>transfer_step\<close>: the requests and the header arrive whole, and \<open>read_cb\<close> finds in its
  uninitialised \<open>finfo\<close> what its last call left there. The name must be short enough for the
  lines that hold it (\<open>names_fit\<close>); \<open>client_log_faults\<close> and \<open>server_log_faults\<close> say what happens
  beyond. Then no message faults, so that the theorems about the transfer, its refinement of
  the protocol and the server that takes one transfer after another hold of the programs with
  their logger, and the log files hold what they should. At the end: what the client answers to
  a second request for the data, and what the server makes of a digest that does not match.
\<close>

section \<open>Sessions with loggers\<close>

record ('e, 'b) logged_session =
  sess :: "('e, 'b) session"
  cl_log :: logger
  sv_log :: logger

definition client_input_logged ::
  "('e, 'b) libevent \<Rightarrow> 'c md5 \<Rightarrow> resources \<Rightarrow> (nat \<Rightarrow> log_time) \<Rightarrow> nat \<Rightarrow> fileinfo \<Rightarrow>
     ('e, 'b) logged_session \<Rightarrow> ('e, 'b) logged_session result" where
  "client_input_logged L M R ts k junk x =
     (let s = sess x;
          (d, sb) = bev_send L (sbev s) k;
          cb = bev_receive L (cbev s) d
      in rbind (cli_read_logged L M R ts (cli s) (cl_log x) cb junk)
           (\<lambda>(c, g, cb). Inr (x\<lparr>sess := s\<lparr>cli := c, sbev := sb, cbev := cb\<rparr>, cl_log := g\<rparr>)))"

definition server_input_logged ::
  "('e, 'b) libevent \<Rightarrow> 'c md5 \<Rightarrow> resources \<Rightarrow> (nat \<Rightarrow> log_time) \<Rightarrow> nat \<Rightarrow> fileinfo \<Rightarrow>
     ('e, 'b) logged_session \<Rightarrow> ('e, 'b) logged_session result option" where
  "server_input_logged L M R ts k slot x =
     (let s = sess x;
          (d, cb) = bev_send L (cbev s) k;
          sb = bev_receive L (sbev s) d
      in map_option
           (\<lambda>r. rbind r (\<lambda>(v, h, sb, f).
              Inr (x\<lparr>sess := s\<lparr>srv := v, sbev := sb, cbev := cb, frame := f\<rparr>, sv_log := h\<rparr>)))
           (srv_read_logged L M R ts (srv s) (sv_log x) sb slot))"

text \<open>The dates of the years 1000 to 9999.\<close>

definition dated :: "(nat \<Rightarrow> log_time) \<Rightarrow> bool" where
  "dated ts \<longleftrightarrow> (\<forall>i. length (getDateString (ts i)) = 21)"

text \<open>As in \<open>transfer_step\<close>, the requests and the header are delivered whole, and \<open>finfo\<close> is as
  the last call left it; a callback whose log call faults makes no step.\<close>

inductive logged_step ::
  "('e, 'b) libevent \<Rightarrow> 'c md5 \<Rightarrow> resources \<Rightarrow> ('e, 'b) logged_session \<Rightarrow> ('e, 'b) logged_session \<Rightarrow> bool"
  for L :: "('e, 'b) libevent" and M :: "'c md5" and R :: resources where
  request: "out_bytes L (sbev (sess x)) \<noteq> [] \<Longrightarrow> bev_enabled L (cbev (sess x)) EV_READ \<Longrightarrow>
     wf_fileinfo junk \<Longrightarrow> dated ts \<Longrightarrow>
     client_input_logged L M R ts (length (out_bytes L (sbev (sess x)))) junk x = Inr y \<Longrightarrow>
     logged_step L M R x y"
| reply: "0 < k \<Longrightarrow> k \<le> length (out_bytes L (cbev (sess x))) \<Longrightarrow>
     (Status (srv (sess x)) = HEAD \<longrightarrow> k = length (out_bytes L (cbev (sess x)))) \<Longrightarrow>
     bev_enabled L (sbev (sess x)) EV_READ \<Longrightarrow> dated ts \<Longrightarrow>
     server_input_logged L M R ts k (frame (sess x)) x = Some (Inr y) \<Longrightarrow> logged_step L M R x y"

text \<open>The lines with the name are the only ones that may be too long.\<close>

definition name_length :: "parameter \<Rightarrow> char list \<Rightarrow> nat" where
  "name_length p bs = length (cstr (outfile p)) + length (show_nat (length bs))"

definition names_fit :: "parameter \<Rightarrow> char list \<Rightarrow> ('e, 'b) logged_session \<Rightarrow> bool" where
  "names_fit p bs x \<longleftrightarrow> log_ready (cl_log x) \<and> log_ready (sv_log x)
     \<and> (lineWrap (cl_log x) \<longrightarrow> name_length p bs \<le> 25)
     \<and> (lineWrap (sv_log x) \<longrightarrow> name_length p bs \<le> 30)"

section \<open>A callback, then its messages\<close>

lemma client_input_logged_eq:
  "client_input_logged L M R ts k junk x =
     rbind (client_input L M R k junk (sess x)) (\<lambda>t.
       rbind (say_all (stamped ts (new_events (cl_world (cli (sess x))) (cl_world (cli t)))) (cl_log x))
         (\<lambda>g. Inr (x\<lparr>sess := t, cl_log := g\<rparr>)))"
  by (cases "cli_read_cb L M R (cli (sess x)) (bev_receive L (cbev (sess x)) (fst (bev_send L (sbev (sess x)) k))) junk")
    (auto simp: client_input_logged_def client_input_def cli_read_logged_def Let_def split: prod.splits
      simp: rbind_assoc)

lemma server_input_logged_eq:
  "server_input_logged L M R ts k slot x =
     map_option (\<lambda>r. rbind r (\<lambda>t.
       rbind (say_server 0 (stamped ts (new_events (sv_world (srv (sess x))) (sv_world (srv t)))) (sv_log x))
         (\<lambda>h. Inr (x\<lparr>sess := t, sv_log := h\<rparr>))))
       (server_input L M R k slot (sess x))"
proof -
  let ?r = "srv_read_cb L M R (srv (sess x)) (bev_receive L (sbev (sess x)) (fst (bev_send L (cbev (sess x)) k))) slot"
  consider "?r = None" | e where "?r = Some (Inl e)" | v b f where "?r = Some (Inr (v, b, f))"
    by (metis option.exhaust sum.exhaust prod_cases3)
  then show ?thesis
    by cases (simp_all add: server_input_logged_def server_input_def srv_read_logged_def Let_def case_prod_unfold
      rbind_assoc)
qed

lemma client_input_plain:
  assumes "client_input_logged L M R ts k junk x = Inr y"
  shows "client_input L M R k junk (sess x) = Inr (sess y)" and "sv_log y = sv_log x"
  using assms by (auto simp: client_input_logged_eq rbind_eq_Inr)

lemma server_input_plain:
  assumes "server_input_logged L M R ts k slot x = Some (Inr y)"
  shows "server_input L M R k slot (sess x) = Some (Inr (sess y))" and "cl_log y = cl_log x"
  using assms by (auto simp: server_input_logged_eq rbind_eq_Inr)

text \<open>A step with the logger is one without it.\<close>

lemma logged_step_plain: "logged_step L M R x y \<Longrightarrow> transfer_step L M R (sess x) (sess y)"
  by (induction rule: logged_step.induct)
    (auto intro: transfer_step.intros dest: client_input_plain(1) server_input_plain(1))

lemma logged_run_plain: "(logged_step L M R)\<^sup>*\<^sup>* x y \<Longrightarrow> (transfer_step L M R)\<^sup>*\<^sup>* (sess x) (sess y)"
  by (induction rule: rtranclp_induct) (auto intro: rtranclp.rtrancl_into_rtrancl logged_step_plain)

section \<open>The messages of a transfer are written\<close>

definition log_lines :: "logger \<Rightarrow> (log_time \<times> log_event) list \<Rightarrow> string" where
  "log_lines g xs = concat (map (event_line (dbgLevel g) (lg_errno g)) xs)"

text \<open>The events have been written, each at some time, and nothing else.\<close>

definition written :: "logger \<Rightarrow> log_event list \<Rightarrow> logger \<Rightarrow> bool" where
  "written g es h \<longleftrightarrow> (\<exists>xs. map snd xs = es \<and> said g (log_lines g xs) h)"

lemma written_trans: "written g es u \<Longrightarrow> written u ds v \<Longrightarrow> written g (es @ ds) v"
proof -
  assume "written g es u" and "written u ds v"
  then obtain xs ys where "map snd xs = es" "said g (log_lines g xs) u" "map snd ys = ds" "said u (log_lines u ys) v"
    by (auto simp: written_def)
  moreover from this have "log_lines u ys = log_lines g ys"
    by (simp add: log_lines_def said_def same_settings_def)
  ultimately show ?thesis
    unfolding written_def by (intro exI [of _ "xs @ ys"]) (auto simp: log_lines_def intro: said_trans)
qed

lemma written_refl: "log_ready g \<Longrightarrow> written g [] g"
  by (simp add: written_def log_lines_def said_def same_settings_def)

lemma written_ready: "written g es h \<Longrightarrow> log_ready h \<and> lineWrap h = lineWrap g"
  by (auto simp: written_def said_def same_settings_def)

lemma say_events:
  assumes "log_ready g" and "dated ts"
    and "\<And>t e. length (getDateString t) = 21 \<Longrightarrow> e \<in> set es \<Longrightarrow> event_fits (lineWrap g) (lg_errno g) (t, e)"
  shows "\<exists>h. say_all (stamped ts es) g = Inr h \<and> written g es h"
proof -
  have "list_all (event_fits (lineWrap g) (lg_errno g)) (stamped ts es)"
    using assms(2,3) by (intro stamped_all) (simp add: dated_def)
  then show ?thesis
    using say_all_said [OF assms(1)] stamped_events(1) [of ts es]
    unfolding written_def log_lines_def by metis
qed

lemma say_server_events:
  assumes "log_ready g" and "dated ts" and "list_all (\<lambda>e. worker_message e = None) es"
    and "\<And>t e. length (getDateString t) = 21 \<Longrightarrow> e \<in> set es \<Longrightarrow> event_fits (lineWrap g) (lg_errno g) (t, e)"
  shows "\<exists>h. say_server we (stamped ts es) g = Inr h \<and> written g es h"
proof -
  have "list_all (\<lambda>x. worker_message (snd x) = None) (stamped ts es)"
    using assms(3) by (intro stamped_all) (simp add: list_all_iff)
  then show ?thesis
    using say_events [OF assms(1,2,4)] by (simp add: say_server_loop)
qed

lemma request_logged:
  assumes env: "env_ok L M R p bs" and ph: "phase_inv L M p bs ph (sess x)" and fit: "names_fit p bs x"
    and out: "out_bytes L (sbev (sess x)) \<noteq> []" and junk: "wf_fileinfo junk" and ts: "dated ts"
    and t: "client_input L M R (length (out_bytes L (sbev (sess x)))) junk (sess x) = Inr t"
  obtains es g where "client_input_logged L M R ts (length (out_bytes L (sbev (sess x)))) junk x =
      Inr (x\<lparr>sess := t, cl_log := g\<rparr>)"
    and "logs (cl_world (cli t)) = logs (cl_world (cli (sess x))) @ es" and "written (cl_log x) es g"
proof -
  have p: "length bs < 2 ^ 64" "length (cstr (outfile p)) < 256"
    using env para_okD(4) [of p] by (simp_all add: env_ok_def MAXLEN_def)
  obtain es where es: "logs (cl_world (cli t)) = logs (cl_world (cli (sess x))) @ es"
    and ev: "set es \<subseteq> set (head_spoken p bs @ data_spoken bs @ [RequestLine ''FIN''])"
    by (rule request_next [OF env ph out junk t]) auto
  have "event_fits (lineWrap (cl_log x)) (lg_errno (cl_log x)) (d, e)"
    if "length (getDateString d) = 21" and "e \<in> set es" for d e
    using fit ev that(2) p client_events_fit [OF that(1)] client_events_fit(1) [OF that(1), of HEAD]
      client_events_fit(1) [OF that(1), of DATA] client_events_fit(1) [OF that(1), of FIN]
    by (auto simp: head_spoken_def data_spoken_def names_fit_def name_length_def)
  moreover have "log_ready (cl_log x)"
    using fit by (simp add: names_fit_def)
  ultimately obtain g where "say_all (stamped ts es) (cl_log x) = Inr g" "written (cl_log x) es g"
    using say_events [OF _ ts] by blast
  then show thesis
    using that [OF _ es] es t by (simp add: client_input_logged_eq new_events_def)
qed

lemma reply_logged:
  assumes env: "env_ok L M R p bs" and ph: "phase_inv L M p bs ph (sess x)" and fit: "names_fit p bs x"
    and k: "0 < k" "k \<le> length (out_bytes L (cbev (sess x)))"
      "Status (srv (sess x)) = HEAD \<longrightarrow> k = length (out_bytes L (cbev (sess x)))" and ts: "dated ts"
    and t: "server_input L M R k (frame (sess x)) (sess x) = Some (Inr t)"
  obtains es h where "server_input_logged L M R ts k (frame (sess x)) x =
      Some (Inr (x\<lparr>sess := t, sv_log := h\<rparr>))"
    and "logs (sv_world (srv t)) = logs (sv_world (srv (sess x))) @ es" and "written (sv_log x) es h"
proof -
  have p: "length bs < 2 ^ 64" "length (cstr (outfile p)) < 256"
    using env para_okD(4) [of p] by (simp_all add: env_ok_def MAXLEN_def)
  obtain es where es: "logs (sv_world (srv t)) = logs (sv_world (srv (sess x))) @ es"
    and ev: "set es \<subseteq> set (head_heard p bs @ [RecvFile, PrepareWrite, WriteResult 0, WriteDone])"
    by (rule reply_next [OF env ph k t]) (auto simp: head_heard_def)
  have "event_fits (lineWrap (sv_log x)) (lg_errno (sv_log x)) (d, e)"
    if "length (getDateString d) = 21" and "e \<in> set es" for d e
    using fit ev that(2) p server_events_fit [OF that(1)]
    by (auto simp: head_heard_def names_fit_def name_length_def)
  moreover have "list_all (\<lambda>e. worker_message e = None) es"
    using ev by (auto simp: head_heard_def list_all_iff)
  moreover have "log_ready (sv_log x)"
    using fit by (simp add: names_fit_def)
  ultimately obtain h where "say_server 0 (stamped ts es) (sv_log x) = Inr h" "written (sv_log x) es h"
    using say_server_events [OF _ ts] by blast
  then show thesis
    using that [OF _ es] es t by (simp add: server_input_logged_eq new_events_def)
qed

section \<open>The transfer as a terminating system\<close>

definition logged_inv ::
  "('e, 'b) libevent \<Rightarrow> 'c md5 \<Rightarrow> resources \<Rightarrow> parameter \<Rightarrow> char list \<Rightarrow> ('e, 'b) logged_session \<Rightarrow> bool"
  where
  "logged_inv L M R p bs x \<longleftrightarrow> session_inv L M R p bs (sess x) \<and> names_fit p bs x"

text \<open>What a run has added to the two logs is what it has added to the two log files.\<close>

definition logs_written :: "('e, 'b) logged_session \<Rightarrow> ('e, 'b) logged_session \<Rightarrow> bool" where
  "logs_written x y \<longleftrightarrow>
     (\<exists>es ds. logs (cl_world (cli (sess y))) = logs (cl_world (cli (sess x))) @ es
        \<and> written (cl_log x) es (cl_log y)
        \<and> logs (sv_world (srv (sess y))) = logs (sv_world (srv (sess x))) @ ds
        \<and> written (sv_log x) ds (sv_log y))"

lemma logs_written_trans: "logs_written x y \<Longrightarrow> logs_written y z \<Longrightarrow> logs_written x z"
  unfolding logs_written_def by (elim exE conjE) (auto intro: written_trans)

lemma logs_written_refl: "names_fit p bs x \<Longrightarrow> logs_written x x"
  by (auto simp: logs_written_def names_fit_def intro: written_refl)

lemma logs_written_fit: "logs_written x y \<Longrightarrow> names_fit p bs x \<Longrightarrow> names_fit p bs y"
  by (auto simp: logs_written_def names_fit_def dest: written_ready)

text \<open>A callback without a fault is one with the logger without a fault.\<close>

lemma request_logged_step:
  assumes inv: "logged_inv L M R p bs x" and out: "out_bytes L (sbev (sess x)) \<noteq> []"
    and junk: "wf_fileinfo junk" and ts: "dated ts"
    and t: "client_input L M R (length (out_bytes L (sbev (sess x)))) junk (sess x) = Inr t"
  shows "\<exists>y. client_input_logged L M R ts (length (out_bytes L (sbev (sess x)))) junk x = Inr y
    \<and> sess y = t \<and> logs_written x y"
proof -
  obtain ph where env: "env_ok L M R p bs" and ph: "phase_inv L M p bs ph (sess x)" and fit: "names_fit p bs x"
    using inv by (auto simp: logged_inv_def session_inv_def)
  obtain es g where "client_input_logged L M R ts (length (out_bytes L (sbev (sess x)))) junk x =
        Inr (x\<lparr>sess := t, cl_log := g\<rparr>)"
      "logs (cl_world (cli t)) = logs (cl_world (cli (sess x))) @ es" "written (cl_log x) es g"
    by (rule request_logged [OF env ph fit out junk ts t])
  moreover have "written (sv_log x) [] (sv_log x)"
    using fit by (simp add: names_fit_def written_refl)
  ultimately show ?thesis
    using client_input_srv [OF t] by (auto simp: logs_written_def)
qed

lemma reply_logged_step:
  assumes inv: "logged_inv L M R p bs x"
    and k: "0 < k" "k \<le> length (out_bytes L (cbev (sess x)))"
      "Status (srv (sess x)) = HEAD \<longrightarrow> k = length (out_bytes L (cbev (sess x)))" and ts: "dated ts"
    and t: "server_input L M R k (frame (sess x)) (sess x) = Some (Inr t)"
  shows "\<exists>y. server_input_logged L M R ts k (frame (sess x)) x = Some (Inr y)
    \<and> sess y = t \<and> logs_written x y"
proof -
  obtain ph where env: "env_ok L M R p bs" and ph: "phase_inv L M p bs ph (sess x)" and fit: "names_fit p bs x"
    using inv by (auto simp: logged_inv_def session_inv_def)
  obtain es h where "server_input_logged L M R ts k (frame (sess x)) x =
        Some (Inr (x\<lparr>sess := t, sv_log := h\<rparr>))"
      "logs (sv_world (srv t)) = logs (sv_world (srv (sess x))) @ es" "written (sv_log x) es h"
    by (rule reply_logged [OF env ph fit k ts t])
  moreover have "written (cl_log x) [] (cl_log x)"
    using fit by (simp add: names_fit_def written_refl)
  ultimately show ?thesis
    using server_input_cli [OF t] by (auto simp: logs_written_def)
qed

lemma logged_step_written:
  assumes inv: "logged_inv L M R p bs x" and step: "logged_step L M R x y"
  shows "logs_written x y"
  using step
proof cases
  case (request junk ts)
  then obtain z where "client_input_logged L M R ts (length (out_bytes L (sbev (sess x)))) junk x = Inr z"
      "logs_written x z"
    using request_logged_step [OF inv request(1,3,4) client_input_plain(1) [OF request(5)]] by blast
  then show ?thesis
    using request(5) by simp
next
  case (reply k ts)
  then obtain z where "server_input_logged L M R ts k (frame (sess x)) x = Some (Inr z)" "logs_written x z"
    using reply_logged_step [OF inv reply(1-3,5) server_input_plain(1) [OF reply(6)]] by blast
  then show ?thesis
    using reply(6) by simp
qed

lemma dated_sample: "dated (\<lambda>i. sample_time)"
  by (simp add: dated_def sample_date)

lemma logged_progress:
  assumes inv: "logged_inv L M R p bs x" and "transfer_step L M R (sess x) t"
  shows "\<exists>y. logged_step L M R x y"
  using assms(2)
proof cases
  case (request junk)
  then show ?thesis
    using request_logged_step [OF inv request(1,3) dated_sample request(4)] dated_sample
    by (blast intro: logged_step.request)
next
  case (reply k)
  then show ?thesis
    using reply_logged_step [OF inv reply(1-3) dated_sample reply(5)] dated_sample
    by (blast intro: logged_step.reply)
qed

interpretation lxfer: terminating_system
    "\<lambda>x. session_init L M R p bs (sess x) \<and> bs \<noteq> [] \<and> names_fit p bs x" "logged_step L M R"
    "logged_inv L M R p bs" "\<lambda>x. rank L bs (sess x)" "\<lambda>x. phase_inv L M p bs Done (sess x)"
  for L :: "('e, 'b) libevent" and M :: "'c md5" and R :: resources and p :: parameter
    and bs :: "char list"
proof
  fix x :: "('e, 'b) logged_session"
  assume "session_init L M R p bs (sess x) \<and> bs \<noteq> [] \<and> names_fit p bs x"
  then show "logged_inv L M R p bs x"
    using xfer.init_inv unfolding logged_inv_def by blast
next
  fix x y :: "('e, 'b) logged_session"
  assume inv: "logged_inv L M R p bs x" and step: "logged_step L M R x y"
  show "logged_inv L M R p bs y" and "rank L bs (sess y) < rank L bs (sess x)"
    using inv xfer.step_inv xfer.rank_step logged_step_plain [OF step]
      logs_written_fit [OF logged_step_written [OF inv step]] unfolding logged_inv_def by blast+
next
  fix x :: "('e, 'b) logged_session"
  assume inv: "logged_inv L M R p bs x" and "\<not> phase_inv L M p bs Done (sess x)"
  then show "\<exists>y. logged_step L M R x y"
    using xfer.progress logged_progress [OF inv] unfolding logged_inv_def by blast
qed

interpretation lrefining: simulation
    "\<lambda>x. session_init L M R p bs (sess x) \<and> bs \<noteq> [] \<and> names_fit p bs x" "logged_step L M R"
    "logged_inv L M R p bs" sess "transfer_step L M R"
  for L :: "('e, 'b) libevent" and M :: "'c md5" and R :: resources and p :: parameter
    and bs :: "char list"
  by unfold_locales (auto intro: logged_step_plain)

text \<open>What a run has written: the invariant of the runs that begin with \<open>x\<close>.\<close>

interpretation lwriting: transition_system
    "\<lambda>y. y = x \<and> session_init L M R p bs (sess x) \<and> bs \<noteq> [] \<and> names_fit p bs x" "logged_step L M R"
    "\<lambda>y. logged_inv L M R p bs y \<and> logs_written x y"
  for L :: "('e, 'b) libevent" and M :: "'c md5" and R :: resources and p :: parameter
    and bs :: "char list" and x :: "('e, 'b) logged_session"
proof
  fix y :: "('e, 'b) logged_session"
  assume "y = x \<and> session_init L M R p bs (sess x) \<and> bs \<noteq> [] \<and> names_fit p bs x"
  then show "logged_inv L M R p bs y \<and> logs_written x y"
    using lxfer.init_inv [of L M R p bs x] logs_written_refl [of p bs x] by simp
next
  fix y z :: "('e, 'b) logged_session"
  assume inv: "logged_inv L M R p bs y \<and> logs_written x y" and step: "logged_step L M R y z"
  then show "logged_inv L M R p bs z \<and> logs_written x z"
    using lxfer.step_inv [OF _ step] logged_step_written [OF _ step] logs_written_trans [of x y z] by blast
qed

section \<open>One transfer after another\<close>

text \<open>A client, with its settings and its own world, and the file it sends.\<close>

type_synonym job = "parameter \<times> world"

definition content :: "job \<Rightarrow> char list" where
  "content = (\<lambda>(p, w). file_bytes w (cstr (infile p)))"

text \<open>\<open>listen_cb\<close> and \<open>event_cb\<close> of the server with the logger.\<close>

definition srv_listen_logged ::
  "('e, 'b) libevent \<Rightarrow> (nat \<Rightarrow> log_time) \<Rightarrow> server \<Rightarrow> logger \<Rightarrow> int \<Rightarrow> (server \<times> logger \<times> 'b) result" where
  "srv_listen_logged L ts v h fd =
     rbind (srv_listen_cb L v fd) (\<lambda>(v', b).
       rbind (say_server 0 (stamped ts (new_events (sv_world v) (sv_world v'))) h)
         (\<lambda>h'. Inr (v', h', b)))"

definition srv_event_logged ::
  "(nat \<Rightarrow> log_time) \<Rightarrow> server \<Rightarrow> logger \<Rightarrow> nat \<Rightarrow> bev_event set \<Rightarrow> (server \<times> logger) result" where
  "srv_event_logged ts v h fd events =
     (let v' = srv_event_cb v fd events
      in rbind (say_server 0 (stamped ts (new_events (sv_world v) (sv_world v'))) h)
           (\<lambda>h'. Inr (v', h')))"

text \<open>A server that accepts a client, lets it finish, perhaps hears of connections that end or
  break, with any \<open>errno\<close>, and accepts another, all with one logger; each client has its own.
  The slot \<open>junk\<close> of the server's stack holds anything at first.\<close>

inductive served ::
  "('e, 'b) libevent \<Rightarrow> 'c md5 \<Rightarrow> resources \<Rightarrow> server \<Rightarrow> logger \<Rightarrow> (job \<times> logger) list \<Rightarrow>
     server \<Rightarrow> logger \<Rightarrow> bool"
  for L :: "('e, 'b) libevent" and M :: "'c md5" and R :: resources where
  rest: "served L M R v h [] v h"
| event: "srv_event_logged ts v (h\<lparr>lg_errno := e\<rparr>) fd events = Inr (v1, h1) \<Longrightarrow>
     served L M R v1 h1 js v' h' \<Longrightarrow> served L M R v h js v' h'"
| transfer: "dated ts \<Longrightarrow> srv_listen_logged L ts v h fd = Inr (v1, h1, b) \<Longrightarrow> bev_socket_new L cfd = Some cb \<Longrightarrow>
     x = \<lparr>sess = \<lparr>srv = v1, cli = client_start p w, sbev = b, cbev = cli_setup L cb, frame = junk\<rparr>,
          cl_log = g, sv_log = h1\<rparr> \<Longrightarrow>
     (logged_step L M R)\<^sup>*\<^sup>* x y \<Longrightarrow> delivered L p (content (p, w)) (sess y) \<Longrightarrow>
     served L M R (srv (sess y)) (sv_log y) js v' h' \<Longrightarrow> served L M R v h (((p, w), g) # js) v' h'"

text \<open>What it is meant to come to, if every file has a name the server can create, fits on the
  disk the ones before have left, and is not empty.\<close>

definition store_job :: "disk \<Rightarrow> job \<Rightarrow> disk" where
  "store_job d j = store_file (target (fst j)) (content j) d"

fun acceptable :: "disk \<Rightarrow> job list \<Rightarrow> bool" where
  "acceptable d [] \<longleftrightarrow> True"
| "acceptable d ((p, w) # js) \<longleftrightarrow> para_ok p \<and> content (p, w) \<noteq> [] \<and> length (content (p, w)) < 2 ^ 64
     \<and> d_creatable d (target p) \<and> length (content (p, w)) \<le> d_room_for d (target p)
     \<and> acceptable (store_job d (p, w)) js"

lemma content_file: "content (p, w) \<noteq> [] \<Longrightarrow> files w (cstr (infile p)) = Some (content (p, w))"
  by (simp add: content_def file_bytes_def split: option.splits)

lemma srv_event_disk [simp]: "disk_of (sv_world (srv_event_cb v fd events)) = disk_of (sv_world v)"
  by (simp add: srv_event_cb_def)

lemma srv_listen_accepts:
  "bev_socket_new L fd = Some b \<Longrightarrow> \<exists>v1 b'. srv_listen_cb L v fd = Inr (v1, b')"
  by (simp add: srv_listen_cb_def Let_def)

lemma served_init:
  assumes "libevent_ok L" and "md5_ok M" and "can_thread R" and "can_alloc R"
    and "srv_listen_cb L v fd = Inr (v1, b)" and "bev_socket_new L cfd = Some cb"
    and "acceptable (disk_of (sv_world v)) ((p, w) # js)"
    and "s = \<lparr>srv = v1, cli = client_start p w, sbev = b, cbev = cli_setup L cb, frame = junk\<rparr>"
  shows "session_init L M R p (content (p, w)) s" and "disk_of (sv_world (srv s)) = disk_of (sv_world v)"
proof -
  have w: "sv_world v1 = log BindEvents (sv_world v)"
    by (rule srv_listen_result(2) [OF assms(5,1)])
  then show "disk_of (sv_world (srv s)) = disk_of (sv_world v)"
    using assms(8) by simp
  have "files w (cstr (infile p)) = Some (content (p, w))"
    using assms(7) by (simp add: content_file)
  moreover have "server_ready p (content (p, w)) s"
    using assms(7,8) w by (simp add: server_ready_def room_for_def file_bytes_def)
  ultimately show "session_init L M R p (content (p, w)) s"
    using assms unfolding session_init_def by (auto simp: env_ok_def)
qed

text \<open>The names that can be logged, by a client with the logger \<open>g\<close> and the server.\<close>

definition loggable :: "logger \<Rightarrow> job \<times> logger \<Rightarrow> bool" where
  "loggable h = (\<lambda>((p, w), g). log_ready g \<and> (lineWrap g \<longrightarrow> name_length p (content (p, w)) \<le> 25)
     \<and> (lineWrap h \<longrightarrow> name_length p (content (p, w)) \<le> 30))"

lemma srv_listen_plain: "srv_listen_logged L ts v h fd = Inr (v1, h1, b) \<Longrightarrow> srv_listen_cb L v fd = Inr (v1, b)"
  by (auto simp: srv_listen_logged_def rbind_eq_Inr)

lemma srv_event_plain: "srv_event_logged ts v h fd events = Inr (v1, h1) \<Longrightarrow> v1 = srv_event_cb v fd events"
  by (auto simp: srv_event_logged_def rbind_eq_Inr Let_def)

lemma srv_listen_logged_accepts:
  assumes "libevent_ok L" and "bev_socket_new L fd = Some x" and "log_ready h"
  shows "\<exists>v1 h1 b. srv_listen_logged L (\<lambda>i. sample_time) v h fd = Inr (v1, h1, b)
    \<and> log_ready h1 \<and> lineWrap h1 = lineWrap h"
proof -
  obtain v1 b where v1: "srv_listen_cb L v fd = Inr (v1, b)"
    using srv_listen_accepts [OF assms(2)] by blast
  have "event_fits wrap errno (t, BindEvents)" if "length (getDateString t) = 21" for wrap errno t
    using that by (simp add: event_fits_def bind_events_msg_def)
  then obtain h1 where "say_server 0 (stamped (\<lambda>i. sample_time) [BindEvents]) h = Inr h1" "written h [BindEvents] h1"
    using say_server_events [OF assms(3) dated_sample, of "[BindEvents]" 0] by auto
  then show ?thesis
    using v1 srv_listen_result(2) [OF v1 assms(1)] written_ready
    by (auto simp: srv_listen_logged_def new_events_def)
qed

lemma served_disk:
  assumes "served L M R v h js v' h'" and "libevent_ok L" and "md5_ok M" and "can_thread R" and "can_alloc R"
    and "acceptable (disk_of (sv_world v)) (map fst js)"
  shows "disk_of (sv_world v') = foldl store_job (disk_of (sv_world v)) (map fst js)"
  using assms(1,6)
proof (induction rule: served.induct)
  case (event ts v h e fd events v1 h1 js v' h')
  then show ?case
    using srv_event_plain [OF event.hyps(1)] by simp
next
  case (transfer ts v h fd v1 h1 b cfd cb x p w junk g y js v' h')
  have ok: "acceptable (disk_of (sv_world v)) ((p, w) # map fst js)"
    using transfer.prems by simp
  note init = served_init [OF assms(2-5) srv_listen_plain [OF transfer.hyps(2)] transfer.hyps(3) ok refl]
  have "content (p, w) \<noteq> []"
    using ok by simp
  moreover have "Status (srv (sess y)) = FIN"
    using transfer.hyps(6) by (simp add: delivered_def)
  ultimately have "disk_of (sv_world (srv (sess y))) = store_job (disk_of (sv_world v)) (p, w)"
    using transfer_seen [OF init(1), of junk "sess y"] init(2) [of junk] logged_run_plain [OF transfer.hyps(5)]
      transfer.hyps(4) by (simp add: store_job_def)
  then show ?case
    using transfer.IH ok by simp
qed simp

lemma served_exists:
  assumes "libevent_ok L" and "md5_ok M" and "can_thread R" and "can_alloc R"
    and "bev_socket_new L fd = Some x" and "bev_socket_new L cfd = Some y"
    and "acceptable (disk_of (sv_world v)) (map fst js)" and "log_ready h" and "list_all (loggable h) js"
  shows "\<exists>v' h'. served L M R v h js v' h'"
  using assms(7-9)
proof (induction js arbitrary: v h)
  case Nil
  then show ?case
    by (blast intro: served.rest)
next
  case (Cons j js)
  obtain p w g where j: "j = ((p, w), g)"
    by (metis surj_pair)
  have ok: "acceptable (disk_of (sv_world v)) ((p, w) # map fst js)" and ne: "content (p, w) \<noteq> []"
    using Cons.prems(1) j by simp_all
  obtain v1 h1 b where v1: "srv_listen_logged L (\<lambda>i. sample_time) v h fd = Inr (v1, h1, b)"
      "log_ready h1" "lineWrap h1 = lineWrap h"
    using srv_listen_logged_accepts [OF assms(1,5) Cons.prems(2)] by blast
  let ?s = "\<lparr>srv = v1, cli = client_start p w, sbev = b, cbev = cli_setup L y, frame = undefined\<rparr>"
  let ?x = "\<lparr>sess = ?s, cl_log = g, sv_log = h1\<rparr>"
  note init = served_init [OF assms(1-4) srv_listen_plain [OF v1(1)] assms(6) ok refl, of undefined]
  have fit: "names_fit p (content (p, w)) ?x"
    using Cons.prems(3) v1(2,3) j by (simp add: names_fit_def loggable_def)
  have start: "session_init L M R p (content (p, w)) (sess ?x) \<and> content (p, w) \<noteq> []
      \<and> names_fit p (content (p, w)) ?x"
    using init(1) ne fit by simp
  obtain z where z: "(logged_step L M R)\<^sup>*\<^sup>* ?x z" "phase_inv L M p (content (p, w)) Done (sess z)"
    using lxfer.reaches_final [OF lxfer.init_inv [OF start]] by blast
  have "names_fit p (content (p, w)) z" "logs_written ?x z"
    using lxfer.reach_inv [OF start z(1)] lwriting.reach_inv [of ?x ?x L M R p "content (p, w)" z] start z(1)
    by (simp_all add: logged_inv_def)
  then have h: "log_ready (sv_log z)" "lineWrap (sv_log z) = lineWrap h"
    using v1(3) by (auto simp: names_fit_def logs_written_def dest: written_ready)
  have "disk_of (sv_world (srv (sess z))) = store_job (disk_of (sv_world v)) (p, w)"
    using transfer_seen [OF init(1) ne, of "sess z"] logged_run_plain [OF z(1)] z(2) init(2)
    by (simp add: store_job_def)
  moreover have "list_all (loggable (sv_log z)) js"
    using Cons.prems(3) h(2) by (simp add: loggable_def)
  ultimately obtain v' h' where "served L M R (srv (sess z)) (sv_log z) js v' h'"
    using Cons.IH [of "srv (sess z)" "sv_log z"] ok h(1) by auto
  then show ?case
    unfolding j using served.transfer [OF dated_sample v1(1) assms(6) refl z(1) done_delivered [OF z(2)]] by blast
qed

section \<open>Properties\<close>


definition sample_logged :: "(char list, list_bev) logged_session" where
  "sample_logged = \<lparr>sess = sample_session sample_world, cl_log = sample_logger, sv_log = sample_logger\<rparr>"

lemma sample_logged_ready:
  "session_init list_libevent head_md5 sample_res sample_para ''hello'' (sess sample_logged)"
  "names_fit sample_para ''hello'' sample_logged"
proof -
  show "session_init list_libevent head_md5 sample_res sample_para ''hello'' (sess sample_logged)"
    unfolding sample_logged_def logged_session.select_convs
    by (rule sample_session_init) (simp_all add: sample_world_def room_for_def file_bytes_def)
  have "cstr (outfile sample_para) = ''d/out''"
    by (simp add: sample_para_def cstr_def)
  then show "names_fit sample_para ''hello'' sample_logged"
    by (simp add: names_fit_def sample_logged_def sample_ready name_length_def hello_digits)
qed









definition second_world :: world where
  "second_world = sample_world\<lparr>files := [''in'' \<mapsto> ''again'']\<rparr>"




lemma client_data_logged:
  assumes L: "libevent_ok L" and "in_bytes L bev = request_bytes DATA" and "length (cl_str c) = 5"
    and "cl_buf c = Live e" and "length (ev_bytes L e) < 2 ^ 64" and "log_ready g" and "dated ts"
  obtains c1 g1 bev1 e1 where "cli_read_logged L M R ts c g bev junk = Inr (c1, g1, bev1)"
    and "out_bytes L bev1 = out_bytes L bev @ ev_bytes L e" and "in_bytes L bev1 = []"
    and "length (cl_str c1) = 5" and "cl_buf c1 = Live e1" and "ev_bytes L e1 = []" and "log_ready g1"
proof -
  obtain c' bev' where c': "length (cl_str c') = 5" "cl_status c' = request_value DATA" "cl_buf c' = Live e"
      "logs (cl_world c') = logs (cl_world c) @ [RequestLine ''DATA'']"
      "in_bytes L bev' = []" "out_bytes L bev' = out_bytes L bev"
    and cb: "cli_read_cb L M R c bev junk = cli_write_cb L M R c' bev' junk"
    using cli_read_request [OF assms(1-3), of M R junk] assms(4) by auto
  obtain b e1 where wb: "bev_write_buffer L bev' e = (b, e1)"
    by fastforce
  have b: "in_bytes L b = []" "out_bytes L b = out_bytes L bev @ ev_bytes L e" "ev_bytes L e1 = []"
    using bufferevent_io_laws(6-8) [OF L, of bev' e] c'(5,6) wb by auto
  have len: "ev_length L e = length (ev_bytes L e)"
    using evbuffer_laws(3) [OF libevent_evbuffer [OF L]] by simp
  let ?c = "c'\<lparr>cl_buf := Live e1, cl_world := log (FileLength (ev_length L e)) (log SendFile (cl_world c'))\<rparr>"
  have read: "cli_read_cb L M R c bev junk = Inr (?c, b)"
    using cb c'(2,3) wb by (simp add: cli_write_cb_def send_data_def Let_def)
  have new: "new_events (cl_world c) (cl_world ?c) = data_spoken (ev_bytes L e)"
    using c'(4) len by (simp add: new_events_def data_spoken_def)
  have "event_fits (lineWrap g) (lg_errno g) (t, x)"
    if "length (getDateString t) = 21" and "x \<in> set (data_spoken (ev_bytes L e))" for t x
    using that(2) client_events_fit [OF that(1)] client_events_fit(1) [OF that(1), of DATA] assms(5)
    by (auto simp: data_spoken_def)
  then obtain g1 where "say_all (stamped ts (data_spoken (ev_bytes L e))) g = Inr g1" "log_ready g1"
    using say_events [OF assms(6,7)] written_ready by blast
  then have "cli_read_logged L M R ts c g bev junk = Inr (?c, g1, b)"
    unfolding cli_read_logged_def read rbind.simps prod.case new by simp
  then show thesis
    using that b c'(1) \<open>log_ready g1\<close> by simp
qed

text \<open>The client sends the data once. A request for the data is answered with the bytes of the
  buffer, which empties it: a second request, which the server makes when it could not write
  the file, is answered with no byte at all, though the client's log speaks of a file sent.\<close>

lemma data_sent_once:
  assumes "libevent_ok L" and "in_bytes L bev = request_bytes DATA" and "length (cl_str c) = 5"
    and "cl_buf c = Live e" and "length (ev_bytes L e) < 2 ^ 64" and "log_ready g"
    and "dated ts" and "dated ts'"
  shows "\<exists>c1 g1 bev1 c2 g2 bev2. cli_read_logged L M R ts c g bev junk = Inr (c1, g1, bev1)
    \<and> out_bytes L bev1 = out_bytes L bev @ ev_bytes L e
    \<and> cli_read_logged L M R ts' c1 g1 (bev_receive L bev1 (request_bytes DATA)) junk' = Inr (c2, g2, bev2)
    \<and> out_bytes L bev2 = out_bytes L bev1"
proof -
  obtain c1 g1 bev1 e1 where 1: "cli_read_logged L M R ts c g bev junk = Inr (c1, g1, bev1)"
      "out_bytes L bev1 = out_bytes L bev @ ev_bytes L e" "in_bytes L bev1 = []"
      "length (cl_str c1) = 5" "cl_buf c1 = Live e1" "ev_bytes L e1 = []" "log_ready g1"
    by (rule client_data_logged [OF assms(1-7)])
  let ?b = "bev_receive L bev1 (request_bytes DATA)"
  have b: "in_bytes L ?b = request_bytes DATA" "out_bytes L ?b = out_bytes L bev1"
    using 1(3) by (simp_all add: bufferevent_io_laws [OF assms(1)])
  have "length (ev_bytes L e1) < 2 ^ 64"
    using 1(6) by simp
  then obtain c2 g2 bev2 where "cli_read_logged L M R ts' c1 g1 ?b junk' = Inr (c2, g2, bev2)"
      "out_bytes L bev2 = out_bytes L ?b @ ev_bytes L e1"
    by (rule client_data_logged [OF assms(1) b(1) 1(4,5) _ 1(7) assms(8)])
  then show ?thesis
    using 1(1,2,6) b(2) by auto
qed

section \<open>A digest that does not match\<close>

lemma worker_fits:
  assumes "length (getDateString t) = 21"
  shows "event_fits wrap 0 (t, ContentIncorrect)" and "i < 16 \<Longrightarrow> event_fits wrap 0 (t, DigestByte i a b)"
proof -
  show "event_fits wrap 0 (t, ContentIncorrect)"
    using assms by (simp add: event_fits_def)
  have hex: "length (hex_text j) \<le> 8" for j
    unfolding hex_text_def by (rule length_show_hex) simp
  have "length (two_blanks (hex_text (of_char a))) \<le> 8"
    using hex [of "of_char a"] by (simp add: two_blanks_def)
  moreover assume "i < 16"
  then have "length (show_int (int i)) \<le> 2"
    using length_show_nat_le [of 2 i] by (simp add: show_int_def)
  ultimately show "event_fits wrap 0 (t, DigestByte i a b)"
    using assms hex [of "of_char b"] by (auto simp: event_fits_def digest_byte_msg_def)
qed

lemma worker_line: "worker_message (snd x) \<noteq> None \<Longrightarrow> event_line dbg n x = event_line dbg m x"
  by (cases x) (auto simp: event_line_def message_of_def)

lemma said_other_errno: "said (g\<lparr>lg_errno := 0\<rparr>) bs u \<Longrightarrow> lg_errno u = 0 \<and> said g bs (u\<lparr>lg_errno := lg_errno g\<rparr>)"
  by (auto simp: said_def log_ready_def same_settings_def settings_ok_def log_path_def log_bytes_def)

text \<open>The messages of a callback and of its worker, when all of them fit.\<close>

lemma say_server_said:
  assumes "log_ready g" and "\<And>x. x \<in> set xs \<Longrightarrow> if worker_message (snd x) = None then event_fits (lineWrap g) (lg_errno g) x
      else snd x \<noteq> WriteFileError \<and> event_fits (lineWrap g) 0 x"
  shows "\<exists>h. say_server 0 xs g = Inr h \<and> said g (log_lines g xs) h"
  using assms
proof (induction xs arbitrary: g)
  case Nil
  then show ?case
    by (simp add: said_def same_settings_def log_lines_def)
next
  case (Cons x xs)
  obtain t e where x: "x = (t, e)"
    by fastforce
  have fit: "if worker_message e = None then event_fits (lineWrap g) (lg_errno g) (t, e)
      else e \<noteq> WriteFileError \<and> event_fits (lineWrap g) 0 (t, e)"
    using Cons.prems(2) [OF list.set_intros(1)] unfolding x snd_conv .
  have "\<exists>u. said g (event_line (dbgLevel g) (lg_errno g) x) u \<and> say_server 0 (x # xs) g = say_server 0 xs u"
  proof (cases "worker_message e = None")
    case True
    then show ?thesis
      using say_said [OF Cons.prems(1), of t e] fit x by auto
  next
    case False
    have "log_ready (g\<lparr>lg_errno := 0\<rparr>)"
      using Cons.prems(1) by (simp add: log_ready_def settings_ok_def log_path_def)
    then obtain u where u: "say e (g\<lparr>lg_errno := 0, lg_time := t\<rparr>) = Inr u"
        "said (g\<lparr>lg_errno := 0\<rparr>) (event_line (dbgLevel g) 0 (t, e)) u"
      using say_said [of "g\<lparr>lg_errno := 0\<rparr>" t e] fit False by auto
    have same: "g\<lparr>lg_errno := 0, lg_time := t\<rparr> = g\<lparr>lg_time := t, lg_errno := 0\<rparr>"
      by simp
    show ?thesis
      using u(1) [unfolded same] False fit said_other_errno [OF u(2)] worker_line [of x "dbgLevel g" 0 "lg_errno g"] x by auto
  qed
  then obtain u where u: "said g (event_line (dbgLevel g) (lg_errno g) x) u"
      "say_server 0 (x # xs) g = say_server 0 xs u"
    by blast
  then have keep: "log_ready u" "lineWrap u = lineWrap g" "lg_errno u = lg_errno g" "dbgLevel u = dbgLevel g"
    by (simp_all add: said_def same_settings_def)
  have "\<exists>h. say_server 0 xs u = Inr h \<and> said u (log_lines u xs) h"
    by (rule Cons.IH [OF keep(1)], unfold keep(2,3)) (rule Cons.prems(2) [OF list.set_intros(2)])
  then obtain h where "say_server 0 xs u = Inr h" "said u (log_lines u xs) h"
    by blast
  then show ?case
    using u said_trans [OF u(1)] keep by (auto simp: log_lines_def)
qed

text \<open>What the server logs of data that fit on the disk but do not match their digest.\<close>

definition wrong_digest_logs :: "'c md5 \<Rightarrow> fileinfo \<Rightarrow> char list \<Rightarrow> log_event list" where
  "wrong_digest_logs M f bs = [RecvFile, PrepareWrite, ContentIncorrect]
     @ map (\<lambda>i. DigestByte i (fi_info f ! i) (md5_of M bs ! i)) [0..<16] @ [WriteResult 0, WriteDone]"

lemma read_data_wrong_digest:
  assumes L: "libevent_ok L" and M: "md5_ok M" and wf: "wf_fileinfo f"
    and len: "length (in_bytes L bev) < 2 ^ 64" and size: "fi_size f = of_nat (length (in_bytes L bev))"
    and "NUL \<in> set (fi_name f)" and "creatable (sv_world s) (base (cstr (fi_name f)))"
    and room: "length (in_bytes L bev) \<le> room_for (sv_world s) (base (cstr (fi_name f)))"
    and "can_thread res" and "can_alloc res" and bad: "fi_info f \<noteq> md5_of M (in_bytes L bev)"
  shows "\<exists>t bev' f'. read_data L M res s bev f = Some (Inr (t, bev', f'))
    \<and> new_events (sv_world s) (sv_world t) = wrong_digest_logs M f (in_bytes L bev)"
proof -
  let ?w = "log PrepareWrite (log RecvFile (sv_world s))"
  have evlen: "ev_length L (bev_get_input L bev) = length (in_bytes L bev)"
    using evbuffer_laws(3) [OF libevent_evbuffer [OF L]] by (simp add: in_bytes_def)
  obtain name' buf' ctx w3 where wr: "writefile L M ?w f (bev_get_input L bev) (can_alloc res)
      = Some (Inr (finish_write M (f\<lparr>fi_name := name'\<rparr>) (length (in_bytes L bev))
          (w3, buf', ctx, of_nat (length (in_bytes L bev)))))"
    and md: "md5_final M ctx = md5_of M (in_bytes L bev)"
    and w3: "logs w3 = logs (sv_world s) @ [RecvFile, PrepareWrite]"
    using writefile_result [OF L M assms(6) refl, of ?w "can_alloc res" "bev_get_input L bev"] assms(7,10) room
    by (auto simp: in_bytes_def)
  have "\<not> mem_eq (md5_final M ctx) (fi_info f) MD5_DIGEST_LENGTH"
    using bad wf length_md5_of [OF M, of "in_bytes L bev"] md
    by (auto simp: mem_eq_def wf_fileinfo_def MD5_DIGEST_LENGTH_def)
  then show ?thesis
    using size assms(9) w3
    by (simp add: read_data_def evlen wr finish_write_def Let_def new_events_def logs_log_digests md
        wrong_digest_logs_def MD5_DIGEST_LENGTH_def)
qed



end
