(* ===== verification/Echo.thy ===== *)
theory Echo
  imports Libevent World Logger Inet
begin

text \<open>
  \<^verbatim>\<open>c/echo_serv.c\<close>, a stand-alone program. It prints what it receives on its standard
  output, which is the state here, together with whether the loop has been asked to end.
\<close>

section \<open>The call-backs\<close>

record echo =
  ec_stdout :: "char list"
  ec_exit :: bool

definition echo_start :: echo where
  "echo_start = \<lparr>ec_stdout = [], ec_exit = False\<rparr>"

definition ec_print :: "char list \<Rightarrow> echo \<Rightarrow> echo" where
  "ec_print d s = s\<lparr>ec_stdout := ec_stdout s @ d\<rparr>"

definition echo_listen_cb :: "('e, 'b) libevent \<Rightarrow> int \<Rightarrow> 'b result" where
  "echo_listen_cb L listenfd =
     (case bev_socket_new L listenfd of
        None \<Rightarrow> Inl AssertFailed
      | Some bev \<Rightarrow>
          let bev = bev_setcb L bev Read_buffered_cb No_cb Event_cb
          in Inr (bev_enable L bev [EV_WRITE, EV_READ]))"

definition echo_read_cb :: "('e, 'b) libevent \<Rightarrow> echo \<Rightarrow> 'b \<Rightarrow> echo \<times> 'b" where
  "echo_read_cb L s bev = (let (d, bev) = bev_read L bev BUFSIZ in (ec_print d s, bev))"

text \<open>The result of \<open>evbuffer_remove\<close> is not checked: -1 is taken for a length.\<close>

definition echo_read_buffered_cb :: "('e, 'b) libevent \<Rightarrow> echo \<Rightarrow> 'b \<Rightarrow> (echo \<times> 'b) result" where
  "echo_read_buffered_cb L s bev =
     (let (n, buf) = ev_remove L (bev_get_input L bev) BUFSIZ;
          bev = bev_put_input L bev buf
      in case n of
           None \<Rightarrow> Inl OutOfBounds
         | Some data \<Rightarrow> Inr (ec_print data s, bev))"

definition echo_write_cb :: "echo \<Rightarrow> 'b \<Rightarrow> echo \<times> 'b" where
  "echo_write_cb s bev = (s, bev)"

text \<open>Whatever the event, the connection is given up.\<close>

definition echo_event_cb :: "echo \<Rightarrow> nat \<Rightarrow> nat \<Rightarrow> bev_event set \<Rightarrow> echo \<times> 'b pointer" where
  "echo_event_cb s errno fd events =
     (let s = (if BEV_EVENT_EOF \<in> events then ec_print (''['' @ show_nat fd @ '']Connection closed.'' @ [NL]) s
               else if BEV_EVENT_ERROR \<in> events
               then ec_print (''Got an error on the connection: '' @ strerror errno @ [NL]) s
               else s)
      in (s, Freed))"

definition echo_signal_cb :: "echo \<Rightarrow> echo" where
  "echo_signal_cb s = (ec_print (NL # ''exit...'' @ [NL]) s)\<lparr>ec_exit := True\<rparr>"

section \<open>main\<close>

definition ECHO_PORT :: "16 word" where
  "ECHO_PORT = 9000"

text \<open>
  Whether the base, the listener and the signal event can be made is given; \<open>added\<close> says
  what \<open>event_add\<close> would answer. The result is the value returned, the address and
  whether the signal event was added before the loop ran. The \<open>assert\<close> is a disjunction:
  with a signal event its second half, the call of \<open>event_add\<close>, is not evaluated, and
  without one it is called with a null pointer.
\<close>

definition echo_main ::
  "bool \<Rightarrow> (sockaddr_in \<Rightarrow> bool) \<Rightarrow> bool \<Rightarrow> bool \<Rightarrow> (int \<times> sockaddr_in \<times> bool) result" where
  "echo_main base bind signal_event added =
     (if \<not> base then Inl AssertFailed
      else
        let myAddr = \<lparr>sin_family = AF_INET, sin_port = htons ECHO_PORT, sin_addr = replicate 4 NUL\<rparr>
        in if \<not> bind myAddr then Inl AssertFailed
           else if \<not> signal_event then Inl NullPointer
           else Inr (0, myAddr, False))"

section \<open>A connection\<close>

text \<open>
  The peer sends bytes and the loop calls the reading call-back; the first component is
  all that was received.
\<close>

inductive echo_step ::
  "('e, 'b) libevent \<Rightarrow> char list \<times> echo \<times> 'b \<Rightarrow> char list \<times> echo \<times> 'b \<Rightarrow> bool" for L where
  deliver: "echo_read_buffered_cb L s (bev_receive L b d) = Inr (t, b') \<Longrightarrow>
     echo_step L (rcv, s, b) (rcv @ d, t, b')"

inductive_cases echo_stepE: "echo_step L (rcv, s, b) u"

definition echo_init :: "('e, 'b) libevent \<Rightarrow> char list \<times> echo \<times> 'b \<Rightarrow> bool" where
  "echo_init L = (\<lambda>(rcv, s, b). libevent_ok L \<and> rcv = [] \<and> s = echo_start
     \<and> (\<exists>fd. echo_listen_cb L fd = Inr b))"

definition echo_inv :: "('e, 'b) libevent \<Rightarrow> char list \<times> echo \<times> 'b \<Rightarrow> bool" where
  "echo_inv L = (\<lambda>(rcv, s, b). libevent_ok L \<and> ec_stdout s @ in_bytes L b = rcv
     \<and> out_bytes L b = [] \<and> ec_exit s = False)"

lemma echo_read_result:
  assumes "libevent_ok L"
  shows "\<exists>b'. echo_read_buffered_cb L s b = Inr (ec_print (take BUFSIZ (in_bytes L b)) s, b')
    \<and> in_bytes L b' = drop BUFSIZ (in_bytes L b) \<and> out_bytes L b' = out_bytes L b"
proof -
  note ev = evbuffer_laws [OF libevent_evbuffer [OF assms]]
  have "fst (ev_remove L (bev_get_input L b) BUFSIZ) = Some (take BUFSIZ (in_bytes L b))"
    by (simp add: ev in_bytes_def)
  moreover have "ev_bytes L (snd (ev_remove L (bev_get_input L b) BUFSIZ)) = drop BUFSIZ (in_bytes L b)"
    by (simp add: ev in_bytes_def)
  ultimately show ?thesis
    by (simp add: echo_read_buffered_cb_def Let_def case_prod_beta bufferevent_io_laws [OF assms])
qed

lemma echo_init_inv: "echo_init L u \<Longrightarrow> echo_inv L u"
  using bufferevent_setup_laws [of L]
  by (auto simp: echo_init_def echo_inv_def echo_listen_cb_def echo_start_def Let_def split: option.splits)

lemma echo_step_inv:
  assumes "echo_inv L u" and "echo_step L u v"
  shows "echo_inv L v"
proof -
  obtain rcv s b where u: "u = (rcv, s, b)"
    by (cases u)
  obtain d t b' where v: "v = (rcv @ d, t, b')" "echo_read_buffered_cb L s (bev_receive L b d) = Inr (t, b')"
    using assms(2) unfolding u by (elim echo_stepE)
  have L: "libevent_ok L"
    using assms(1) by (simp add: u echo_inv_def)
  let ?in = "in_bytes L b @ d"
  have rcv: "in_bytes L (bev_receive L b d) = ?in" "out_bytes L (bev_receive L b d) = out_bytes L b"
    by (simp_all add: bufferevent_io_laws [OF L])
  have t: "t = ec_print (take BUFSIZ ?in) s" "in_bytes L b' = drop BUFSIZ ?in" "out_bytes L b' = out_bytes L b"
    using v(2) echo_read_result [OF L, of s "bev_receive L b d"] unfolding rcv by simp_all
  have "ec_stdout t @ in_bytes L b' = ec_stdout s @ ?in"
    unfolding t(1,2) by (simp add: ec_print_def del: take_append drop_append)
  then show ?thesis
    using assms(1) t(3) by (simp add: u v(1) echo_inv_def) (simp add: t(1) ec_print_def)
qed

interpretation echo: transition_system "echo_init L" "echo_step L" "echo_inv L" for L
  by unfold_locales (rule echo_init_inv echo_step_inv, assumption+)+

section \<open>Properties\<close>

text \<open>C33. The echo server echoes nothing: in every state a connection can reach, what it has
  printed followed by what is still in the input is exactly what was received, in order, and
  nothing has been put in the output to the peer.\<close>

theorem echo_keeps_order:
  assumes "libevent_ok L" and "echo_listen_cb L fd = Inr b0"
    and "(echo_step L)\<^sup>*\<^sup>* ([], echo_start, b0) (rcv, s, b)"
  shows "ec_stdout s @ in_bytes L b = rcv \<and> out_bytes L b = []"
proof -
  have "echo_inv L (rcv, s, b)"
    using echo.reach_inv [of L, OF _ assms(3)] assms(1,2) by (auto simp: echo_init_def)
  then show ?thesis
    by (simp add: echo_inv_def)
qed

theorem echo_keeps_order_witness:
  "\<exists>b0 b. echo_listen_cb list_libevent 7 = Inr b0
     \<and> (echo_step list_libevent)\<^sup>*\<^sup>* ([], echo_start, b0) (''hello'', ec_print ''hello'' echo_start, b)
     \<and> ec_stdout (ec_print ''hello'' echo_start) @ in_bytes list_libevent b = ''hello''
     \<and> out_bytes list_libevent b = []"
proof -
  obtain b0 where b0: "echo_listen_cb list_libevent 7 = Inr b0" "in_bytes list_libevent b0 = []"
    by (simp add: echo_listen_cb_def list_libevent_def in_bytes_def ev_bytes_def)
  obtain b where b: "echo_read_buffered_cb list_libevent echo_start (bev_receive list_libevent b0 ''hello'')
      = Inr (ec_print ''hello'' echo_start, b)"
    using echo_read_result [OF list_libevent_ok, of echo_start "bev_receive list_libevent b0 ''hello''"] b0(2)
      bufferevent_io_laws(11) [OF list_libevent_ok] by (auto simp: BUFSIZ_def)
  have steps: "(echo_step list_libevent)\<^sup>*\<^sup>* ([], echo_start, b0) (''hello'', ec_print ''hello'' echo_start, b)"
    using deliver [OF b, of "[]"] by (simp add: r_into_rtranclp)
  then show ?thesis
    using b0(1) echo_keeps_order [OF list_libevent_ok b0(1) steps] by blast
qed

text \<open>The signal that should end the program is never waited for: the loop runs with the
  event made but not added, whatever \<open>event_add\<close> would have answered, and without the event
  its null pointer is passed to \<open>event_add\<close>.\<close>

lemma echo_signal_not_added:
  "echo_main True (\<lambda>a. True) signal_event added =
     (if signal_event
      then Inr (0, \<lparr>sin_family = AF_INET, sin_port = be_bytes 2 9000, sin_addr = replicate 4 NUL\<rparr>, False)
      else Inl NullPointer)"
  by (simp add: echo_main_def htons_def ECHO_PORT_def)

end
