(* ===== verification/Filetest.thy ===== *)
theory Filetest
  imports FileInfo Decimal Wrap
begin

text \<open>
  \<^verbatim>\<open>c/filetest.c\<close>, the test program of the header: it encodes a header, decodes it again
  and prints both digests. The result is what is on standard output. The two headers are
  locals, whose initial values are arguments, as is the content of \<open>data\<close>.
\<close>

section \<open>The program\<close>

definition print_digest :: "char list \<Rightarrow> string" where
  "print_digest d = concat (map (\<lambda>c. show_hex 97 (of_char c) []) d)"

text \<open>The last part, from the encoded header on, for a block of any size.\<close>

definition header_test_decode :: "fileinfo \<Rightarrow> char list \<Rightarrow> fileinfo \<Rightarrow> string \<Rightarrow> string result" where
  "header_test_decode info data test printed =
     rbind (encode data info) (\<lambda>(len, data).
     rbind (decode test data len) (\<lambda>test.
     rbind (read_str (fi_name test)) (\<lambda>name.
       Inr (printed @ ''name:'' @ name @ NL # ''size:'' @ show_nat (unat (fi_size test)) @ NL # ''info:''
            @ print_digest (take MD5_DIGEST_LENGTH (fi_info test))))))"

definition header_test :: "'c md5 \<Rightarrow> bool \<Rightarrow> fileinfo \<Rightarrow> fileinfo \<Rightarrow> char list \<Rightarrow> string result" where
  "header_test M mem info test data =
     rbind (strcpy (fi_name info) 0 ''1.c'') (\<lambda>name.
       let info = info\<lparr>fi_name := name, fi_size := 4\<rparr>;
           buf = [CHR 0x01, CHR 0x02, CHR 0x03, CHR 0x04]
       in rbind (calc_md5 M buf (unat (fi_size info)) mem) (\<lambda>p.
          case p of
            None \<Rightarrow> Inl NullPointer
          | Some digest \<Rightarrow>
              rbind (memcpy (fi_info info) digest MD5_DIGEST_LENGTH) (\<lambda>d.
                let info = info\<lparr>fi_info := d\<rparr>
                in header_test_decode info data test (print_digest (take MD5_DIGEST_LENGTH d) @ [NL]))))"

section \<open>What it does\<close>

lemma header_test_info:
  assumes "md5_ok M" and "wf_fileinfo info"
  shows "\<exists>i. wf_fileinfo i \<and> cstr (fi_name i) = ''1.c'' \<and> NUL \<in> set (fi_name i) \<and> fi_size i = 4
    \<and> fi_info i = md5_of M [CHR 0x01, CHR 0x02, CHR 0x03, CHR 0x04]
    \<and> header_test M True info test data = header_test_decode i data test (print_digest (fi_info i) @ [NL])"
proof -
  let ?d = "md5_of M [CHR 0x01, CHR 0x02, CHR 0x03, CHR 0x04]"
  have len: "length (fi_name info) = MAXLEN" "length (fi_info info) = MD5_DIGEST_LENGTH"
    using assms(2) by (simp_all add: wf_fileinfo_def)
  have d: "length ?d = MD5_DIGEST_LENGTH"
    using length_md5_of [OF assms(1)] by (simp add: MD5_DIGEST_LENGTH_def)
  have name: "strcpy (fi_name info) 0 ''1.c'' = Inr (''1.c'' @ NUL # drop 4 (fi_name info))"
    using len strcpy_fits [of "''1.c''" "fi_name info"] by (simp add: MAXLEN_def eval_nat_numeral)
  have md5: "calc_md5 M [CHR 0x01, CHR 0x02, CHR 0x03, CHR 0x04] 4 True = Inr (Some ?d)"
    by (simp add: calc_md5_def md5_of_def)
  have copy: "memcpy (fi_info info) ?d MD5_DIGEST_LENGTH = Inr ?d"
    using len d by (simp add: memcpy_def put_def)
  let ?i = "info\<lparr>fi_name := ''1.c'' @ NUL # drop 4 (fi_name info), fi_size := 4, fi_info := ?d\<rparr>"
  have "header_test M True info test data = header_test_decode ?i data test (print_digest (fi_info ?i) @ [NL])"
    using name md5 copy d by (simp add: header_test_def)
  moreover have "wf_fileinfo ?i" "cstr (fi_name ?i) = ''1.c''" "NUL \<in> set (fi_name ?i)"
    using len d cstr_append_NUL [of "''1.c''" "drop 4 (fi_name info)"]
    by (simp_all add: wf_fileinfo_def MAXLEN_def)
  ultimately show ?thesis
    by (intro exI [of _ ?i]) simp
qed

section \<open>Properties\<close>

definition test_output :: "char list \<Rightarrow> string" where
  "test_output d = print_digest d @ [NL] @ ''name:1.c'' @ NL # ''size:4'' @ NL # ''info:'' @ print_digest d"

lemma header_test_decode_ok:
  assumes "wf_fileinfo i" and "wf_fileinfo test" and "cstr (fi_name i) = ''1.c''" and "NUL \<in> set (fi_name i)"
    and "fi_size i = 4" and "sizeof_fileinfo \<le> length data"
  shows "header_test_decode i data test (print_digest (fi_info i) @ [NL]) = Inr (test_output (fi_info i))"
proof -
  obtain data' where e: "encode data i = Inr (sizeof_fileinfo, data')"
      and "take sizeof_fileinfo data' = image i" "length data' = length data"
    using assms(1,6) length_image [OF assms(1)]
    by (auto simp: encode_def memcpy_def put_def)
  then have d: "decode test data' sizeof_fileinfo = Inr i"
    using assms(1,2,6) by (simp add: decode_eq length_image of_image_image)
  have "take MD5_DIGEST_LENGTH (fi_info i) = fi_info i" "show_nat 4 = ''4''"
    using assms(1) by (simp add: wf_fileinfo_def) code_simp
  then show ?thesis
    using e d assms(3-5) by (simp add: header_test_decode_def read_str_def test_output_def)
qed

text \<open>The test program would print the same header twice if its block had room for one;
  it has 100 bytes, the header 280, and so it always leaves the block.\<close>

lemma header_test_result:
  assumes "md5_ok M" and "wf_fileinfo info" and "wf_fileinfo test"
  shows "header_test M True info test data =
    (if length data < sizeof_fileinfo then Inl OutOfBounds
     else Inr (test_output (md5_of M [CHR 0x01, CHR 0x02, CHR 0x03, CHR 0x04])))"
proof -
  obtain i where i: "wf_fileinfo i" "cstr (fi_name i) = ''1.c''" "NUL \<in> set (fi_name i)" "fi_size i = 4"
      "fi_info i = md5_of M [CHR 0x01, CHR 0x02, CHR 0x03, CHR 0x04]"
    and eq: "header_test M True info test data = header_test_decode i data test (print_digest (fi_info i) @ [NL])"
    using header_test_info [OF assms(1,2)] by blast
  show ?thesis
  proof (cases "length data < sizeof_fileinfo")
    case True
    then show ?thesis
      unfolding eq using encode_eq [OF i(1)] by (simp add: header_test_decode_def)
  next
    case False
    then show ?thesis
      unfolding eq using header_test_decode_ok [OF i(1) assms(3) i(2-4), of data] i(5) by simp
  qed
qed

end
