(* ===== verification/Filehead.thy ===== *)
theory Filehead
  imports CLib "HOL-Library.List_Lexorder" "HOL-Library.Char_ord"
begin

text \<open>
  \<^verbatim>\<open>c/filehead.pb-c.h\<close> and \<^verbatim>\<open>c/filehead.pb-c.c\<close>: the header as a protocol buffer message, as
  protoc-c made it from \<^verbatim>\<open>c/filehead.proto\<close>, with the tables that describe it to the
  protobuf-c library. No program of the repository uses it.

  The library is a parameter, a record of the functions that are called; it finds a
  message's layout in the descriptor it is given, by the offsets in it. The size of the
  library's \<open>ProtobufCMessage\<close>, with which the struct begins, is the argument \<open>B\<close> of the
  tables. A pointer to a descriptor is only ever compared with the address of this one.
\<close>

section \<open>The message\<close>

datatype descriptor_pointer = File_info_descriptor | Other_descriptor nat

record FileInfo_t =
  pb_base :: descriptor_pointer
  pb_name :: "string option"
  pb_size :: "32 word"
  pb_info :: "nat \<times> char list option"

definition FILE_INFO__INIT :: FileInfo_t where
  "FILE_INFO__INIT = \<lparr>pb_base = File_info_descriptor, pb_name = None, pb_size = 0, pb_info = (0, None)\<rparr>"

definition file_info__init :: "FileInfo_t \<Rightarrow> FileInfo_t" where
  "file_info__init message = FILE_INFO__INIT"

section \<open>The descriptor\<close>

text \<open>Without the library's magic number and the reserved entries.\<close>

datatype pb_label = PROTOBUF_C_LABEL_REQUIRED | PROTOBUF_C_LABEL_OPTIONAL | PROTOBUF_C_LABEL_REPEATED

datatype pb_type = PROTOBUF_C_TYPE_STRING | PROTOBUF_C_TYPE_FIXED32 | PROTOBUF_C_TYPE_BYTES

record field_descriptor =
  fd_name :: string
  fd_id :: nat
  fd_label :: pb_label
  fd_type :: pb_type
  fd_quantifier_offset :: nat
  fd_offset :: nat
  fd_flags :: nat

record int_range =
  start_value :: nat
  orig_index :: nat

record message_descriptor =
  md_name :: string
  md_short_name :: string
  md_c_name :: string
  md_package_name :: string
  md_sizeof :: nat
  md_n_fields :: nat
  md_fields :: "field_descriptor list"
  md_fields_sorted_by_name :: "nat list"
  md_n_field_ranges :: nat
  md_field_ranges :: "int_range list"
  md_message_init :: "FileInfo_t \<Rightarrow> FileInfo_t"

text \<open>The layout of the struct: pointers and lengths of eight bytes, aligned.\<close>

definition align8 :: "nat \<Rightarrow> nat" where
  "align8 n = 8 * ((n + 7) div 8)"

definition offsetof_name :: "nat \<Rightarrow> nat" where
  "offsetof_name B = align8 B"

definition offsetof_size :: "nat \<Rightarrow> nat" where
  "offsetof_size B = offsetof_name B + 8"

definition offsetof_info :: "nat \<Rightarrow> nat" where
  "offsetof_info B = align8 (offsetof_size B + 4)"

definition sizeof_FileInfo :: "nat \<Rightarrow> nat" where
  "sizeof_FileInfo B = offsetof_info B + 16"

definition file_info__field_descriptors :: "nat \<Rightarrow> field_descriptor list" where
  "file_info__field_descriptors B =
     [\<lparr>fd_name = ''name'', fd_id = 1, fd_label = PROTOBUF_C_LABEL_REQUIRED, fd_type = PROTOBUF_C_TYPE_STRING,
       fd_quantifier_offset = 0, fd_offset = offsetof_name B, fd_flags = 0\<rparr>,
      \<lparr>fd_name = ''size'', fd_id = 2, fd_label = PROTOBUF_C_LABEL_REQUIRED, fd_type = PROTOBUF_C_TYPE_FIXED32,
       fd_quantifier_offset = 0, fd_offset = offsetof_size B, fd_flags = 0\<rparr>,
      \<lparr>fd_name = ''info'', fd_id = 3, fd_label = PROTOBUF_C_LABEL_REQUIRED, fd_type = PROTOBUF_C_TYPE_BYTES,
       fd_quantifier_offset = 0, fd_offset = offsetof_info B, fd_flags = 0\<rparr>]"

definition file_info__field_indices_by_name :: "nat list" where
  "file_info__field_indices_by_name = [2, 0, 1]"

definition file_info__number_ranges :: "int_range list" where
  "file_info__number_ranges =
     [\<lparr>start_value = 1, orig_index = 0\<rparr>, \<lparr>start_value = 0, orig_index = 3\<rparr>]"

definition file_info__descriptor :: "nat \<Rightarrow> message_descriptor" where
  "file_info__descriptor B = \<lparr>md_name = ''FileInfo'', md_short_name = ''FileInfo'', md_c_name = ''FileInfo'',
     md_package_name = [], md_sizeof = sizeof_FileInfo B, md_n_fields = 3,
     md_fields = file_info__field_descriptors B,
     md_fields_sorted_by_name = file_info__field_indices_by_name,
     md_n_field_ranges = 1, md_field_ranges = file_info__number_ranges,
     md_message_init = file_info__init\<rparr>"

section \<open>The functions\<close>

text \<open>\<open>protobuf_c_message_pack\<close> writes the packed message to the front of a buffer the caller
  has made large enough; \<open>'a\<close> is the library's allocator.\<close>

record 'a protobuf_c =
  message_get_packed_size :: "FileInfo_t \<Rightarrow> nat"
  message_pack :: "FileInfo_t \<Rightarrow> char list"
  message_pack_to_buffer :: "FileInfo_t \<Rightarrow> char list \<Rightarrow> nat \<times> char list"
  message_unpack :: "message_descriptor \<Rightarrow> 'a \<Rightarrow> nat \<Rightarrow> char list \<Rightarrow> FileInfo_t option"
  message_free_unpacked :: "FileInfo_t \<Rightarrow> 'a \<Rightarrow> 'a"

definition descriptor_checked :: "FileInfo_t \<Rightarrow> 'r result \<Rightarrow> 'r result" where
  "descriptor_checked message r =
     (if pb_base message = File_info_descriptor then r else Inl AssertFailed)"

definition file_info__get_packed_size :: "'a protobuf_c \<Rightarrow> FileInfo_t \<Rightarrow> nat result" where
  "file_info__get_packed_size P message =
     descriptor_checked message (Inr (message_get_packed_size P message))"

definition file_info__pack :: "'a protobuf_c \<Rightarrow> FileInfo_t \<Rightarrow> char list \<Rightarrow> (nat \<times> char list) result" where
  "file_info__pack P message out =
     descriptor_checked message
       (let bs = message_pack P message
        in rbind (put out 0 bs) (\<lambda>out. Inr (length bs, out)))"

definition file_info__pack_to_buffer ::
  "'a protobuf_c \<Rightarrow> FileInfo_t \<Rightarrow> char list \<Rightarrow> (nat \<times> char list) result" where
  "file_info__pack_to_buffer P message buffer =
     descriptor_checked message (Inr (message_pack_to_buffer P message buffer))"

definition file_info__unpack ::
  "'a protobuf_c \<Rightarrow> nat \<Rightarrow> 'a \<Rightarrow> nat \<Rightarrow> char list \<Rightarrow> FileInfo_t option" where
  "file_info__unpack P B allocator len data =
     message_unpack P (file_info__descriptor B) allocator len data"

definition file_info__free_unpacked :: "'a protobuf_c \<Rightarrow> FileInfo_t \<Rightarrow> 'a \<Rightarrow> 'a result" where
  "file_info__free_unpacked P message allocator =
     descriptor_checked message (Inr (message_free_unpacked P message allocator))"

section \<open>What the library documents of the tables\<close>

text \<open>
  Field numbers are looked up in ranges: a range covers the numbers from its start on, as
  many as there are fields up to the index of the next range, and the last entry only ends
  the table. Names are looked up by bisection in the index by name.
\<close>

fun range_lookup :: "int_range list \<Rightarrow> nat \<Rightarrow> nat option" where
  "range_lookup (r # r' # rs) n =
     (if start_value r \<le> n \<and> n < start_value r + (orig_index r' - orig_index r)
      then Some (orig_index r + (n - start_value r))
      else range_lookup (r' # rs) n)"
| "range_lookup _ n = None"

definition field_width :: "pb_type \<Rightarrow> nat" where
  "field_width t = (case t of PROTOBUF_C_TYPE_STRING \<Rightarrow> 8 | PROTOBUF_C_TYPE_FIXED32 \<Rightarrow> 4
     | PROTOBUF_C_TYPE_BYTES \<Rightarrow> 16)"

text \<open>The tables agree with one another and with the struct.\<close>

definition descriptor_ok :: "nat \<Rightarrow> message_descriptor \<Rightarrow> bool" where
  "descriptor_ok B d \<longleftrightarrow>
     md_n_fields d = length (md_fields d)
   \<and> length (md_field_ranges d) = Suc (md_n_field_ranges d)
   \<and> (\<forall>n i. range_lookup (md_field_ranges d) n = Some i
        \<longleftrightarrow> i < md_n_fields d \<and> fd_id (md_fields d ! i) = n)
   \<and> sorted (map (\<lambda>i. fd_name (md_fields d ! i)) (md_fields_sorted_by_name d))
   \<and> set (md_fields_sorted_by_name d) = {..<md_n_fields d} \<and> distinct (md_fields_sorted_by_name d)
   \<and> (\<forall>i<md_n_fields d. B \<le> fd_offset (md_fields d ! i)
        \<and> fd_offset (md_fields d ! i) + field_width (fd_type (md_fields d ! i))
            \<le> (if Suc i < md_n_fields d then fd_offset (md_fields d ! Suc i) else md_sizeof d))"

lemma align8_le: "n \<le> align8 n"
  by (simp add: align8_def)

lemma all_less_three: "(\<forall>i<3::nat. P i) \<longleftrightarrow> P 0 \<and> P 1 \<and> P 2"
  by (auto simp: numeral_3_eq_3 numeral_2_eq_2 less_Suc_eq)

lemma less_three: "(i::nat) < 3 \<longleftrightarrow> i = 0 \<or> i = 1 \<or> i = 2"
  by auto

section \<open>Properties\<close>

text \<open>C34. The tables made for the message are right: every field number finds its field and no
  other number finds any, the index by name lists every field once, in the order of the
  names, and the offsets are those of fields that follow one another inside the struct, after
  the part that belongs to the library.\<close>

theorem file_info_descriptor_ok: "descriptor_ok B (file_info__descriptor B)"
proof -
  let ?d = "file_info__descriptor B"
  have id: "i < 3 \<Longrightarrow> fd_id (md_fields ?d ! i) = Suc i" for i
    by (auto simp: file_info__descriptor_def file_info__field_descriptors_def less_three)
  have "range_lookup (md_field_ranges ?d) n = (if 1 \<le> n \<and> n < 4 then Some (n - 1) else None)" for n
    by (simp add: file_info__descriptor_def file_info__number_ranges_def)
  then have "range_lookup (md_field_ranges ?d) n = Some i \<longleftrightarrow> i < 3 \<and> fd_id (md_fields ?d ! i) = n" for n i
    using id by (cases "i < 3") auto
  moreover have "sorted (map (\<lambda>i. fd_name (md_fields ?d ! i)) (md_fields_sorted_by_name ?d))"
    by (simp add: file_info__descriptor_def file_info__field_indices_by_name_def
        file_info__field_descriptors_def)
  moreover have "set (md_fields_sorted_by_name ?d) = {..<3}" "distinct (md_fields_sorted_by_name ?d)"
    by (auto simp: file_info__descriptor_def file_info__field_indices_by_name_def less_three)
  moreover have "B \<le> offsetof_name B" "offsetof_size B + 4 \<le> offsetof_info B"
    using align8_le by (simp_all add: offsetof_name_def offsetof_info_def)
  then have "\<forall>i<3. B \<le> fd_offset (md_fields ?d ! i)
      \<and> fd_offset (md_fields ?d ! i) + field_width (fd_type (md_fields ?d ! i))
          \<le> (if Suc i < 3 then fd_offset (md_fields ?d ! Suc i) else md_sizeof ?d)"
    by (simp add: all_less_three file_info__descriptor_def file_info__field_descriptors_def field_width_def
        offsetof_size_def sizeof_FileInfo_def)
  moreover have n: "md_n_fields ?d = 3" and "3 = length (md_fields ?d)"
      "length (md_field_ranges ?d) = Suc (md_n_field_ranges ?d)"
    by (simp_all add: file_info__descriptor_def file_info__field_descriptors_def file_info__number_ranges_def)
  ultimately show ?thesis
    unfolding descriptor_ok_def n by blast
qed

text \<open>A message that was not initialised for this descriptor is refused by every function that
  takes one, and one that was is never refused.\<close>

lemma descriptor_refused:
  assumes "pb_base m \<noteq> File_info_descriptor"
  shows "file_info__get_packed_size P m = Inl AssertFailed" and "file_info__pack P m out = Inl AssertFailed"
    and "file_info__pack_to_buffer P m buffer = Inl AssertFailed"
    and "file_info__free_unpacked P m a = Inl AssertFailed"
  using assms
  by (simp_all add: file_info__get_packed_size_def file_info__pack_def file_info__pack_to_buffer_def
      file_info__free_unpacked_def descriptor_checked_def)

lemma init_accepted: "descriptor_checked (file_info__init m) r = r"
  by (simp add: descriptor_checked_def file_info__init_def FILE_INFO__INIT_def)

text \<open>A buffer of the packed size is enough, when the library packs as many bytes as it says.\<close>

lemma file_info_pack_fits:
  assumes "length (message_pack P m) = message_get_packed_size P m" and "pb_base m = File_info_descriptor"
    and "message_get_packed_size P m \<le> length out"
  shows "\<exists>out'. file_info__pack P m out = Inr (message_get_packed_size P m, out')
    \<and> take (message_get_packed_size P m) out' = message_pack P m"
  using assms by (simp add: file_info__pack_def descriptor_checked_def put_def)

end
