(* ===== verification/CppInfo.thy ===== *)
theory CppInfo
  imports Decimal
begin

text \<open>
  The header of the C++ programs, \<^verbatim>\<open>cpp/fileinfo.h\<close> and \<^verbatim>\<open>cpp/fileinfo.cc\<close>: the length
  of the file's name in decimal, two zero bytes and the name, in an array of 128 bytes.
  Accesses of the array are not checked, so one past its end is a fault.
\<close>

section \<open>Encoding and decoding\<close>

definition MAX_FILENAME_LEN :: nat where
  "MAX_FILENAME_LEN = 128"

definition SEP_LEN :: nat where
  "SEP_LEN = 2"

text \<open>The text, whose length is the result; a \<open>size_t\<close> has at most 20 digits.\<close>

definition numToStr :: "64 word \<Rightarrow> string" where
  "numToStr n = take (MAX_FILENAME_LEN - 1) (show_nat (unat n))"

definition encode_fileinfo :: "char list \<Rightarrow> string \<Rightarrow> char list result" where
  "encode_fileinfo a filename =
     (let tmp = numToStr (of_nat (length filename));
          len = length tmp
      in rbind (put a 0 tmp) (\<lambda>a.
         rbind (put a len [NUL, NUL]) (\<lambda>a.
           put a (len + SEP_LEN) filename)))"

text \<open>\<open>atoi\<close> on the array, which need not hold a character that ends the number.\<close>

definition atoi_array :: "char list \<Rightarrow> 32 word result" where
  "atoi_array a =
     (let r = dropWhile is_space a;
          ds = (case r of [] \<Rightarrow> [] | c # cs \<Rightarrow> if c = CHR ''-'' \<or> c = CHR ''+'' then cs else r)
      in if dropWhile is_digit ds = [] then Inl OutOfBounds else Inr (atoi a))"

text \<open>
  The length is an \<open>int\<close>, converted to \<open>size_t\<close> for its number of digits. A string made
  from a range whose end is before its beginning is refused with an exception.
\<close>

definition decode_fileinfo :: "char list \<Rightarrow> string result" where
  "decode_fileinfo a =
     rbind (atoi_array a) (\<lambda>n.
       let len = length (numToStr (scast n))
       in if sint n < 0 then Inl Exception
          else if MAX_FILENAME_LEN < len + nat (sint n) + SEP_LEN then Inl OutOfBounds
          else Inr (take (nat (sint n)) (drop (len + SEP_LEN) a)))"

section \<open>What they compute\<close>

lemma numToStr_eq: "numToStr n = show_nat (unat n)"
proof -
  have "unat n < 2 ^ 64"
    using unsigned_less [where 'a = nat, of n] by simp
  then have "unat n < 10 ^ 20"
    by simp
  then have "length (show_nat (unat n)) \<le> 20"
    by (intro length_show_nat_le) simp_all
  then show ?thesis
    by (simp add: numToStr_def MAX_FILENAME_LEN_def)
qed

definition header_bytes :: "string \<Rightarrow> char list" where
  "header_bytes name = show_nat (length name) @ [NUL, NUL] @ name"

lemma encode_fileinfo_eq:
  assumes "length a = MAX_FILENAME_LEN" and "length name < 2 ^ 64"
  shows "encode_fileinfo a name =
    (if length (header_bytes name) \<le> MAX_FILENAME_LEN
     then Inr (header_bytes name @ drop (length (header_bytes name)) a) else Inl OutOfBounds)"
proof -
  have "numToStr (of_nat (length name)) = show_nat (length name)"
    using assms(2) by (simp add: numToStr_eq unat_of_nat)
  then show ?thesis
    using assms(1) by (auto simp: encode_fileinfo_def header_bytes_def SEP_LEN_def put_def Let_def add.commute)
qed

lemma digits_of_length: "length (show_nat n) = (if n < 10 then 1 else Suc (length (show_nat (n div 10))))"
  by (subst show_nat_rec) simp

lemma length_show_small:
  shows "n < 10 \<Longrightarrow> length (show_nat n) = 1"
    and "10 \<le> n \<Longrightarrow> n < 100 \<Longrightarrow> length (show_nat n) = 2"
    and "100 \<le> n \<Longrightarrow> n < 1000 \<Longrightarrow> length (show_nat n) = 3"
proof -
  have *: "10 \<le> m \<Longrightarrow> m < 100 \<Longrightarrow> length (show_nat m) = 2" for m
    using digits_of_length [of m] digits_of_length [of "m div 10"] by simp
  show "n < 10 \<Longrightarrow> length (show_nat n) = 1" and "10 \<le> n \<Longrightarrow> n < 100 \<Longrightarrow> length (show_nat n) = 2"
    using digits_of_length [of n] * by simp_all
  assume "100 \<le> n" and "n < 1000"
  then have "10 \<le> n div 10" and "n div 10 < 100"
    using div_le_mono [of 100 n 10] by simp_all
  then show "length (show_nat n) = 3"
    using digits_of_length [of n] * \<open>100 \<le> n\<close> by simp
qed

lemma header_bytes_fits: "length (header_bytes name) \<le> MAX_FILENAME_LEN \<longleftrightarrow> length name \<le> 123"
proof -
  let ?n = "length name"
  consider "?n < 10" | "10 \<le> ?n" "?n < 100" | "100 \<le> ?n" "?n < 1000" | "1000 \<le> ?n"
    by linarith
  then show ?thesis
    by cases (simp_all add: header_bytes_def MAX_FILENAME_LEN_def length_show_small)
qed

lemma atoi_prefix:
  assumes "\<not> is_digit c"
  shows "atoi (show_nat n @ c # r) = atoi (show_nat n)"
proof -
  have v: "digits_value v (show_nat n @ c # r) = digits_value v (show_nat n)" for v
    using show_nat_digits [of n] assms by (simp add: digits_value_append)
  obtain d ds where s: "show_nat n = d # ds" "is_digit d"
    using show_nat_digits [of n] by (cases "show_nat n") auto
  have "signed_value (show_nat n @ c # r) = signed_value (show_nat n)"
    using digit_not_special [OF s(2)] v [of 0] unfolding s(1) by (simp add: signed_value_def)
  moreover have "dropWhile is_space (show_nat n @ c # r) = show_nat n @ c # r"
      "dropWhile is_space (show_nat n) = show_nat n"
    using digit_not_special [OF s(2)] unfolding s(1) by simp_all
  ultimately show ?thesis
    by (simp add: atoi_def)
qed

lemma atoi_array_nat:
  assumes "\<not> is_digit c" and "n < 2 ^ 31"
  shows "\<exists>w. atoi_array (show_nat n @ c # r) = Inr w \<and> sint w = int n"
proof -
  obtain d ds where s: "show_nat n = d # ds" "is_digit d" "list_all is_digit ds"
    using show_nat_digits [of n] by (cases "show_nat n") auto
  have "dropWhile is_digit (show_nat n @ c # r) = c # r"
    using assms(1) s by (simp add: dropWhile_append list_all_iff)
  then have "atoi_array (show_nat n @ c # r) = Inr (atoi (show_nat n @ c # r))"
    using digit_not_special [OF s(2)] unfolding s(1) by (simp add: atoi_array_def del: dropWhile_eq_Nil_conv)
  then show ?thesis
    using assms(2) atoi_show_int [of "int n"] atoi_prefix [OF assms(1), of n r] by (simp add: show_int_def)
qed

lemma unat_scast_nat:
  fixes w :: "32 word"
  assumes "sint w = int n"
  shows "unat (scast w :: 64 word) = n"
proof -
  have "n < 2 ^ 32"
    using sint_lt [of w] assms by simp
  moreover have "scast w = (word_of_int (int n) :: 64 word)"
    using assms by (simp add: scast_eq)
  ultimately show ?thesis
    by (simp add: unat_of_nat)
qed

text \<open>What a header that announces \<open>n\<close> characters decodes to.\<close>

lemma decode_announced:
  assumes "n < 2 ^ 31" and "\<not> is_digit c"
  shows "decode_fileinfo (show_nat n @ c # r) =
    (if 123 < n then Inl OutOfBounds else Inr (take n (drop 1 r)))"
proof -
  obtain w where w: "atoi_array (show_nat n @ c # r) = Inr w" "sint w = int n"
    using atoi_array_nat [OF assms(2,1)] by blast
  have len: "length (numToStr (scast w)) = length (show_nat n)"
    using unat_scast_nat [OF w(2)] by (simp add: numToStr_eq)
  have fits: "MAX_FILENAME_LEN < length (show_nat n) + n + SEP_LEN \<longleftrightarrow> 123 < n"
    using header_bytes_fits [of "replicate n NUL"] by (simp add: header_bytes_def SEP_LEN_def) linarith
  show ?thesis
    using w len fits by (simp add: decode_fileinfo_def Let_def SEP_LEN_def)
qed

lemma decode_header:
  assumes "length name \<le> 123"
  shows "decode_fileinfo (header_bytes name @ r) = Inr name"
  using assms decode_announced [of "length name" NUL "NUL # name @ r"] 
  by (simp add: header_bytes_def is_digit_def)

section \<open>Properties\<close>

text \<open>C22. The C++ header is decoded as it was encoded, for every name of up to 123 characters,
  whatever they are and whatever the array held before.\<close>

theorem cpp_header_roundtrip:
  assumes "length a = MAX_FILENAME_LEN" and "length name \<le> 123"
  shows "\<exists>b. encode_fileinfo a name = Inr b \<and> length b = MAX_FILENAME_LEN \<and> decode_fileinfo b = Inr name"
  using assms encode_fileinfo_eq [OF assms(1), of name] header_bytes_fits [of name] decode_header [OF assms(2)]
  by simp

theorem cpp_header_roundtrip_witness:
  "\<exists>b. encode_fileinfo (replicate MAX_FILENAME_LEN CHR ''?'') ''notes.txt'' = Inr b
     \<and> length b = MAX_FILENAME_LEN \<and> decode_fileinfo b = Inr ''notes.txt''"
  by (rule cpp_header_roundtrip) simp_all

text \<open>A name of 124 characters or more is written past the array of its header.\<close>

lemma cpp_encode_overflow_iff:
  assumes "length a = MAX_FILENAME_LEN" and "length name < 2 ^ 64"
  shows "encode_fileinfo a name = Inl OutOfBounds \<longleftrightarrow> 123 < length name"
  using encode_fileinfo_eq [OF assms] header_bytes_fits [of name] by (simp add: not_le)

text \<open>The receiver trusts the announced length: beyond 123 it reads past the array.\<close>

lemma cpp_decode_trusts_length:
  assumes "n < 2 ^ 31" and "\<not> is_digit c"
  shows "decode_fileinfo (show_nat n @ c # r) =
    (if 123 < n then Inl OutOfBounds else Inr (take n (drop 1 r)))"
  using assms by (rule decode_announced)

end
