(* ===== verification/CppServer.thy ===== *)
theory CppServer
  imports World CppInfo Wrap
begin

text \<open>
  \<^verbatim>\<open>cpp/server.cc\<close>: it reads the header of 128 bytes and then blocks of \<open>BUFSIZ\<close> bytes
  until the peer shuts its side down, and writes them to the file the header names.

  Boost.Asio is not part of this repository, so its operations are parameters: a record of
  what an operation on a socket (\<open>'s\<close>) completes with, which is what the call-backs get.
  The next operation a call-back asks for is a result. Standard output is left out.
\<close>

section \<open>Sockets\<close>

datatype asio_error = Eof | Failure string

record 's asio =
  as_read :: "'s \<Rightarrow> nat \<Rightarrow> asio_error option \<times> char list \<times> 's"
  as_write :: "'s \<Rightarrow> char list \<Rightarrow> asio_error option \<times> 's"
  as_shutdown :: "'s \<Rightarrow> 's"
  as_close :: "'s \<Rightarrow> 's"

text \<open>
  What the documentation promises of a socket with the bytes \<open>left s\<close> still to come and
  \<open>ending s\<close> after them: \<open>async_read\<close> completes with a full buffer, or with the error and
  what has come before it. \<open>sent\<close> is what has been written.
\<close>

definition reads_ok :: "'s asio \<Rightarrow> ('s \<Rightarrow> char list) \<Rightarrow> ('s \<Rightarrow> asio_error) \<Rightarrow> bool" where
  "reads_ok A left ending \<longleftrightarrow> (\<forall>s n. \<exists>t.
     as_read A s n = (if n \<le> length (left s) then None else Some (ending s), take n (left s), t)
     \<and> left t = drop n (left s) \<and> ending t = ending s)"

definition writes_ok :: "'s asio \<Rightarrow> ('s \<Rightarrow> char list) \<Rightarrow> bool" where
  "writes_ok A sent \<longleftrightarrow> (\<forall>s d. fst (as_write A s d) = None \<and> sent (snd (as_write A s d)) = sent s @ d)
     \<and> (\<forall>s. sent (as_shutdown A s) = sent s \<and> sent (as_close A s) = sent s)"

text \<open>An instance: the bytes to come, the error after them, and the bytes sent.\<close>

definition list_asio :: "(char list \<times> asio_error \<times> char list) asio" where
  "list_asio = \<lparr>
     as_read = (\<lambda>(l, e, snt) n. (if n \<le> length l then None else Some e, take n l, (drop n l, e, snt))),
     as_write = (\<lambda>(l, e, snt) d. (None, (l, e, snt @ d))),
     as_shutdown = (\<lambda>s. s), as_close = (\<lambda>s. s)\<rparr>"

lemma list_asio_ok: "reads_ok list_asio fst (\<lambda>s. fst (snd s))" "writes_ok list_asio (\<lambda>s. snd (snd s))"
  by (simp_all add: reads_ok_def writes_ok_def list_asio_def)

section \<open>AsyncTcpConnection\<close>

datatype cpp_next = Read_info | Read_block | Finished

record 's cpp_conn =
  cc_socket :: 's
  cc_filename :: string
  cc_fp :: "string option"
  cc_filesize :: "64 word"
  cc_world :: world
  cc_stderr :: "char list"
  cc_debug :: "string list"

definition cpp_conn_new :: "'s \<Rightarrow> world \<Rightarrow> 's cpp_conn" where
  "cpp_conn_new s w = \<lparr>cc_socket = s, cc_filename = [], cc_fp = None, cc_filesize = 0,
     cc_world = w, cc_stderr = [], cc_debug = []\<rparr>"

definition debug_log :: "string \<Rightarrow> 's cpp_conn \<Rightarrow> 's cpp_conn" where
  "debug_log m c = c\<lparr>cc_debug := cc_debug c @ [m]\<rparr>"

definition error_message :: "asio_error \<Rightarrow> string" where
  "error_message e = (case e of Eof \<Rightarrow> ''End of file'' | Failure m \<Rightarrow> m)"

definition cpp_handle_error :: "string \<Rightarrow> asio_error \<Rightarrow> 's cpp_conn \<Rightarrow> 's cpp_conn" where
  "cpp_handle_error func_name e c =
     c\<lparr>cc_stderr := cc_stderr c @ ''ERROR:['' @ cstr func_name @ '']'' @ cstr (error_message e) @ [NL]\<rparr>"

definition handle_read_request ::
  "asio_error option \<Rightarrow> char list \<Rightarrow> 's cpp_conn \<Rightarrow> ('s cpp_conn \<times> cpp_next) result" where
  "handle_read_request e info c =
     (case e of
        Some e \<Rightarrow> Inr (cpp_handle_error ''handle_read_request'' e c, Finished)
      | None \<Rightarrow>
          rbind (decode_fileinfo info) (\<lambda>filename.
            let c = debug_log (''filename:'' @ filename) (c\<lparr>cc_filename := filename\<rparr>)
            in case fopen_wb (cc_world c) (cstr filename) of
                 None \<Rightarrow> Inr (c\<lparr>cc_stderr := cc_stderr c @ ''open file ERROR.'' @ [NL]\<rparr>, Finished)
               | Some w \<Rightarrow> Inr (c\<lparr>cc_world := w, cc_fp := Some (cstr filename)\<rparr>, Read_block)))"

text \<open>The number of bytes written, not received, is added to \<open>filesize_\<close>.\<close>

definition write_block :: "char list \<Rightarrow> string \<Rightarrow> 's cpp_conn \<Rightarrow> 's cpp_conn" where
  "write_block d path c =
     (let (n, w) = fwrite (cc_world c) path d
      in c\<lparr>cc_world := w, cc_filesize := cc_filesize c + of_nat n\<rparr>)"

definition handle_write_file ::
  "'s asio \<Rightarrow> asio_error option \<Rightarrow> char list \<Rightarrow> 's cpp_conn \<Rightarrow> ('s cpp_conn \<times> cpp_next) result" where
  "handle_write_file A e d c =
     (let c = debug_log (''recv:'' @ show_nat (length d)) c
      in case cc_fp c of
           None \<Rightarrow> Inl Uninitialised
         | Some path \<Rightarrow>
             (case e of
                Some e \<Rightarrow>
                  let c = (if e = Eof then
                             (let c = write_block d path c;
                                  c = debug_log (''filesize:'' @ show_nat (unat (cc_filesize c))) c
                              in c\<lparr>cc_socket := as_close A (cc_socket c)\<rparr>)
                           else cpp_handle_error ''handle_write_file'' e c)
                  in Inr (c\<lparr>cc_world := fclose (cc_world c)\<rparr>, Finished)
              | None \<Rightarrow> Inr (if d \<noteq> [] then write_block d path c else c, Read_block)))"

text \<open>The connection's life: each completion runs the call-back it was given.\<close>

definition cpp_complete :: "'s asio \<Rightarrow> 's cpp_conn \<Rightarrow> nat \<Rightarrow> asio_error option \<times> char list \<times> 's cpp_conn" where
  "cpp_complete A c n =
     (case as_read A (cc_socket c) n of (e, d, s) \<Rightarrow> (e, d, c\<lparr>cc_socket := s\<rparr>))"

partial_function (option) write_blocks :: "'s asio \<Rightarrow> 's cpp_conn \<Rightarrow> 's cpp_conn result option" where
  "write_blocks A c =
     (case cpp_complete A c BUFSIZ of (e, d, c) \<Rightarrow>
      (case handle_write_file A e d c of
         Inl f \<Rightarrow> Some (Inl f)
       | Inr (c, nxt) \<Rightarrow> if nxt = Read_block then write_blocks A c else Some (Inr c)))"

definition cpp_start :: "'s asio \<Rightarrow> 's cpp_conn \<Rightarrow> 's cpp_conn result option" where
  "cpp_start A c =
     (case cpp_complete A c MAX_FILENAME_LEN of (e, info, c) \<Rightarrow>
      (case handle_read_request e info c of
         Inl f \<Rightarrow> Some (Inl f)
       | Inr (c, nxt) \<Rightarrow> if nxt = Read_block then write_blocks A c else Some (Inr c)))"

section \<open>AsyncTcpServer and main\<close>

text \<open>
  The server asks for one connection only. \<open>accepted\<close> is what \<open>async_accept\<close> completes
  with; \<open>bound\<close> is the message of the exception the acceptor throws, if it does.
\<close>

definition handle_accept ::
  "'s asio \<Rightarrow> asio_error option \<times> 's \<Rightarrow> world \<Rightarrow> 's cpp_conn result option" where
  "handle_accept A accepted w =
     (let cur_conn = cpp_conn_new (snd accepted) w
      in if fst accepted = None then cpp_start A cur_conn else Some (Inr cur_conn))"

text \<open>The constructor: an exception of the acceptor's is its message, on the left; \<open>run\<close>
  returns when the only connection is done with.\<close>

definition async_tcp_server ::
  "'s asio \<Rightarrow> (16 word \<Rightarrow> string option) \<Rightarrow> (16 word \<Rightarrow> asio_error option \<times> 's) \<Rightarrow> 16 word
     \<Rightarrow> world \<Rightarrow> (string + 's cpp_conn result option)" where
  "async_tcp_server A bound accepted port w =
     (case bound port of
        Some m \<Rightarrow> Inl m
      | None \<Rightarrow> Inr (handle_accept A (accepted port) w))"

text \<open>The value returned and what is on standard error; a handler's exception ends the
  program as any other does.\<close>

definition cpp_server_main ::
  "'s asio \<Rightarrow> (16 word \<Rightarrow> string option) \<Rightarrow> (16 word \<Rightarrow> asio_error option \<times> 's) \<Rightarrow> string \<Rightarrow> string list
     \<Rightarrow> world \<Rightarrow> (int \<times> char list \<times> 's cpp_conn option) result option" where
  "cpp_server_main A bound accepted what argv w =
     (if length argv \<noteq> 2 then
        Some (case argv of [] \<Rightarrow> Inl NullPointer
              | p # _ \<Rightarrow> Inr (1, ''usage:'' @ p @ '' port.'' @ [NL], None))
      else
        let port = ucast (atoi (argv ! 1)) :: 16 word
        in case async_tcp_server A bound accepted port w of
             Inl m \<Rightarrow> Some (Inr (0, ''ERROR:'' @ m @ [NL], None))
           | Inr None \<Rightarrow> None
           | Inr (Some (Inl f)) \<Rightarrow>
               Some (if f = Exception then Inr (0, ''ERROR:'' @ what @ [NL], None) else Inl f)
           | Inr (Some (Inr c)) \<Rightarrow> Some (Inr (0, cc_stderr c, Some c)))"

section \<open>What a connection does\<close>

text \<open>What is kept of a stream: all of it after a clean end, its full blocks after a failure.\<close>

definition kept :: "asio_error \<Rightarrow> char list \<Rightarrow> char list" where
  "kept e d = (if e = Eof then d else take (BUFSIZ * (length d div BUFSIZ)) d)"

lemma kept_short: "length d < BUFSIZ \<Longrightarrow> kept e d = (if e = Eof then d else [])"
  by (simp add: kept_def)

lemma kept_block:
  assumes "BUFSIZ \<le> length d"
  shows "take BUFSIZ d @ kept e (drop BUFSIZ d) = kept e d"
proof -
  have "length d div BUFSIZ = Suc ((length d - BUFSIZ) div BUFSIZ)"
    using assms by (simp add: div_if)
  then have "take (BUFSIZ * (length d div BUFSIZ)) d =
      take BUFSIZ d @ take (BUFSIZ * ((length d - BUFSIZ) div BUFSIZ)) (drop BUFSIZ d)"
    by (simp add: take_add)
  then show ?thesis
    by (simp add: kept_def)
qed

lemma length_kept: "length (kept e d) \<le> length d"
  by (simp add: kept_def)

definition stored :: "'s cpp_conn \<Rightarrow> string \<Rightarrow> char list \<Rightarrow> 's cpp_conn \<Rightarrow> bool" where
  "stored c path d c' \<longleftrightarrow> files (cc_world c') = (files (cc_world c))(path \<mapsto> file_bytes (cc_world c) path @ d)
     \<and> streams (cc_world c') = streams (cc_world c) - 1
     \<and> cc_filesize c' = cc_filesize c + of_nat (length d)"

lemma complete_result:
  assumes "reads_ok A left ending"
  obtains t where "cpp_complete A c n =
      (if n \<le> length (left (cc_socket c)) then None else Some (ending (cc_socket c)),
       take n (left (cc_socket c)), c\<lparr>cc_socket := t\<rparr>)"
    "left t = drop n (left (cc_socket c))" "ending t = ending (cc_socket c)"
proof -
  obtain t where "as_read A (cc_socket c) n =
      (if n \<le> length (left (cc_socket c)) then None else Some (ending (cc_socket c)), take n (left (cc_socket c)), t)"
      "left t = drop n (left (cc_socket c))" "ending t = ending (cc_socket c)"
    using assms unfolding reads_ok_def by blast
  then show thesis
    by (intro that [of t]) (simp_all add: cpp_complete_def)
qed

lemma write_block_room:
  "length d \<le> room (cc_world c) \<Longrightarrow> write_block d path c =
     c\<lparr>cc_world := (cc_world c)\<lparr>files := (files (cc_world c))(path \<mapsto> file_bytes (cc_world c) path @ d),
         room := room (cc_world c) - length d\<rparr>,
       cc_filesize := cc_filesize c + of_nat (length d)\<rparr>"
  by (simp add: write_block_def fwrite_room)

lemma stored_block:
  assumes "length d \<le> room (cc_world c)" and "stored (write_block d path (c\<lparr>cc_socket := t, cc_debug := m\<rparr>)) path e c'"
  shows "stored c path (d @ e) c'"
  using assms by (simp add: stored_def write_block_room file_bytes_def add.assoc)

lemma write_blocks_result:
  assumes A: "reads_ok A left ending"
  shows "cc_fp c = Some path \<Longrightarrow> files (cc_world c) path \<noteq> None \<Longrightarrow>
    length (left (cc_socket c)) \<le> room (cc_world c) \<Longrightarrow>
    \<exists>c'. write_blocks A c = Some (Inr c') \<and> stored c path (kept (ending (cc_socket c)) (left (cc_socket c))) c'"
proof (induction "length (left (cc_socket c))" arbitrary: c rule: less_induct)
  case less
  let ?left = "left (cc_socket c)" and ?stop = "ending (cc_socket c)"
  obtain t where t: "cpp_complete A c BUFSIZ =
      (if BUFSIZ \<le> length ?left then None else Some ?stop, take BUFSIZ ?left, c\<lparr>cc_socket := t\<rparr>)"
      "left t = drop BUFSIZ ?left" "ending t = ?stop"
    by (rule complete_result [OF A])
  show ?case
  proof (cases "BUFSIZ \<le> length ?left")
    case True
    let ?d = "take BUFSIZ ?left"
    let ?c = "write_block ?d path (c\<lparr>cc_socket := t, cc_debug := cc_debug c @ [''recv:'' @ show_nat (length ?d)]\<rparr>)"
    have room: "length ?d \<le> room (cc_world c)"
      using less.prems(3) by simp
    have "?d \<noteq> []"
      using True BUFSIZ_pos by (metis length_greater_0_conv length_take min.absorb2)
    then have step: "write_blocks A c = write_blocks A ?c"
      using t(1) True less.prems(1)
      by (subst write_blocks.simps) (simp add: handle_write_file_def debug_log_def Let_def)
    have c: "cc_fp ?c = Some path" "cc_socket ?c = t" "files (cc_world ?c) path \<noteq> None"
        "room (cc_world ?c) = room (cc_world c) - BUFSIZ"
      using less.prems(1) room True by (simp_all add: write_block_room)
    have "length (left (cc_socket ?c)) < length ?left"
      using True BUFSIZ_pos unfolding c(2) t(2) length_drop by linarith
    moreover have "length (left (cc_socket ?c)) \<le> room (cc_world ?c)"
      using less.prems(3) unfolding c(2,4) t(2) by simp
    ultimately obtain c' where c': "write_blocks A ?c = Some (Inr c')"
        "stored ?c path (kept ?stop (drop BUFSIZ ?left)) c'"
      using less.hyps [of ?c] c t(2,3) by auto
    then show ?thesis
      using step stored_block [OF room c'(2)] kept_block [OF True] by simp
  next
    case False
    then have d: "take BUFSIZ ?left = ?left" "kept ?stop ?left = (if ?stop = Eof then ?left else [])"
      by (simp_all add: kept_short)
    show ?thesis
      using t(1) False less.prems unfolding d
      by (subst write_blocks.simps)
        (auto simp: handle_write_file_def debug_log_def Let_def stored_def write_block_room
          cpp_handle_error_def file_bytes_def fun_upd_idem)
  qed
qed

lemma cpp_start_stores:
  assumes "reads_ok A left ending" and "left s = header @ content" and "length header = MAX_FILENAME_LEN"
    and "decode_fileinfo header = Inr name" and "creatable w (cstr name)"
    and "length content \<le> room w + length (file_bytes w (cstr name))"
  shows "\<exists>c. cpp_start A (cpp_conn_new s w) = Some (Inr c)
    \<and> files (cc_world c) = (files w)(cstr name \<mapsto> kept (ending s) content)
    \<and> cc_filesize c = of_nat (length (kept (ending s) content)) \<and> streams (cc_world c) = streams w"
proof -
  let ?new = "cpp_conn_new s w"
  obtain t where t: "cpp_complete A ?new MAX_FILENAME_LEN = (None, header, ?new\<lparr>cc_socket := t\<rparr>)"
      "left t = content" "ending t = ending s"
    using complete_result [OF assms(1), of ?new MAX_FILENAME_LEN] assms(2,3) by (auto simp: cpp_conn_new_def)
  obtain w' where w': "fopen_wb w (cstr name) = Some w'" "files w' = (files w)(cstr name \<mapsto> [])"
      "room w' = room w + length (file_bytes w (cstr name))" "streams w' = Suc (streams w)"
    using assms(5) by (simp add: fopen_wb_def)
  let ?c = "(debug_log (''filename:'' @ name) (?new\<lparr>cc_socket := t, cc_filename := name\<rparr>))
     \<lparr>cc_world := w', cc_fp := Some (cstr name)\<rparr>"
  have "handle_read_request None header (?new\<lparr>cc_socket := t\<rparr>) = Inr (?c, Read_block)"
    using assms(4) w'(1) by (simp add: handle_read_request_def cpp_conn_new_def debug_log_def)
  then have start: "cpp_start A ?new = write_blocks A ?c"
    unfolding cpp_start_def t(1) by simp
  have "cc_socket ?c = t" "cc_filesize ?c = 0"
    by (simp_all add: cpp_conn_new_def debug_log_def)
  then obtain c where "write_blocks A ?c = Some (Inr c)" "stored ?c (cstr name) (kept (ending s) content) c"
    using write_blocks_result [OF assms(1), of ?c "cstr name"] t(2,3) w'(2,3) assms(6) by auto
  then show ?thesis
    using start w'(2,4) \<open>cc_filesize ?c = 0\<close> by (auto simp: stored_def file_bytes_def)
qed

section \<open>Properties\<close>

text \<open>C21. The C++ server, sent a header and then the bytes of a file, opens the path the header
  names as it is, and ends with exactly those bytes in it, their number counted and the file
  closed, if the peer has shut its side down: an empty file included. After a failed
  connection only the full blocks of \<open>BUFSIZ\<close> bytes are there, and nothing marks the
  file as cut.\<close>

theorem cpp_server_stores:
  assumes "reads_ok A left ending" and "left s = header @ content" and "length header = MAX_FILENAME_LEN"
    and "decode_fileinfo header = Inr name" and "creatable w (cstr name)"
    and "length content \<le> room w + length (file_bytes w (cstr name))"
  shows "\<exists>c. cpp_start A (cpp_conn_new s w) = Some (Inr c)
    \<and> files (cc_world c) = (files w)(cstr name \<mapsto> kept (ending s) content)
    \<and> cc_filesize c = of_nat (length (kept (ending s) content)) \<and> streams (cc_world c) = streams w"
  using assms by (rule cpp_start_stores)

text \<open>A disk with room, for the witness.\<close>

definition sample_disk :: world where
  "sample_disk = \<lparr>files = [''in'' \<mapsto> ''hello''], creatable = (\<lambda>p. p \<noteq> []), room = 100,
     streams = 0, blocks = 0, logs = []\<rparr>"

theorem cpp_server_stores_witness:
  "\<exists>c. cpp_start list_asio (cpp_conn_new (header_bytes ''/etc/motd'' @ replicate 116 NUL @ ''hello'', Eof, []) sample_disk)
      = Some (Inr c)
    \<and> files (cc_world c) = (files sample_disk)(cstr ''/etc/motd'' \<mapsto>
        kept (fst (snd (header_bytes ''/etc/motd'' @ replicate 116 NUL @ ''hello'', Eof, [] :: char list))) ''hello'')
    \<and> cc_filesize c = of_nat (length
        (kept (fst (snd (header_bytes ''/etc/motd'' @ replicate 116 NUL @ ''hello'', Eof, [] :: char list))) ''hello''))
    \<and> streams (cc_world c) = streams sample_disk"
proof (rule cpp_server_stores [OF list_asio_ok(1)])
  show "fst (header_bytes ''/etc/motd'' @ replicate 116 NUL @ ''hello'', Eof, [] :: char list)
      = (header_bytes ''/etc/motd'' @ replicate 116 NUL) @ ''hello''"
    by simp
  show "decode_fileinfo (header_bytes ''/etc/motd'' @ replicate 116 NUL) = Inr ''/etc/motd''"
    by (rule decode_header) simp
qed (simp_all add: header_bytes_def length_show_small MAX_FILENAME_LEN_def sample_disk_def cstr_def file_bytes_def)

end
