(* ===== verification/CppClient.thy ===== *)
theory CppClient
  imports CppServer Path
begin

text \<open>
  \<^verbatim>\<open>cpp/client.cc\<close>: it finds the server, sends the header and then the file a block of
  \<open>BUFSIZ\<close> bytes at a time, and shuts its side of the connection down.
\<close>

section \<open>AsyncTcpClient\<close>

text \<open>\<open>cl_fp\<close> is what the open file still has to deliver.\<close>

record 's cpp_client =
  k_filename :: string
  k_fp :: "char list option"
  k_filesize :: "64 word"
  k_host :: string
  k_port :: string
  k_socket :: 's
  k_world :: world
  k_stderr :: "char list"
  k_debug :: "string list"

definition k_debug_log :: "string \<Rightarrow> 's cpp_client \<Rightarrow> 's cpp_client" where
  "k_debug_log m c = c\<lparr>k_debug := k_debug c @ [m]\<rparr>"

definition k_print :: "string \<Rightarrow> 's cpp_client \<Rightarrow> 's cpp_client" where
  "k_print m c = c\<lparr>k_stderr := k_stderr c @ m @ [NL]\<rparr>"

text \<open>The constructor; whether it has asked for the host to be resolved. \<open>find\<close> is for the
  first colon.\<close>

definition async_tcp_client :: "'s \<Rightarrow> world \<Rightarrow> string \<Rightarrow> string \<Rightarrow> 's cpp_client \<times> bool" where
  "async_tcp_client s w server_host path =
     (let c = \<lparr>k_filename = path, k_fp = None, k_filesize = 0, k_host = [], k_port = [],
                k_socket = s, k_world = w, k_stderr = [], k_debug = []\<rparr>
      in case fopen_rb w (cstr path) of
           None \<Rightarrow> (k_print (''cannot find file:'' @ cstr path) c, False)
         | Some (st, w) \<Rightarrow>
             let c = c\<lparr>k_fp := Some st, k_world := w\<rparr>;
                 h = takeWhile (\<lambda>x. x \<noteq> CHR '':'') server_host
             in if h = server_host then (k_print ''server host parsed ERROR!'' c, False)
                else (c\<lparr>k_port := drop (length h + 1) server_host, k_host := h\<rparr>, True))"

text \<open>
  The header goes out of a local array that is gone when the function returns: unless the
  operation takes the bytes at once, it sends what the stack holds later.
\<close>

record sending =
  sd_frame :: "char list"
  sd_at_once :: bool
  sd_later :: "char list"

definition send_fileinfo :: "sending \<Rightarrow> 's asio \<Rightarrow> 's cpp_client \<Rightarrow> (asio_error option \<times> 's cpp_client) result" where
  "send_fileinfo S A c =
     rbind (basename (k_filename c @ [NUL])) (\<lambda>(name, b).
     let c = c\<lparr>k_filename := take (length (k_filename c)) b\<rparr>
     in rbind (encode_fileinfo (sd_frame S) name) (\<lambda>buf.
          case as_write A (k_socket c) (if sd_at_once S then buf else sd_later S) of
            (e, s) \<Rightarrow> Inr (e, c\<lparr>k_socket := s\<rparr>)))"

partial_function (option) handle_read_file ::
  "'s asio \<Rightarrow> asio_error option \<Rightarrow> 's cpp_client \<Rightarrow> 's cpp_client result option" where
  "handle_read_file A e c =
     (case e of
        Some e \<Rightarrow>
          Some (Inr (if e = Eof then c\<lparr>k_socket := as_close A (k_socket c)\<rparr>
                     else k_print (''send file ERROR:'' @ cstr (error_message e)) c))
      | None \<Rightarrow>
          (case k_fp c of
             None \<Rightarrow> Some (Inl UseAfterFree)
           | Some st \<Rightarrow>
               (case fread st BUFSIZ of (d, st) \<Rightarrow>
                  if d \<noteq> [] then
                    (let c = k_debug_log (''send size:'' @ show_nat (length d))
                               (c\<lparr>k_fp := Some st, k_filesize := k_filesize c + of_nat (length d)\<rparr>)
                     in case as_write A (k_socket c) d of
                          (e, s) \<Rightarrow> handle_read_file A e (c\<lparr>k_socket := s\<rparr>))
                  else
                    (let c = k_debug_log (''total size:'' @ show_nat (unat (k_filesize c)))
                               (c\<lparr>k_fp := None, k_world := fclose (k_world c)\<rparr>)
                     in Some (Inr (c\<lparr>k_socket := as_shutdown A (k_socket c)\<rparr>))))))"

text \<open>The endpoints are tried in turn; \<open>connect\<close> is what \<open>async_connect\<close> completes with.\<close>

fun handle_connect ::
  "('p \<Rightarrow> 's \<Rightarrow> asio_error option \<times> 's) \<Rightarrow> 's asio \<Rightarrow> asio_error option \<Rightarrow> 'p list \<Rightarrow> 's cpp_client
     \<Rightarrow> bool \<times> 's cpp_client" where
  "handle_connect connect A None endpoints c = (True, c)"
| "handle_connect connect A (Some e) [] c = (False, k_print (''connect ERROR:'' @ cstr (error_message e)) c)"
| "handle_connect connect A (Some e) (p # endpoints) c =
     (case connect p (as_close A (k_socket c)) of
        (e, s) \<Rightarrow> handle_connect connect A e endpoints (c\<lparr>k_socket := s\<rparr>))"

text \<open>Dereferencing the end of an empty list of endpoints is a fault.\<close>

definition handle_resolve ::
  "('p \<Rightarrow> 's \<Rightarrow> asio_error option \<times> 's) \<Rightarrow> 's asio \<Rightarrow> asio_error + 'p list \<Rightarrow> 's cpp_client
     \<Rightarrow> (bool \<times> 's cpp_client) result" where
  "handle_resolve connect A resolved c =
     (case resolved of
        Inl e \<Rightarrow> Inr (False, k_print (''resolve ERROR:'' @ cstr (error_message e)) c)
      | Inr [] \<Rightarrow> Inl OutOfBounds
      | Inr (p # endpoints) \<Rightarrow>
          (case connect p (k_socket c) of
             (e, s) \<Rightarrow> Inr (handle_connect connect A e endpoints (c\<lparr>k_socket := s\<rparr>))))"

text \<open>The client as \<open>main\<close> runs it, from the arguments on; the destructor closes the socket.\<close>

definition run_client ::
  "sending \<Rightarrow> ('p \<Rightarrow> 's \<Rightarrow> asio_error option \<times> 's) \<Rightarrow> (string \<Rightarrow> string \<Rightarrow> asio_error + 'p list) \<Rightarrow> 's asio
     \<Rightarrow> 's \<Rightarrow> world \<Rightarrow> string \<Rightarrow> string \<Rightarrow> 's cpp_client result option" where
  "run_client S connect resolve A s w host filename =
     (case async_tcp_client s w host filename of (c, asked) \<Rightarrow>
        if \<not> asked then Some (Inr c)
        else case handle_resolve connect A (resolve (k_host c) (k_port c)) c of
               Inl f \<Rightarrow> Some (Inl f)
             | Inr (connected, c) \<Rightarrow>
                 if \<not> connected then Some (Inr c)
                 else case send_fileinfo S A c of
                        Inl f \<Rightarrow> Some (Inl f)
                      | Inr (e, c) \<Rightarrow> handle_read_file A e c)"

definition cpp_client_main ::
  "sending \<Rightarrow> ('p \<Rightarrow> 's \<Rightarrow> asio_error option \<times> 's) \<Rightarrow> (string \<Rightarrow> string \<Rightarrow> asio_error + 'p list) \<Rightarrow> 's asio
     \<Rightarrow> 's \<Rightarrow> world \<Rightarrow> string list \<Rightarrow> (int \<times> char list \<times> 's cpp_client option) result option" where
  "cpp_client_main S connect resolve A s w argv =
     (case argv of
        [p, host, filename] \<Rightarrow>
          map_option (\<lambda>r. rbind r (\<lambda>c. Inr (0, k_stderr c, Some (c\<lparr>k_socket := as_close A (k_socket c)\<rparr>))))
            (run_client S connect resolve A s w host filename)
      | p # _ \<Rightarrow> Some (Inr (1, ''usage:'' @ p @ '' host:port filename.'' @ [NL], None))
      | [] \<Rightarrow> Some (Inl NullPointer))"

section \<open>What the client sends\<close>

lemma handle_read_file_sends:
  assumes "writes_ok A sent"
  shows "k_fp c = Some st \<Longrightarrow> \<exists>c'. handle_read_file A None c = Some (Inr c')
    \<and> sent (k_socket c') = sent (k_socket c) @ st \<and> k_stderr c' = k_stderr c
    \<and> k_filesize c' = k_filesize c + of_nat (length st) \<and> k_world c' = fclose (k_world c)"
proof (induction st arbitrary: c rule: stdio.pull_induct)
  case (empty st)
  then show ?case
    using assms
    by (subst handle_read_file.simps) (simp add: fread_def writes_ok_def k_debug_log_def)
next
  case (step st)
  let ?d = "take BUFSIZ st"
  let ?c = "(k_debug_log (''send size:'' @ show_nat (length ?d))
      (c\<lparr>k_fp := Some (drop BUFSIZ st), k_filesize := k_filesize c + of_nat (length ?d)\<rparr>))"
  obtain t where t: "as_write A (k_socket c) ?d = (None, t)" "sent t = sent (k_socket c) @ ?d"
    using assms unfolding writes_ok_def by (metis prod.collapse)
  let ?n = "?c\<lparr>k_socket := t\<rparr>"
  have "?d \<noteq> []"
    using step(1) by (simp add: BUFSIZ_def)
  then have eq: "handle_read_file A None c = handle_read_file A None ?n"
    using step(3) t(1) by (subst handle_read_file.simps) (simp add: fread_def k_debug_log_def Let_def)
  have "k_fp ?n = Some (snd (fread st BUFSIZ))"
    by (simp add: k_debug_log_def fread_def)
  then obtain c' where "handle_read_file A None ?n = Some (Inr c')" "sent (k_socket c') = sent t @ drop BUFSIZ st"
      "k_stderr c' = k_stderr c" "k_filesize c' = k_filesize ?n + of_nat (length (drop BUFSIZ st))"
      "k_world c' = fclose (k_world c)"
    using step(2) [of ?n] by (auto simp: k_debug_log_def fread_def)
  moreover have "of_nat (length st) = (of_nat (length ?d) + of_nat (length (drop BUFSIZ st)) :: 64 word)"
    by (metis append_take_drop_id length_append of_nat_add)
  ultimately show ?case
    using eq t(2) by (simp add: k_debug_log_def add.assoc)
qed

text \<open>The header as it reaches the peer.\<close>

definition header_sent :: "sending \<Rightarrow> string \<Rightarrow> char list" where
  "header_sent S name = (if sd_at_once S then header_bytes name @ drop (length (header_bytes name)) (sd_frame S)
     else sd_later S)"

lemma send_fileinfo_sends:
  assumes "writes_ok A sent" and "length (sd_frame S) = MAX_FILENAME_LEN" and "no_nul (k_filename c)"
    and "length (base (k_filename c)) \<le> 123"
  shows "\<exists>f t. send_fileinfo S A c = Inr (None, c\<lparr>k_filename := f, k_socket := t\<rparr>)
    \<and> sent t = sent (k_socket c) @ header_sent S (base (k_filename c))"
proof -
  let ?name = "base (k_filename c)"
  let ?buf = "header_bytes ?name @ drop (length (header_bytes ?name)) (sd_frame S)"
  have "cstr (k_filename c @ [NUL]) = k_filename c"
    using assms(3) by (simp add: cbuf)
  then obtain b where b: "basename (k_filename c @ [NUL]) = Inr (?name, b)"
    using basename_Inr [of "k_filename c @ [NUL]"] by auto
  have e: "encode_fileinfo (sd_frame S) ?name = Inr ?buf"
    using encode_fileinfo_eq [OF assms(2), of ?name] header_bytes_fits [of ?name] assms(4) by simp
  obtain t where "as_write A (k_socket c) (if sd_at_once S then ?buf else sd_later S) = (None, t)"
      "sent t = sent (k_socket c) @ (if sd_at_once S then ?buf else sd_later S)"
    using assms(1) unfolding writes_ok_def by (metis prod.collapse)
  then show ?thesis
    using b e by (intro exI [of _ "take (length (k_filename c)) b"] exI [of _ t])
      (auto simp: send_fileinfo_def header_sent_def Let_def)
qed

text \<open>The peer is found: the host has a colon and its first endpoint takes the connection.\<close>

definition reaches ::
  "('p \<Rightarrow> 's \<Rightarrow> asio_error option \<times> 's) \<Rightarrow> (string \<Rightarrow> string \<Rightarrow> asio_error + 'p list) \<Rightarrow> 's
     \<Rightarrow> string \<Rightarrow> string \<Rightarrow> 's \<Rightarrow> bool" where
  "reaches connect resolve s h p t \<longleftrightarrow> CHR '':'' \<notin> set h
     \<and> (\<exists>e es. resolve h p = Inr (e # es) \<and> connect e s = (None, t))"

lemma client_asks:
  assumes "CHR '':'' \<notin> set h" and "files w (cstr path) = Some bs"
  shows "\<exists>c. async_tcp_client s w (h @ CHR '':'' # p) path = (c, True) \<and> k_filename c = path \<and> k_fp c = Some bs
    \<and> k_filesize c = 0 \<and> k_host c = h \<and> k_port c = p \<and> k_socket c = s \<and> k_stderr c = []
    \<and> k_world c = w\<lparr>streams := Suc (streams w)\<rparr>"
proof -
  have "takeWhile (\<lambda>x. x \<noteq> CHR '':'') (h @ CHR '':'' # p) = h"
    using assms(1) by (induction h) auto
  then show ?thesis
    using assms(2) by (simp add: async_tcp_client_def fopen_rb_def Let_def)
qed

lemma run_client_sends:
  assumes A: "writes_ok A sent" and "sent t = []" and reach: "reaches connect resolve s h p t"
    and "files w path = Some bs" and "no_nul path" and "length (base path) \<le> 123"
    and "length (sd_frame S) = MAX_FILENAME_LEN"
  shows "\<exists>c. run_client S connect resolve A s w (h @ CHR '':'' # p) path = Some (Inr c)
    \<and> sent (k_socket c) = header_sent S (base path) @ bs \<and> k_stderr c = []
    \<and> k_filesize c = of_nat (length bs) \<and> streams (k_world c) = streams w"
proof -
  have h: "CHR '':'' \<notin> set h" and "cstr path = path"
    using reach assms(5) by (simp_all add: reaches_def cbuf)
  then obtain c where c: "async_tcp_client s w (h @ CHR '':'' # p) path = (c, True)" "k_filename c = path"
      "k_fp c = Some bs" "k_filesize c = 0" "k_host c = h" "k_port c = p" "k_socket c = s" "k_stderr c = []"
      "k_world c = w\<lparr>streams := Suc (streams w)\<rparr>"
    using client_asks [of h w path bs s p] assms(4) by auto
  let ?c = "c\<lparr>k_socket := t\<rparr>"
  have con: "handle_resolve connect A (resolve h p) c = Inr (True, ?c)"
    using reach c(7) by (auto simp: reaches_def handle_resolve_def)
  obtain f u where u: "send_fileinfo S A ?c = Inr (None, ?c\<lparr>k_filename := f, k_socket := u\<rparr>)"
      "sent u = header_sent S (base path)"
    using send_fileinfo_sends [OF A assms(7), of ?c] assms(2,5,6) c(2) by auto
  let ?d = "?c\<lparr>k_filename := f, k_socket := u\<rparr>"
  obtain e where "handle_read_file A None ?d = Some (Inr e)" "sent (k_socket e) = sent u @ bs"
      "k_stderr e = []" "k_filesize e = of_nat (length bs)" "k_world e = fclose (k_world c)"
    using handle_read_file_sends [OF A, of ?d bs] c(3,4,8) by auto
  then show ?thesis
    using c u con by (simp add: run_client_def)
qed

section \<open>Properties\<close>

definition sample_sending :: sending where
  "sample_sending = \<lparr>sd_frame = replicate MAX_FILENAME_LEN CHR ''?'', sd_at_once = True, sd_later = []\<rparr>"

definition sample_connect :: "nat \<Rightarrow> char list \<times> asio_error \<times> char list \<Rightarrow> asio_error option \<times> char list \<times> asio_error \<times> char list" where
  "sample_connect p s = (None, [], Eof, [])"

lemma sample_reaches:
  "reaches sample_connect (\<lambda>h p. Inr [1]) ([], Eof, []) ''localhost'' ''50013'' ([], Eof, [])"
  by (simp add: reaches_def sample_connect_def)

text \<open>What the network does between the two ends: it delivers what was sent, and then its end.\<close>

definition carries :: "('s \<Rightarrow> 't) \<Rightarrow> ('s \<Rightarrow> char list) \<Rightarrow> ('t \<Rightarrow> char list) \<Rightarrow> ('t \<Rightarrow> asio_error) \<Rightarrow> bool" where
  "carries deliver sent left ending \<longleftrightarrow> (\<forall>s. left (deliver s) = sent s \<and> ending (deliver s) = Eof)"

text \<open>C20. The C++ client and server, run from their command lines, together copy every file,
  empty or not, to the file of its base name in the server's directory, if the header goes
  out at once, and both return 0.\<close>

theorem cpp_transfer:
  assumes "writes_ok A sent" and "sent t = []" and "reaches connect resolve s h p t"
    and "files w path = Some bs" and "no_nul path" and "length (base path) \<le> 123"
    and "length (sd_frame S) = MAX_FILENAME_LEN" and "sd_at_once S"
    and "reads_ok B left ending" and "carries deliver sent left ending"
    and "bound (ucast (atoi port)) = None"
    and "creatable v (base path)" and "length bs \<le> room v + length (file_bytes v (base path))"
  shows "\<exists>c d. cpp_client_main S connect resolve A s w [prog, h @ CHR '':'' # p, path] = Some (Inr (0, [], Some c))
    \<and> cpp_server_main B bound (\<lambda>q. (None, deliver (k_socket c))) what [prog', port] v
        = Some (Inr (0, cc_stderr d, Some d))
    \<and> files (cc_world d) = (files v)(base path \<mapsto> bs) \<and> streams (cc_world d) = streams v"
proof -
  obtain c where c: "run_client S connect resolve A s w (h @ CHR '':'' # p) path = Some (Inr c)"
      "sent (k_socket c) = header_sent S (base path) @ bs" "k_stderr c = []"
    using run_client_sends [OF assms(1-7)] by blast
  let ?c = "c\<lparr>k_socket := as_close A (k_socket c)\<rparr>"
  have main: "cpp_client_main S connect resolve A s w [prog, h @ CHR '':'' # p, path] = Some (Inr (0, [], Some ?c))"
    using c(1,3) by (simp add: cpp_client_main_def)
  have "length (header_bytes (base path)) \<le> MAX_FILENAME_LEN"
    using header_bytes_fits assms(6) by blast
  then have header: "length (header_sent S (base path)) = MAX_FILENAME_LEN"
      "decode_fileinfo (header_sent S (base path)) = Inr (base path)"
    using assms(6-8) decode_header by (simp_all add: header_sent_def)
  have left: "left (deliver (k_socket ?c)) = header_sent S (base path) @ bs" "ending (deliver (k_socket ?c)) = Eof"
    using assms(1,10) c(2) by (simp_all add: carries_def writes_ok_def)
  have "cstr (base path) = base path"
    using assms(5) no_nul_base by (simp add: cbuf)
  then obtain d where d: "cpp_start B (cpp_conn_new (deliver (k_socket ?c)) v) = Some (Inr d)"
      "files (cc_world d) = (files v)(base path \<mapsto> bs)" "streams (cc_world d) = streams v"
    using cpp_start_stores [OF assms(9) left(1) header] assms(12,13) left(2) by (auto simp: kept_def)
  have "cpp_server_main B bound (\<lambda>q. (None, deliver (k_socket ?c))) what [prog', port] v
      = Some (Inr (0, cc_stderr d, Some d))"
    using d(1) assms(11) by (simp add: cpp_server_main_def async_tcp_server_def handle_accept_def)
  with main d(2,3) show ?thesis
    by blast
qed

theorem cpp_transfer_witness:
  "\<exists>c d. cpp_client_main sample_sending sample_connect (\<lambda>h p. Inr [1]) list_asio ([], Eof, []) sample_disk
        [''client'', ''localhost'' @ CHR '':'' # ''50013'', ''in''] = Some (Inr (0, [], Some c))
    \<and> cpp_server_main list_asio (\<lambda>q. None) (\<lambda>q. (None, (\<lambda>(l, e, snt). (snt, Eof, [])) (k_socket c))) ''''
        [''server'', ''50013''] sample_disk = Some (Inr (0, cc_stderr d, Some d))
    \<and> files (cc_world d) = (files sample_disk)(base ''in'' \<mapsto> ''hello'') \<and> streams (cc_world d) = streams sample_disk"
proof (rule cpp_transfer [OF list_asio_ok(2) _ sample_reaches])
  show "reads_ok list_asio fst (\<lambda>s. fst (snd s))"
    by (rule list_asio_ok)
  show "carries (\<lambda>(l, e, snt). (snt, Eof, [])) (\<lambda>s. snd (snd s)) fst (\<lambda>s. fst (snd s))"
    by (simp add: carries_def case_prod_beta)
qed (simp_all add: sample_disk_def sample_sending_def base_def last_part_def cut_slashes_def)

end
