(* ===== verification/Compiler_Id.thy ===== *)
theory Compiler_Id
  imports Decimal
begin

text \<open>
  The programs by which the build recognises its compilers,
  \<^verbatim>\<open>cpp/CMakeFiles/3.2.2/CompilerIdC\<close> and \<^verbatim>\<open>CompilerIdCXX\<close>: preprocessor
  conditions over the macros a compiler predefines, which choose the strings the program
  holds, and a \<open>main\<close> that reads a character of each.

  The macros are the argument of the model: a map from their names to their numbers. For a
  macro that is only tested for being defined the number does not matter. The numbers are
  natural ones, as those of compilers are.
\<close>

section \<open>Macros\<close>

type_synonym macros = "string \<rightharpoonup> nat"

definition any_of :: "macros \<Rightarrow> string list \<Rightarrow> bool" where
  "any_of m xs \<longleftrightarrow> list_ex (\<lambda>x. m x \<noteq> None) xs"

abbreviation defined :: "macros \<Rightarrow> string \<Rightarrow> bool" where
  "defined m x \<equiv> m x \<noteq> None"

text \<open>In a condition of the preprocessor a name that is not a macro counts as 0; in the
  program it is an undeclared identifier.\<close>

definition macro_value :: "macros \<Rightarrow> string \<Rightarrow> nat" where
  "macro_value m x = (case m x of None \<Rightarrow> 0 | Some n \<Rightarrow> n)"

datatype compile_error = ErrorDirective string | Undeclared string

type_synonym 'a compiled = "compile_error + 'a"

fun cbind :: "'a compiled \<Rightarrow> ('a \<Rightarrow> 'b compiled) \<Rightarrow> 'b compiled" where
  "cbind (Inl e) f = Inl e"
| "cbind (Inr x) f = f x"

lemma cbind_eq_Inr: "cbind r f = Inr y \<longleftrightarrow> (\<exists>x. r = Inr x \<and> f x = Inr y)"
  by (cases r) simp_all

text \<open>Eight digits, from the highest: a decimal digit each, or four bits each.\<close>

definition DEC :: "nat \<Rightarrow> string" where
  "DEC n = map (\<lambda>k. char_of (48 + n div k mod 10))
     [10000000, 1000000, 100000, 10000, 1000, 100, 10, 1 :: nat]"

definition HEX :: "nat \<Rightarrow> string" where
  "HEX n = map (\<lambda>k. char_of (48 + drop_bit k n mod 16)) [28, 24, 20, 16, 12, 8, 4, 0 :: nat]"

text \<open>The digits of an expression \<open>f\<close> of the macro \<open>x\<close>.\<close>

definition dec :: "macros \<Rightarrow> string \<Rightarrow> (nat \<Rightarrow> nat) \<Rightarrow> string compiled" where
  "dec m x f = (case m x of None \<Rightarrow> Inl (Undeclared x) | Some n \<Rightarrow> Inr (DEC (f n)))"

definition hex :: "macros \<Rightarrow> string \<Rightarrow> (nat \<Rightarrow> nat) \<Rightarrow> string compiled" where
  "hex m x f = (case m x of None \<Rightarrow> Inl (Undeclared x) | Some n \<Rightarrow> Inr (HEX (f n)))"

definition dec_if_defined :: "macros \<Rightarrow> string \<Rightarrow> string compiled option" where
  "dec_if_defined m x = (if defined m x then Some (dec m x id) else None)"

section \<open>What the conditions define\<close>

text \<open>The macros \<open>COMPILER_VERSION_MAJOR\<close> and so on, where they are defined. Their text is
  expanded where it is used.\<close>

record version =
  major :: "string compiled option"
  minor :: "string compiled option"
  patch :: "string compiled option"
  tweak :: "string compiled option"

definition no_version :: version where
  "no_version = \<lparr>major = None, minor = None, patch = None, tweak = None\<rparr>"

definition two :: "string compiled \<Rightarrow> string compiled \<Rightarrow> version" where
  "two a b = no_version\<lparr>major := Some a, minor := Some b\<rparr>"

definition three :: "string compiled \<Rightarrow> string compiled \<Rightarrow> string compiled \<Rightarrow> version" where
  "three a b c = two a b\<lparr>patch := Some c\<rparr>"

record compiler =
  COMPILER_ID :: string
  COMPILER_VERSION :: version
  SIMULATE_ID :: "string option"
  SIMULATE_VERSION :: version

definition compiler_named :: "string \<Rightarrow> version \<Rightarrow> compiler" where
  "compiler_named i v = \<lparr>COMPILER_ID = i, COMPILER_VERSION = v, SIMULATE_ID = None,
     SIMULATE_VERSION = no_version\<rparr>"

text \<open>Versions written \<open>VRP\<close> and \<open>VVRR\<close>.\<close>

definition vrp :: "macros \<Rightarrow> string \<Rightarrow> version" where
  "vrp m x = three (dec m x (\<lambda>n. n div 100)) (dec m x (\<lambda>n. n div 10 mod 10)) (dec m x (\<lambda>n. n mod 10))"

definition vvrr :: "macros \<Rightarrow> string \<Rightarrow> version" where
  "vvrr m x = two (dec m x (\<lambda>n. n div 100)) (dec m x (\<lambda>n. n mod 100))"

definition simulating :: "macros \<Rightarrow> compiler \<Rightarrow> compiler" where
  "simulating m c =
     (if defined m ''_MSC_VER''
      then c\<lparr>SIMULATE_ID := Some ''MSVC'', SIMULATE_VERSION := vvrr m ''_MSC_VER''\<rparr> else c)"

section \<open>One compiler after another\<close>

text \<open>Where the two programs differ in the name of a macro only, it is an argument.\<close>

definition comeau :: "macros \<Rightarrow> compiler" where
  "comeau m = compiler_named ''Comeau'' (vvrr m ''__COMO_VERSION__'')"

definition intel :: "macros \<Rightarrow> compiler" where
  "intel m = simulating m (compiler_named ''Intel''
     (two (dec m ''__INTEL_COMPILER'' (\<lambda>n. n div 100)) (dec m ''__INTEL_COMPILER'' (\<lambda>n. n div 10 mod 10))
      \<lparr>patch := Some (if defined m ''__INTEL_COMPILER_UPDATE'' then dec m ''__INTEL_COMPILER_UPDATE'' id
                      else dec m ''__INTEL_COMPILER'' (\<lambda>n. n mod 10)),
       tweak := dec_if_defined m ''__INTEL_COMPILER_BUILD_DATE''\<rparr>))"

definition pathscale :: "macros \<Rightarrow> compiler" where
  "pathscale m = compiler_named ''PathScale''
     (two (dec m ''__PATHCC__'' id) (dec m ''__PATHCC_MINOR__'' id)
      \<lparr>patch := dec_if_defined m ''__PATHCC_PATCHLEVEL__''\<rparr>)"

definition embarcadero :: "macros \<Rightarrow> compiler" where
  "embarcadero m = compiler_named ''Embarcadero''
     (three (hex m ''__CODEGEARC_VERSION__'' (\<lambda>n. drop_bit 24 n mod 0x100))
        (hex m ''__CODEGEARC_VERSION__'' (\<lambda>n. drop_bit 16 n mod 0x100))
        (hex m ''__CODEGEARC_VERSION__'' (\<lambda>n. n mod 0x10000)))"

definition borland :: "macros \<Rightarrow> compiler" where
  "borland m = compiler_named ''Borland''
     (two (hex m ''__BORLANDC__'' (drop_bit 8)) (hex m ''__BORLANDC__'' (\<lambda>n. n mod 0x100)))"

definition watcom_patch :: "macros \<Rightarrow> string compiled option" where
  "watcom_patch m =
     (if 0 < macro_value m ''__WATCOMC__'' mod 10 then Some (dec m ''__WATCOMC__'' (\<lambda>n. n mod 10)) else None)"

definition watcom :: "macros \<Rightarrow> compiler" where
  "watcom m = compiler_named ''Watcom''
     (two (dec m ''__WATCOMC__'' (\<lambda>n. n div 100)) (dec m ''__WATCOMC__'' (\<lambda>n. n div 10 mod 10))
      \<lparr>patch := watcom_patch m\<rparr>)"

definition openwatcom :: "macros \<Rightarrow> compiler" where
  "openwatcom m = compiler_named ''OpenWatcom''
     (two (dec m ''__WATCOMC__'' (\<lambda>n. (n - 1100) div 100)) (dec m ''__WATCOMC__'' (\<lambda>n. n div 10 mod 10))
      \<lparr>patch := watcom_patch m\<rparr>)"

definition sunpro :: "macros \<Rightarrow> string \<Rightarrow> compiler" where
  "sunpro m x = compiler_named ''SunPro''
     (if 0x5100 \<le> macro_value m x
      then three (hex m x (drop_bit 12)) (hex m x (\<lambda>n. drop_bit 4 n mod 0x100)) (hex m x (\<lambda>n. n mod 0x10))
      else three (hex m x (drop_bit 8)) (hex m x (\<lambda>n. drop_bit 4 n mod 0x10)) (hex m x (\<lambda>n. n mod 0x10)))"

definition hp :: "macros \<Rightarrow> string \<Rightarrow> compiler" where
  "hp m x = compiler_named ''HP''
     (three (dec m x (\<lambda>n. n div 10000)) (dec m x (\<lambda>n. n div 100 mod 100)) (dec m x (\<lambda>n. n mod 100)))"

definition compaq :: "macros \<Rightarrow> string \<Rightarrow> compiler" where
  "compaq m x = compiler_named ''Compaq''
     (three (dec m x (\<lambda>n. n div 10000000)) (dec m x (\<lambda>n. n div 100000 mod 100)) (dec m x (\<lambda>n. n mod 10000)))"

definition pgi :: "macros \<Rightarrow> compiler" where
  "pgi m = compiler_named ''PGI''
     (two (dec m ''__PGIC__'' id) (dec m ''__PGIC_MINOR__'' id)\<lparr>patch := dec_if_defined m ''__PGIC_PATCHLEVEL__''\<rparr>)"

definition cray :: "macros \<Rightarrow> compiler" where
  "cray m = compiler_named ''Cray'' (two (dec m ''_RELEASE'' id) (dec m ''_RELEASE_MINOR'' id))"

definition ti :: "macros \<Rightarrow> compiler" where
  "ti m = compiler_named ''TI''
     (three (dec m ''__TI_COMPILER_VERSION__'' (\<lambda>n. n div 1000000))
        (dec m ''__TI_COMPILER_VERSION__'' (\<lambda>n. n div 1000 mod 1000))
        (dec m ''__TI_COMPILER_VERSION__'' (\<lambda>n. n mod 1000)))"

definition clang_version :: "macros \<Rightarrow> version" where
  "clang_version m =
     three (dec m ''__clang_major__'' id) (dec m ''__clang_minor__'' id) (dec m ''__clang_patchlevel__'' id)"

definition apple_clang :: "macros \<Rightarrow> compiler" where
  "apple_clang m = simulating m (compiler_named ''AppleClang''
     (clang_version m\<lparr>tweak := Some (dec m ''__apple_build_version__'' id)\<rparr>))"

definition clang :: "macros \<Rightarrow> compiler" where
  "clang m = simulating m (compiler_named ''Clang'' (clang_version m))"

definition gnu :: "macros \<Rightarrow> compiler" where
  "gnu m = compiler_named ''GNU''
     (two (dec m ''__GNUC__'' id) (dec m ''__GNUC_MINOR__'' id)\<lparr>patch := dec_if_defined m ''__GNUC_PATCHLEVEL__''\<rparr>)"

definition msvc :: "macros \<Rightarrow> compiler" where
  "msvc m = compiler_named ''MSVC''
     (vvrr m ''_MSC_VER''
      \<lparr>patch := (if defined m ''_MSC_FULL_VER''
                 then Some (if 1400 \<le> macro_value m ''_MSC_VER'' then dec m ''_MSC_FULL_VER'' (\<lambda>n. n mod 100000)
                            else dec m ''_MSC_FULL_VER'' (\<lambda>n. n mod 10000))
                 else None),
       tweak := dec_if_defined m ''_MSC_BUILD''\<rparr>)"

definition adsp :: "macros \<Rightarrow> compiler" where
  "adsp m = compiler_named ''ADSP''
     (if defined m ''__VISUALDSPVERSION__''
      then three (hex m ''__VISUALDSPVERSION__'' (drop_bit 24))
        (hex m ''__VISUALDSPVERSION__'' (\<lambda>n. drop_bit 16 n mod 0x100))
        (hex m ''__VISUALDSPVERSION__'' (\<lambda>n. drop_bit 8 n mod 0x100))
      else no_version)"

definition mipspro :: "macros \<Rightarrow> compiler" where
  "mipspro m = compiler_named ''MIPSpro''
     (if defined m ''_SGI_COMPILER_VERSION'' then vrp m ''_SGI_COMPILER_VERSION'' else vrp m ''_COMPILER_VERSION'')"

section \<open>The order of the conditions\<close>

definition c_identify_late :: "macros \<Rightarrow> compiler" where
  "c_identify_late m =
     (if defined m ''__clang__'' \<and> defined m ''__apple_build_version__'' then apple_clang m
      else if defined m ''__clang__'' then clang m
      else if defined m ''__GNUC__'' then gnu m
      else if defined m ''_MSC_VER'' then msvc m
      else if any_of m [''__VISUALDSPVERSION__'', ''__ADSPBLACKFIN__'', ''__ADSPTS__'', ''__ADSP21000__''] then adsp m
      else if any_of m [''__IAR_SYSTEMS_ICC__'', ''__IAR_SYSTEMS_ICC''] then compiler_named ''IAR'' no_version
      else if defined m ''SDCC'' then compiler_named ''SDCC'' (vrp m ''SDCC'')
      else if any_of m [''_SGI_COMPILER_VERSION'', ''_COMPILER_VERSION''] then mipspro m
      else if defined m ''__sgi'' then compiler_named ''MIPSpro'' no_version
      else if any_of m [''__hpux'', ''__hpua''] then compiler_named ''HP'' no_version
      else compiler_named [] no_version)"

definition c_identify :: "macros \<Rightarrow> compiler" where
  "c_identify m =
     (if any_of m [''__INTEL_COMPILER'', ''__ICC''] then intel m
      else if defined m ''__PATHCC__'' then pathscale m
      else if defined m ''__BORLANDC__'' \<and> defined m ''__CODEGEARC_VERSION__'' then embarcadero m
      else if defined m ''__BORLANDC__'' then borland m
      else if defined m ''__WATCOMC__'' \<and> macro_value m ''__WATCOMC__'' < 1200 then watcom m
      else if defined m ''__WATCOMC__'' then openwatcom m
      else if defined m ''__SUNPRO_C'' then sunpro m ''__SUNPRO_C''
      else if defined m ''__HP_cc'' then hp m ''__HP_cc''
      else if defined m ''__DECC'' then compaq m ''__DECC_VER''
      else if defined m ''__IBMC__'' \<and> defined m ''__COMPILER_VER__''
        then compiler_named ''zOS'' (vrp m ''__IBMC__'')
      else if defined m ''__IBMC__'' \<and> \<not> defined m ''__COMPILER_VER__'' \<and> 800 \<le> macro_value m ''__IBMC__''
        then compiler_named ''XL'' (vrp m ''__IBMC__'')
      else if defined m ''__IBMC__'' \<and> \<not> defined m ''__COMPILER_VER__'' \<and> macro_value m ''__IBMC__'' < 800
        then compiler_named ''VisualAge'' (vrp m ''__IBMC__'')
      else if defined m ''__PGI'' then pgi m
      else if defined m ''_CRAYC'' then cray m
      else if defined m ''__TI_COMPILER_VERSION__'' then ti m
      else if any_of m [''__FUJITSU'', ''__FCC_VERSION'', ''__fcc_version''] then compiler_named ''Fujitsu'' no_version
      else if defined m ''__TINYC__'' then compiler_named ''TinyCC'' no_version
      else if defined m ''__SCO_VERSION__'' then compiler_named ''SCO'' no_version
      else c_identify_late m)"

definition cxx_identify_late :: "macros \<Rightarrow> compiler" where
  "cxx_identify_late m =
     (if defined m ''__clang__'' \<and> defined m ''__apple_build_version__'' then apple_clang m
      else if defined m ''__clang__'' then clang m
      else if defined m ''__GNUC__'' then gnu m
      else if defined m ''_MSC_VER'' then msvc m
      else if any_of m [''__VISUALDSPVERSION__'', ''__ADSPBLACKFIN__'', ''__ADSPTS__'', ''__ADSP21000__''] then adsp m
      else if any_of m [''__IAR_SYSTEMS_ICC__'', ''__IAR_SYSTEMS_ICC''] then compiler_named ''IAR'' no_version
      else if any_of m [''_SGI_COMPILER_VERSION'', ''_COMPILER_VERSION''] then mipspro m
      else if defined m ''__sgi'' then compiler_named ''MIPSpro'' no_version
      else if any_of m [''__hpux'', ''__hpua''] then compiler_named ''HP'' no_version
      else compiler_named [] no_version)"

definition cxx_identify :: "macros \<Rightarrow> compiler" where
  "cxx_identify m =
     (if defined m ''__COMO__'' then comeau m
      else if any_of m [''__INTEL_COMPILER'', ''__ICC''] then intel m
      else if defined m ''__PATHCC__'' then pathscale m
      else if defined m ''__BORLANDC__'' \<and> defined m ''__CODEGEARC_VERSION__'' then embarcadero m
      else if defined m ''__BORLANDC__'' then borland m
      else if defined m ''__WATCOMC__'' \<and> macro_value m ''__WATCOMC__'' < 1200 then watcom m
      else if defined m ''__WATCOMC__'' then openwatcom m
      else if defined m ''__SUNPRO_CC'' then sunpro m ''__SUNPRO_CC''
      else if defined m ''__HP_aCC'' then hp m ''__HP_aCC''
      else if defined m ''__DECCXX'' then compaq m ''__DECCXX_VER''
      else if defined m ''__IBMCPP__'' \<and> defined m ''__COMPILER_VER__''
        then compiler_named ''zOS'' (vrp m ''__IBMCPP__'')
      else if defined m ''__IBMCPP__'' \<and> \<not> defined m ''__COMPILER_VER__'' \<and> 800 \<le> macro_value m ''__IBMCPP__''
        then compiler_named ''XL'' (vrp m ''__IBMCPP__'')
      else if defined m ''__IBMCPP__'' \<and> \<not> defined m ''__COMPILER_VER__'' \<and> macro_value m ''__IBMCPP__'' < 800
        then compiler_named ''VisualAge'' (vrp m ''__IBMCPP__'')
      else if defined m ''__PGI'' then pgi m
      else if defined m ''_CRAYC'' then cray m
      else if defined m ''__TI_COMPILER_VERSION__'' then ti m
      else if any_of m [''__FUJITSU'', ''__FCC_VERSION'', ''__fcc_version''] then compiler_named ''Fujitsu'' no_version
      else if defined m ''__SCO_VERSION__'' then compiler_named ''SCO'' no_version
      else cxx_identify_late m)"

section \<open>Platform and architecture\<close>

definition platform_id :: "macros \<Rightarrow> string" where
  "platform_id m =
     (if any_of m [''__linux'', ''__linux__'', ''linux''] then ''Linux''
      else if defined m ''__CYGWIN__'' then ''Cygwin''
      else if defined m ''__MINGW32__'' then ''MinGW''
      else if defined m ''__APPLE__'' then ''Darwin''
      else if any_of m [''_WIN32'', ''__WIN32__'', ''WIN32''] then ''Windows''
      else if any_of m [''__FreeBSD__'', ''__FreeBSD''] then ''FreeBSD''
      else if any_of m [''__NetBSD__'', ''__NetBSD''] then ''NetBSD''
      else if any_of m [''__OpenBSD__'', ''__OPENBSD''] then ''OpenBSD''
      else if any_of m [''__sun'', ''sun''] then ''SunOS''
      else if any_of m [''_AIX'', ''__AIX'', ''__AIX__'', ''__aix'', ''__aix__''] then ''AIX''
      else if any_of m [''__sgi'', ''__sgi__'', ''_SGI''] then ''IRIX''
      else if any_of m [''__hpux'', ''__hpux__''] then ''HP-UX''
      else if defined m ''__HAIKU__'' then ''Haiku''
      else if any_of m [''__BeOS'', ''__BEOS__'', ''_BEOS''] then ''BeOS''
      else if any_of m [''__QNX__'', ''__QNXNTO__''] then ''QNX''
      else if any_of m [''__tru64'', ''_tru64'', ''__TRU64__''] then ''Tru64''
      else if any_of m [''__riscos'', ''__riscos__''] then ''RISCos''
      else if any_of m [''__sinix'', ''__sinix__'', ''__SINIX__''] then ''SINIX''
      else if defined m ''__UNIX_SV__'' then ''UNIX_SV''
      else if defined m ''__bsdos__'' then ''BSDOS''
      else if any_of m [''_MPRAS'', ''MPRAS''] then ''MP-RAS''
      else if any_of m [''__osf'', ''__osf__''] then ''OSF1''
      else if any_of m [''_SCO_SV'', ''SCO_SV'', ''sco_sv''] then ''SCO_SV''
      else if any_of m [''__ultrix'', ''__ultrix__'', ''_ULTRIX''] then ''ULTRIX''
      else if any_of m [''__XENIX__'', ''_XENIX'', ''XENIX''] then ''Xenix''
      else if defined m ''__WATCOMC__'' then
        (if defined m ''__LINUX__'' then ''Linux''
         else if defined m ''__DOS__'' then ''DOS''
         else if defined m ''__OS2__'' then ''OS2''
         else if defined m ''__WINDOWS__'' then ''Windows3x''
         else [])
      else [])"

definition architecture_id :: "macros \<Rightarrow> string" where
  "architecture_id m =
     (if defined m ''_WIN32'' \<and> defined m ''_MSC_VER'' then
        (if defined m ''_M_IA64'' then ''IA64''
         else if any_of m [''_M_X64'', ''_M_AMD64''] then ''x64''
         else if defined m ''_M_IX86'' then ''X86''
         else if defined m ''_M_ARM'' then ''ARM''
         else if defined m ''_M_MIPS'' then ''MIPS''
         else if defined m ''_M_SH'' then ''SHx''
         else [])
      else if defined m ''__WATCOMC__'' then
        (if defined m ''_M_I86'' then ''I86''
         else if defined m ''_M_IX86'' then ''X86''
         else [])
      else [])"

section \<open>The programs\<close>

text \<open>A minor number is in the text only after a major one, and so on.\<close>

fun version_fields :: "string compiled option list \<Rightarrow> string compiled" where
  "version_fields (Some f # fs) =
     cbind f (\<lambda>digits. cbind (version_fields fs) (\<lambda>rest. Inr (''.'' @ digits @ rest)))"
| "version_fields (None # fs) = Inr []"
| "version_fields [] = Inr []"

definition version_info :: "string \<Rightarrow> version \<Rightarrow> string option compiled" where
  "version_info name v =
     (case major v of
        None \<Rightarrow> Inr None
      | Some f \<Rightarrow>
          cbind f (\<lambda>digits. cbind (version_fields [minor v, patch v, tweak v])
            (\<lambda>rest. Inr (Some (''INFO:'' @ name @ ''['' @ digits @ rest @ '']'' @ [NUL])))))"

definition info :: "string \<Rightarrow> string \<Rightarrow> string" where
  "info name v = ''INFO:'' @ name @ ''['' @ v @ '']'' @ [NUL]"

text \<open>The strings of the program, each with its terminating byte.\<close>

record probe =
  info_compiler :: string
  info_simulate :: "string option"
  qnxnto :: "string option"
  info_version :: "string option"
  info_simulate_version :: "string option"
  info_platform :: string
  info_arch :: string

definition probe_of :: "macros \<Rightarrow> compiler \<Rightarrow> probe compiled" where
  "probe_of m c =
     cbind (version_info ''compiler_version'' (COMPILER_VERSION c)) (\<lambda>v.
     cbind (version_info ''simulate_version'' (SIMULATE_VERSION c)) (\<lambda>sv.
     Inr \<lparr>info_compiler = info ''compiler'' (COMPILER_ID c),
          info_simulate = map_option (info ''simulate'') (SIMULATE_ID c),
          qnxnto = (if defined m ''__QNXNTO__'' then Some (info ''qnxnto'' []) else None),
          info_version = v, info_simulate_version = sv,
          info_platform = info ''platform'' (platform_id m),
          info_arch = info ''arch'' (architecture_id m)\<rparr>))"

definition c_compile :: "macros \<Rightarrow> probe compiled" where
  "c_compile m =
     (if defined m ''__cplusplus'' then Inl (ErrorDirective ''A C++ compiler has been selected for C.'')
      else probe_of m (c_identify m))"

definition cxx_compile :: "macros \<Rightarrow> probe compiled" where
  "cxx_compile m =
     (if \<not> defined m ''__cplusplus'' then Inl (ErrorDirective ''A C compiler has been selected for C++.'')
      else probe_of m (cxx_identify m))"

text \<open>\<open>require\<close> adds up the characters at \<open>argc\<close>; past the terminating byte there are none.\<close>

definition char_at :: "string \<Rightarrow> nat \<Rightarrow> int result" where
  "char_at s i = (if i < length s then Inr (of_char (s ! i)) else Inl OutOfBounds)"

fun require_all :: "string list \<Rightarrow> nat \<Rightarrow> int \<Rightarrow> int result" where
  "require_all [] argc require = Inr require"
| "require_all (s # ss) argc require = rbind (char_at s argc) (\<lambda>c. require_all ss argc (require + c))"

definition opt_list :: "'a option \<Rightarrow> 'a list" where
  "opt_list x = (case x of None \<Rightarrow> [] | Some y \<Rightarrow> [y])"

text \<open>With \<open>ID_VOID_MAIN\<close>, \<open>main\<close> returns nothing.\<close>

definition ID_VOID_MAIN :: "macros \<Rightarrow> bool" where
  "ID_VOID_MAIN m \<longleftrightarrow> defined m ''__18CXX''"

definition c_probe_main :: "macros \<Rightarrow> probe \<Rightarrow> nat \<Rightarrow> int option result" where
  "c_probe_main m p argc =
     (if ID_VOID_MAIN m then Inr None
      else rbind (require_all ([info_compiler p, info_platform p, info_arch p] @ opt_list (info_version p)
             @ opt_list (info_simulate p) @ opt_list (info_simulate_version p)) argc 0) (\<lambda>r. Inr (Some r)))"

definition cxx_probe_main :: "probe \<Rightarrow> nat \<Rightarrow> int result" where
  "cxx_probe_main p argc =
     require_all ([info_compiler p, info_platform p] @ opt_list (info_version p)
       @ opt_list (info_simulate p) @ opt_list (info_simulate_version p)) argc 0"

section \<open>The digits\<close>

text \<open>\<open>DEC\<close> gives the last eight digits of the number, filled up with zeros.\<close>

definition pad8 :: "string \<Rightarrow> string" where
  "pad8 s = replicate (8 - length s) CHR ''0'' @ s"

fun last_digits :: "nat \<Rightarrow> nat \<Rightarrow> string" where
  "last_digits 0 n = []"
| "last_digits (Suc k) n = last_digits k (n div 10) @ [char_of (48 + n mod 10)]"

lemma last_digits_mod: "last_digits k (n mod 10 ^ k) = last_digits k n"
proof (induction k arbitrary: n)
  case (Suc k)
  have "n mod 10 ^ Suc k div 10 = n div 10 mod 10 ^ k" "n mod 10 ^ Suc k mod 10 = n mod 10"
    by (simp_all add: mod_mult2_eq)
  then show ?case
    using Suc [of "n div 10"] by (simp del: power_Suc)
qed simp

lemma char_zero: "char_of (48 :: nat) = CHR ''0''"
  by code_simp

lemma last_digits_zero: "last_digits k 0 = replicate k CHR ''0''"
  by (induction k) (simp_all add: char_zero replicate_append_same)

lemma last_digits_show_nat:
  "n < 10 ^ k \<Longrightarrow> 0 < k \<Longrightarrow> last_digits k n = replicate (k - length (show_nat n)) CHR ''0'' @ show_nat n"
proof (induction k arbitrary: n)
  case (Suc k)
  show ?case
  proof (cases "n < 10")
    case True
    then show ?thesis
      by (subst (1 2) show_nat_rec) (simp add: last_digits_zero)
  next
    case False
    then have k: "0 < k" "n div 10 < 10 ^ k"
      using Suc.prems by (auto intro: gr0I)
    have "show_nat n = show_nat (n div 10) @ [char_of (48 + n mod 10)]"
      using False by (subst show_nat_rec) simp
    then show ?thesis
      using Suc.IH [OF k(2,1)] length_show_nat_le [OF k] by simp
  qed
qed simp

lemma DEC_pad8: "DEC n = pad8 (show_nat (n mod 10 ^ 8))"
proof -
  have e: "(8 :: nat) = Suc (Suc (Suc (Suc (Suc (Suc (Suc (Suc 0)))))))"
    by simp
  have "last_digits (Suc (Suc (Suc (Suc (Suc (Suc (Suc (Suc 0)))))))) n = DEC n"
    by (simp add: DEC_def div_mult2_eq [symmetric])
  then have "DEC n = last_digits 8 n"
    unfolding e by simp
  then show ?thesis
    using last_digits_mod [of 8 n] last_digits_show_nat [of "n mod 10 ^ 8" 8] by (simp add: pad8_def)
qed

text \<open>The digits of \<open>HEX\<close> above nine are not letters but the characters after \<open>9\<close>.\<close>

lemma HEX_no_letters: "HEX 0xABCDEF = ''00:;<=>?''"
  by (simp add: HEX_def drop_bit_eq_div) code_simp

section \<open>Which compiler is which\<close>

text \<open>The macros the C program asks for before it asks for \<open>__GNUC__\<close>.\<close>

definition before_gnu :: "string list" where
  "before_gnu =
     [''__INTEL_COMPILER'', ''__ICC'', ''__PATHCC__'', ''__BORLANDC__'', ''__WATCOMC__'', ''__SUNPRO_C'',
      ''__HP_cc'', ''__DECC'', ''__IBMC__'', ''__PGI'', ''_CRAYC'', ''__TI_COMPILER_VERSION__'',
      ''__FUJITSU'', ''__FCC_VERSION'', ''__fcc_version'', ''__TINYC__'', ''__SCO_VERSION__'', ''__clang__'']"

lemmas branch_defs = comeau_def intel_def pathscale_def embarcadero_def borland_def watcom_def
  openwatcom_def sunpro_def hp_def compaq_def pgi_def cray_def ti_def apple_clang_def clang_def
  gnu_def msvc_def adsp_def mipspro_def

lemma simulating_id [simp]: "COMPILER_ID (simulating m c) = COMPILER_ID c"
  by (simp add: simulating_def)

lemma compiler_named_id [simp]: "COMPILER_ID (compiler_named i v) = i"
  by (simp add: compiler_named_def)

lemma c_identify_late_gnu:
  "COMPILER_ID (c_identify_late m) = ''GNU'' \<longleftrightarrow> defined m ''__GNUC__'' \<and> \<not> defined m ''__clang__''"
  by (simp add: c_identify_late_def branch_defs)

lemma c_identify_gnu:
  "COMPILER_ID (c_identify m) = ''GNU'' \<longleftrightarrow> defined m ''__GNUC__'' \<and> \<not> any_of m before_gnu"
  unfolding c_identify_def
  by (auto simp: c_identify_late_gnu branch_defs before_gnu_def any_of_def not_less)

lemma c_identify_is_gnu: "COMPILER_ID (c_identify m) = ''GNU'' \<Longrightarrow> c_identify m = gnu m"
  unfolding c_identify_gnu
  by (auto simp: c_identify_def c_identify_late_def before_gnu_def any_of_def)

text \<open>Macros that only one of the two programs asks for.\<close>

definition one_sided :: "string list" where
  "one_sided =
     [''__COMO__'', ''__SUNPRO_C'', ''__SUNPRO_CC'', ''__HP_cc'', ''__HP_aCC'', ''__DECC'', ''__DECCXX'',
      ''__IBMC__'', ''__IBMCPP__'', ''__TINYC__'', ''SDCC'']"

lemma identify_agree: "\<not> any_of m one_sided \<Longrightarrow> cxx_identify m = c_identify m"
  by (simp add: one_sided_def any_of_def c_identify_def cxx_identify_def c_identify_late_def cxx_identify_late_def
      cong: if_cong split del: if_split)

lemma cxx_identify_cplusplus: "cxx_identify (m(''__cplusplus'' := x)) = cxx_identify m"
  by (simp add: cxx_identify_def cxx_identify_late_def any_of_def macro_value_def branch_defs
      simulating_def vrp_def vvrr_def dec_def hex_def dec_if_defined_def watcom_patch_def clang_version_def
      cong: if_cong split del: if_split del: not_None_eq)

lemma platform_cplusplus:
  "platform_id (m(''__cplusplus'' := x)) = platform_id m"
  "architecture_id (m(''__cplusplus'' := x)) = architecture_id m"
  by (simp_all add: platform_id_def architecture_id_def any_of_def cong: if_cong split del: if_split del: not_None_eq)

lemma compile_agree:
  assumes "\<not> any_of m one_sided" and "m ''__cplusplus'' = None"
  shows "cxx_compile (m(''__cplusplus'' \<mapsto> n)) = c_compile m"
  using assms
  by (simp add: cxx_compile_def c_compile_def cxx_identify_cplusplus identify_agree probe_of_def platform_cplusplus)

section \<open>What main reads\<close>

lemma require_all_result:
  "require_all ss i r =
     (if \<forall>s \<in> set ss. i < length s then Inr (r + sum_list (map (\<lambda>s. of_char (s ! i)) ss)) else Inl OutOfBounds)"
  by (induction ss arbitrary: r) (auto simp: char_at_def)

lemma opt_list_simps [simp]: "opt_list None = []" "opt_list (Some x) = [x]"
  by (simp_all add: opt_list_def)

text \<open>All strings but \<open>info_arch\<close> are long, whatever they hold.\<close>

definition info_string :: "string \<Rightarrow> bool" where
  "info_string s \<longleftrightarrow> 12 < length s \<and> s ! 1 = CHR ''N''"

lemma info_string_info: "6 < length name \<Longrightarrow> info_string (info name t)"
  by (simp add: info_string_def info_def)

lemma info_string_version: "version_info name v = Inr (Some s) \<Longrightarrow> 6 < length name \<Longrightarrow> info_string s"
  by (auto simp: version_info_def cbind_eq_Inr info_string_def split: option.splits)

lemma probe_strings:
  assumes "probe_of m c = Inr p"
  shows "list_all info_string ([info_compiler p, info_platform p]
    @ opt_list (info_version p) @ opt_list (info_simulate p) @ opt_list (info_simulate_version p))"
proof -
  obtain v sv where v: "version_info ''compiler_version'' (COMPILER_VERSION c) = Inr v"
      "version_info ''simulate_version'' (SIMULATE_VERSION c) = Inr sv"
    and p: "info_compiler p = info ''compiler'' (COMPILER_ID c)" "info_platform p = info ''platform'' (platform_id m)"
      "info_version p = v" "info_simulate_version p = sv" "info_simulate p = map_option (info ''simulate'') (SIMULATE_ID c)"
    using assms by (auto simp: probe_of_def cbind_eq_Inr)
  have "list_all info_string (opt_list v)" "list_all info_string (opt_list sv)"
    using v info_string_version by (cases v; cases sv; fastforce)+
  then show ?thesis
    unfolding p by (cases "SIMULATE_ID c") (simp_all add: info_string_info)
qed

lemma sum_of_N:
  "\<forall>s \<in> set ss. 12 \<le> length s \<and> s ! 1 = CHR ''N'' \<Longrightarrow> (\<Sum>s\<leftarrow>ss. of_char (s ! 1)) = 78 * int (length ss)"
proof (induction ss)
  case (Cons s ss)
  have "of_char CHR ''N'' = (78 :: int)"
    by code_simp
  then show ?case
    using Cons by simp
qed simp

text \<open>Where no architecture is recognised, \<open>main\<close> of the C program stays inside its strings
  exactly up to eleven arguments, its own name counted: \<open>info_arch\<close> is the shortest. Called
  without arguments it returns 78, an \<open>N\<close>, for each string it has.\<close>

lemma c_probe_main_result:
  assumes "c_compile m = Inr p" and "\<not> ID_VOID_MAIN m" and "architecture_id m = []"
  shows "(failed (c_probe_main m p argc) \<longleftrightarrow> 11 < argc)
    \<and> c_probe_main m p 1 = Inr (Some (78 * int (3 + length (opt_list (info_version p))
        + length (opt_list (info_simulate p)) + length (opt_list (info_simulate_version p)))))"
proof -
  have probe: "probe_of m (c_identify m) = Inr p"
    using assms(1) by (simp add: c_compile_def split: if_splits)
  then have arch: "info_arch p = info ''arch'' []"
    using assms(3) by (auto simp: probe_of_def cbind_eq_Inr)
  let ?ss = "[info_compiler p, info_platform p, info_arch p] @ opt_list (info_version p)
      @ opt_list (info_simulate p) @ opt_list (info_simulate_version p)"
  have a: "length (info_arch p) = 12" "info_arch p ! 1 = CHR ''N''"
    by (simp_all add: arch info_def)
  have "s = info_arch p \<or> info_string s" if "s \<in> set ?ss" for s
    using that probe_strings [OF probe] by (auto simp: list_all_iff)
  then have all: "\<forall>s \<in> set ?ss. 12 \<le> length s \<and> s ! 1 = CHR ''N''"
    using a unfolding info_string_def by (metis less_imp_le order_refl)
  have "(\<forall>s \<in> set ?ss. argc < length s) \<longleftrightarrow> argc < 12"
    using all a(1) by fastforce
  moreover have "(\<Sum>s\<leftarrow>?ss. of_char (s ! 1)) = 78 * int (length ?ss)"
    using all by (rule sum_of_N)
  moreover have "\<forall>s \<in> set ?ss. 1 < length s"
    using all by fastforce
  ultimately show ?thesis
    using assms(2) unfolding c_probe_main_def require_all_result by (auto simp: algebra_simps)
qed

lemma gnu_version:
  "version_info ''compiler_version'' (COMPILER_VERSION (gnu m)) = Inr v \<Longrightarrow> defined m ''__GNUC__'' \<Longrightarrow>
   \<exists>a b. m ''__GNUC__'' = Some a \<and> m ''__GNUC_MINOR__'' = Some b
     \<and> v = Some (info ''compiler_version''
         (pad8 (show_nat (a mod 10 ^ 8)) @ ''.'' @ pad8 (show_nat (b mod 10 ^ 8)) @
          (case m ''__GNUC_PATCHLEVEL__'' of
             None \<Rightarrow> []
           | Some c \<Rightarrow> ''.'' @ pad8 (show_nat (c mod 10 ^ 8)))))"
  by (auto simp: gnu_def compiler_named_def version_info_def two_def no_version_def dec_if_defined_def dec_def
      info_def DEC_pad8 cbind_eq_Inr split: option.splits)

section \<open>Properties\<close>

text \<open>The macros of the compiler on the machine of this build, of those the programs ask for.\<close>

definition gcc_5_2_1 :: macros where
  "gcc_5_2_1 = [''__GNUC__'' \<mapsto> 5, ''__GNUC_MINOR__'' \<mapsto> 2, ''__GNUC_PATCHLEVEL__'' \<mapsto> 1,
     ''__linux__'' \<mapsto> 1, ''__linux'' \<mapsto> 1, ''linux'' \<mapsto> 1]"

lemma gcc_5_2_1_strings:
  "\<exists>p. c_compile gcc_5_2_1 = Inr p \<and> info_arch p = info ''arch'' [] \<and> info_version p \<noteq> None
     \<and> info_simulate p = None \<and> info_simulate_version p = None"
  "architecture_id gcc_5_2_1 = []" "\<not> ID_VOID_MAIN gcc_5_2_1" "\<not> any_of gcc_5_2_1 before_gnu"
  "\<not> any_of gcc_5_2_1 one_sided"
proof -
  show no: "\<not> any_of gcc_5_2_1 before_gnu" "\<not> any_of gcc_5_2_1 one_sided" "architecture_id gcc_5_2_1 = []"
      "\<not> ID_VOID_MAIN gcc_5_2_1"
    by (simp_all add: any_of_def before_gnu_def one_sided_def gcc_5_2_1_def architecture_id_def ID_VOID_MAIN_def)
  have "c_identify gcc_5_2_1 = gnu gcc_5_2_1"
    by (rule c_identify_is_gnu) (simp add: c_identify_gnu no, simp add: gcc_5_2_1_def)
  then show "\<exists>p. c_compile gcc_5_2_1 = Inr p \<and> info_arch p = info ''arch'' [] \<and> info_version p \<noteq> None
     \<and> info_simulate p = None \<and> info_simulate_version p = None"
    unfolding c_compile_def probe_of_def no(3)
    by (simp add: gnu_def compiler_named_def version_info_def two_def no_version_def dec_if_defined_def dec_def
        gcc_5_2_1_def)
qed

text \<open>C35. The C program tells the GNU compiler from those that pretend to be it: it names
  \<open>GNU\<close> exactly when \<open>__GNUC__\<close> is defined and no macro of the compilers it asks for first.
  Its version string then has the last eight digits of each number, filled up with zeros. A
  compiler that defines \<open>__GNUC__\<close> but not \<open>__GNUC_MINOR__\<close> does not compile it.\<close>

theorem probe_tells_gnu:
  assumes "c_compile m = Inr p"
  shows "(info_compiler p = info ''compiler'' ''GNU'' \<longleftrightarrow>
      defined m ''__GNUC__'' \<and> \<not> any_of m before_gnu)
    \<and> (info_compiler p = info ''compiler'' ''GNU'' \<longrightarrow>
        (\<exists>a b. m ''__GNUC__'' = Some a \<and> m ''__GNUC_MINOR__'' = Some b
          \<and> info_version p = Some (info ''compiler_version''
              (pad8 (show_nat (a mod 10 ^ 8)) @ ''.'' @ pad8 (show_nat (b mod 10 ^ 8)) @
               (case m ''__GNUC_PATCHLEVEL__'' of
                  None \<Rightarrow> []
                | Some c \<Rightarrow> ''.'' @ pad8 (show_nat (c mod 10 ^ 8)))))))"
proof -
  have probe: "probe_of m (c_identify m) = Inr p"
    using assms by (simp add: c_compile_def split: if_splits)
  then have "info_compiler p = info ''compiler'' (COMPILER_ID (c_identify m))"
    by (auto simp: probe_of_def cbind_eq_Inr)
  then have named: "info_compiler p = info ''compiler'' ''GNU'' \<longleftrightarrow> COMPILER_ID (c_identify m) = ''GNU''"
    by (simp add: info_def)
  have "version_info ''compiler_version'' (COMPILER_VERSION (gnu m)) = Inr (info_version p)"
    if "COMPILER_ID (c_identify m) = ''GNU''"
    using probe c_identify_is_gnu [OF that] by (auto simp: probe_of_def cbind_eq_Inr)
  then show ?thesis
    using gnu_version [of m "info_version p"] unfolding named c_identify_gnu by blast
qed

theorem probe_tells_gnu_witness:
  "\<exists>p. c_compile gcc_5_2_1 = Inr p \<and> info_compiler p = ''INFO:compiler[GNU]'' @ [NUL]
    \<and> info_version p = Some (''INFO:compiler_version[00000005.00000002.00000001]'' @ [NUL])"
proof -
  obtain p where p: "c_compile gcc_5_2_1 = Inr p"
    using gcc_5_2_1_strings(1) by blast
  have "defined gcc_5_2_1 ''__GNUC__''"
    by (simp add: gcc_5_2_1_def)
  moreover have "pad8 (show_nat 5) = ''00000005''" "pad8 (show_nat 2) = ''00000002''" "pad8 (show_nat 1) = ''00000001''"
    by code_simp+
  ultimately show ?thesis
    using p probe_tells_gnu [OF p] gcc_5_2_1_strings(4)
    by (auto simp: gcc_5_2_1_def info_def)
qed

text \<open>C36. The C and the C++ program agree: if none of the macros only one of them asks for is
  defined, what each holds, and whether it compiles at all, is the same, but for
  \<open>__cplusplus\<close>, which decides which of the two is accepted.\<close>

theorem probes_agree:
  assumes "\<not> any_of m one_sided" and "m ''__cplusplus'' = None"
  shows "cxx_compile (m(''__cplusplus'' \<mapsto> n)) = c_compile m"
  using assms by (rule compile_agree)

theorem probes_agree_witness: "cxx_compile (gcc_5_2_1(''__cplusplus'' \<mapsto> 199711)) = c_compile gcc_5_2_1"
  by (rule probes_agree [OF gcc_5_2_1_strings(5)]) (simp add: gcc_5_2_1_def)

end
